theory Spec2Isabelle
  imports Complex_Main
begin

section \<open>JavaScript values and strings\<close>

text \<open>
  A JavaScript string is a sequence of UTF-16 code units. A code unit is modelled as a
  natural number (below 65536 in a real string; no definition depends on that bound).
  The regular expressions of the exporter carry no \<open>u\<close> flag, so they work on code units.
\<close>

type_synonym jsstring = "nat list"

definition js :: "string \<Rightarrow> jsstring" where
  "js s = map of_char s"

text \<open>The values that can reach a parameter of type \<open>unknown\<close>.\<close>

datatype jsval =
    JUndefined
  | JNull
  | JBool bool
  | JNaN
  | JNum real
  | JStr jsstring
  | JObject
  | JArray "jsval list"

datatype jstype = TUndefined | TObject | TBoolean | TNumber | TString

fun typeof :: "jsval \<Rightarrow> jstype" where
  "typeof JUndefined = TUndefined"
| "typeof JNull = TObject"
| "typeof (JBool b) = TBoolean"
| "typeof JNaN = TNumber"
| "typeof (JNum r) = TNumber"
| "typeof (JStr s) = TString"
| "typeof JObject = TObject"
| "typeof (JArray vs) = TObject"

text \<open>ToBoolean: what \<open>!text\<close> and \<open>if (x)\<close> test.\<close>

fun truthy :: "jsval \<Rightarrow> bool" where
  "truthy JUndefined = False"
| "truthy JNull = False"
| "truthy (JBool b) = b"
| "truthy JNaN = False"
| "truthy (JNum r) = (r \<noteq> 0)"
| "truthy (JStr s) = (s \<noteq> [])"
| "truthy JObject = True"
| "truthy (JArray vs) = True"

text \<open>An optional string field (\<open>name?: string\<close>): \<open>None\<close> is \<open>undefined\<close>.\<close>

fun ofOpt :: "jsstring option \<Rightarrow> jsval" where
  "ofOpt None = JUndefined"
| "ofOpt (Some s) = JStr s"

definition truthyS :: "jsstring option \<Rightarrow> bool" where
  "truthyS f = truthy (ofOpt f)"

text \<open>\<open>f || d\<close> for an optional string field and a string default.\<close>

definition orElse :: "jsstring option \<Rightarrow> jsstring \<Rightarrow> jsstring" where
  "orElse f d = (case f of None \<Rightarrow> d | Some s \<Rightarrow> if s = [] then d else s)"

subsection \<open>Character classes\<close>

text \<open>
  \<open>\s\<close> of a regular expression and the characters \<open>trim()\<close> strips: WhiteSpace and
  LineTerminator of ECMA-262.
\<close>

definition isWhiteSpace :: "nat \<Rightarrow> bool" where
  "isWhiteSpace c \<longleftrightarrow>
     c = 0x09 \<or> c = 0x0A \<or> c = 0x0B \<or> c = 0x0C \<or> c = 0x0D \<or> c = 0x20 \<or> c = 0xA0 \<or>
     c = 0x1680 \<or> (0x2000 \<le> c \<and> c \<le> 0x200A) \<or> c = 0x2028 \<or> c = 0x2029 \<or>
     c = 0x202F \<or> c = 0x205F \<or> c = 0x3000 \<or> c = 0xFEFF"

text \<open>\<open>[\x20-\x7E]\<close>\<close>

definition isPrintableAscii :: "nat \<Rightarrow> bool" where
  "isPrintableAscii c \<longleftrightarrow> 0x20 \<le> c \<and> c \<le> 0x7E"

text \<open>
  The class of bullet and dash glyphs of the source: hyphen-minus, U+2022, U+00B7, U+2023,
  U+25AA, U+25AB, U+25B8, U+25B6, U+25CF.
\<close>

definition isBulletOrDash :: "nat \<Rightarrow> bool" where
  "isBulletOrDash c \<longleftrightarrow>
     c = 0x2D \<or> c = 0x2022 \<or> c = 0xB7 \<or> c = 0x2023 \<or> c = 0x25AA \<or> c = 0x25AB \<or>
     c = 0x25B8 \<or> c = 0x25B6 \<or> c = 0x25CF"

text \<open>\<open>[\x00-\x1F\x7F]\<close>\<close>

definition isControl :: "nat \<Rightarrow> bool" where
  "isControl c \<longleftrightarrow> c \<le> 0x1F \<or> c = 0x7F"

subsection \<open>String operations\<close>

text \<open>\<open>s.replace(/\s+/g, ' ')\<close>: every maximal run of whitespace becomes one space.\<close>

function collapseWs :: "jsstring \<Rightarrow> jsstring" where
  "collapseWs [] = []"
| "collapseWs (c # cs) =
     (if isWhiteSpace c then 0x20 # collapseWs (dropWhile isWhiteSpace cs)
      else c # collapseWs cs)"
  by pat_completeness auto
termination
  by (relation "measure length") (auto simp: less_Suc_eq_le length_dropWhile_le)

definition trimStart :: "jsstring \<Rightarrow> jsstring" where
  "trimStart s = dropWhile isWhiteSpace s"

definition trimEnd :: "jsstring \<Rightarrow> jsstring" where
  "trimEnd s = rev (dropWhile isWhiteSpace (rev s))"

definition trim :: "jsstring \<Rightarrow> jsstring" where
  "trim s = trimEnd (trimStart s)"

text \<open>Lexicographic order on code units: the order of \<open>Array.prototype.sort()\<close> on strings.\<close>

fun lexLe :: "jsstring \<Rightarrow> jsstring \<Rightarrow> bool" where
  "lexLe [] ys = True"
| "lexLe (x # xs) [] = False"
| "lexLe (x # xs) (y # ys) = (x < y \<or> (x = y \<and> lexLe xs ys))"

text \<open>
  A stable sort by a "before or equal" relation. \<open>Array.prototype.sort\<close> is stable, and a
  stable sort by a total preorder has one result, which insertion computes.
\<close>

fun insertBy :: "('a \<Rightarrow> 'a \<Rightarrow> bool) \<Rightarrow> 'a \<Rightarrow> 'a list \<Rightarrow> 'a list" where
  "insertBy le x [] = [x]"
| "insertBy le x (y # ys) = (if le x y then x # y # ys else y # insertBy le x ys)"

definition sortBy :: "('a \<Rightarrow> 'a \<Rightarrow> bool) \<Rightarrow> 'a list \<Rightarrow> 'a list" where
  "sortBy le xs = foldr (insertBy le) xs []"

text \<open>\<open>xs.join(sep)\<close>\<close>

fun joinWith :: "jsstring \<Rightarrow> jsstring list \<Rightarrow> jsstring" where
  "joinWith sep [] = []"
| "joinWith sep [x] = x"
| "joinWith sep (x # y # ys) = x @ sep @ joinWith sep (y # ys)"

text \<open>\<open>s.split(sep)\<close> for a separator of one code unit.\<close>

fun splitOn :: "nat \<Rightarrow> jsstring \<Rightarrow> jsstring list" where
  "splitOn sep [] = [[]]"
| "splitOn sep (c # cs) =
     (if c = sep then [] # splitOn sep cs
      else (case splitOn sep cs of [] \<Rightarrow> [[c]] | p # ps \<Rightarrow> (c # p) # ps))"

section \<open>The host environment\<close>

text \<open>
  What the exporter takes from the JavaScript runtime and from the PDF library, and what is
  therefore not code of this repository: Unicode normalisation (\<open>normalize('NFKD')\<close>),
  the case mappings of characters outside ASCII, \<open>Date.parse\<close> on strings that are not
  of the forms \<open>YYYY-MM\<close> or \<open>YYYY-MM-DD\<close> (implementation-defined), the local time zone
  adjustment in milliseconds at a UTC time value, the collation behind
  \<open>localeCompare\<close> (as the relation "sorts before or equal", with the default options and
  with \<open>sensitivity: 'base'\<close>), the page size of the PDF library's A4 page in millimetres,
  and its text measurement under the current font.
\<close>

record font =
  fontSize :: real
  fontStyle :: string

record host =
  normalizeNFKD :: "jsstring \<Rightarrow> jsstring"
  toLowerNonAscii :: "nat \<Rightarrow> jsstring"
  toUpperNonAscii :: "nat \<Rightarrow> jsstring"
  otherDateParse :: "jsstring \<Rightarrow> int option"
  localTZA :: "int \<Rightarrow> int"
  localeLe :: "jsstring \<Rightarrow> jsstring \<Rightarrow> bool"
  localeLeBase :: "jsstring \<Rightarrow> jsstring \<Rightarrow> bool"
  pageSizeWidth :: real
  pageSizeHeight :: real
  getTextWidth :: "font \<Rightarrow> jsstring \<Rightarrow> real"
  splitTextToSize :: "font \<Rightarrow> jsstring \<Rightarrow> real \<Rightarrow> jsstring list"

section \<open>Text sanitizer\<close>

text \<open>
  \<open>cleanText\<close> of the exporter with reference validation. The debug branch only writes
  to the console and is not part of the result.
\<close>

definition cleanText :: "host \<Rightarrow> jsval \<Rightarrow> jsstring" where
  "cleanText h v =
     (case v of
        JStr text \<Rightarrow>
          if \<not> truthy v \<or> typeof v \<noteq> TString then []
          else trim (collapseWs (filter (\<lambda>c. \<not> isControl c)
                 (filter (\<lambda>c. \<not> isBulletOrDash c)
                   (filter isPrintableAscii (normalizeNFKD h text)))))
      | _ \<Rightarrow> [])"

text \<open>\<open>cleanText\<close> of the plain exporter: no normalisation step.\<close>

definition cleanText2 :: "jsval \<Rightarrow> jsstring" where
  "cleanText2 v =
     (case v of
        JStr text \<Rightarrow>
          if \<not> truthy v \<or> typeof v \<noteq> TString then []
          else trim (collapseWs (filter (\<lambda>c. \<not> isBulletOrDash c) (filter isPrintableAscii text)))
      | _ \<Rightarrow> [])"

text \<open>No two adjacent whitespace characters.\<close>

fun noWsRun :: "jsstring \<Rightarrow> bool" where
  "noWsRun [] = True"
| "noWsRun [c] = True"
| "noWsRun (c # d # cs) = (\<not> (isWhiteSpace c \<and> isWhiteSpace d) \<and> noWsRun (d # cs))"

text \<open>No whitespace at either end.\<close>

definition noOuterWs :: "jsstring \<Rightarrow> bool" where
  "noOuterWs s \<longleftrightarrow> (s = [] \<or> (\<not> isWhiteSpace (hd s) \<and> \<not> isWhiteSpace (last s)))"

text \<open>The shape of a sanitized string.\<close>

definition cleanOutput :: "jsstring \<Rightarrow> bool" where
  "cleanOutput r \<longleftrightarrow>
     (\<forall>c\<in>set r. isPrintableAscii c \<and> \<not> isBulletOrDash c) \<and> noWsRun r \<and> noOuterWs r"

subsection \<open>Case mapping\<close>

text \<open>
  \<open>toLowerCase\<close> and \<open>toUpperCase\<close>: ASCII letters are mapped here; a code unit outside
  ASCII is mapped by the host (it never maps into ASCII except as the host says).
\<close>

definition isUpper :: "nat \<Rightarrow> bool" where
  "isUpper c \<longleftrightarrow> 0x41 \<le> c \<and> c \<le> 0x5A"

definition isLower :: "nat \<Rightarrow> bool" where
  "isLower c \<longleftrightarrow> 0x61 \<le> c \<and> c \<le> 0x7A"

definition isLetter :: "nat \<Rightarrow> bool" where
  "isLetter c \<longleftrightarrow> isUpper c \<or> isLower c"

definition isDigit :: "nat \<Rightarrow> bool" where
  "isDigit c \<longleftrightarrow> 0x30 \<le> c \<and> c \<le> 0x39"

definition lowerUnit :: "nat \<Rightarrow> nat" where
  "lowerUnit c = (if isUpper c then c + 0x20 else c)"

definition upperUnit :: "nat \<Rightarrow> nat" where
  "upperUnit c = (if isLower c then c - 0x20 else c)"

definition toLowerCase :: "host \<Rightarrow> jsstring \<Rightarrow> jsstring" where
  "toLowerCase h s = concat (map (\<lambda>c. if c < 0x80 then [lowerUnit c] else toLowerNonAscii h c) s)"

definition toUpperCase :: "host \<Rightarrow> jsstring \<Rightarrow> jsstring" where
  "toUpperCase h s = concat (map (\<lambda>c. if c < 0x80 then [upperUnit c] else toUpperNonAscii h c) s)"

subsection \<open>Regular expressions\<close>

text \<open>
  The regular expressions of the exporter, as data, matched by derivatives. An atom is a
  class of code units.
\<close>

datatype rx =
    RNone
  | REps
  | RAtom "nat \<Rightarrow> bool"
  | RAlt rx rx
  | RSeq rx rx
  | RStar rx

fun nullable :: "rx \<Rightarrow> bool" where
  "nullable RNone = False"
| "nullable REps = True"
| "nullable (RAtom P) = False"
| "nullable (RAlt r s) = (nullable r \<or> nullable s)"
| "nullable (RSeq r s) = (nullable r \<and> nullable s)"
| "nullable (RStar r) = True"

text \<open>Constructors that absorb the empty language and the empty word.\<close>

fun alt :: "rx \<Rightarrow> rx \<Rightarrow> rx" where
  "alt RNone s = s"
| "alt r RNone = r"
| "alt r s = RAlt r s"

fun seq :: "rx \<Rightarrow> rx \<Rightarrow> rx" where
  "seq RNone s = RNone"
| "seq REps s = s"
| "seq r s = RSeq r s"

fun deriv :: "nat \<Rightarrow> rx \<Rightarrow> rx" where
  "deriv c RNone = RNone"
| "deriv c REps = RNone"
| "deriv c (RAtom P) = (if P c then REps else RNone)"
| "deriv c (RAlt r s) = alt (deriv c r) (deriv c s)"
| "deriv c (RSeq r s) =
     (if nullable r then alt (seq (deriv c r) s) (deriv c s) else seq (deriv c r) s)"
| "deriv c (RStar r) = seq (deriv c r) (RStar r)"

text \<open>The whole string matches: a pattern anchored with \<open>^\<close> and \<open>$\<close>.\<close>

fun fullMatch :: "rx \<Rightarrow> jsstring \<Rightarrow> bool" where
  "fullMatch r [] = nullable r"
| "fullMatch r (c # cs) = fullMatch (deriv c r) cs"

definition RPlus :: "rx \<Rightarrow> rx" where
  "RPlus r = RSeq r (RStar r)"

definition RAny :: rx where
  "RAny = RStar (RAtom (\<lambda>c. True))"

text \<open>A literal under the \<open>i\<close> flag: a pattern letter matches both of its ASCII cases.\<close>

fun RLitI :: "jsstring \<Rightarrow> rx" where
  "RLitI [] = REps"
| "RLitI (c # cs) = RSeq (RAtom (\<lambda>d. d < 0x80 \<and> upperUnit d = upperUnit c)) (RLitI cs)"

fun RAlts :: "rx list \<Rightarrow> rx" where
  "RAlts [] = RNone"
| "RAlts [r] = r"
| "RAlts (r # s # rs) = RAlt r (RAlts (s # rs))"

text \<open>\<open>re.test(s)\<close> for a pattern with no anchor, anchored at the start, or at the end.\<close>

definition testAnywhere :: "rx \<Rightarrow> jsstring \<Rightarrow> bool" where
  "testAnywhere r s = fullMatch (RSeq RAny (RSeq r RAny)) s"

definition testPrefix :: "rx \<Rightarrow> jsstring \<Rightarrow> bool" where
  "testPrefix r s = fullMatch (RSeq r RAny) s"

definition testSuffix :: "rx \<Rightarrow> jsstring \<Rightarrow> bool" where
  "testSuffix r s = fullMatch (RSeq RAny r) s"

text \<open>
  What a pattern means: its language, the set of strings it matches as a whole. The
  matcher above is proved to decide it.
\<close>

inductive_set star :: "jsstring set \<Rightarrow> jsstring set" for A :: "jsstring set" where
  star_empty: "[] \<in> star A"
| star_more: "u \<in> A \<Longrightarrow> v \<in> star A \<Longrightarrow> u @ v \<in> star A"

definition conc :: "jsstring set \<Rightarrow> jsstring set \<Rightarrow> jsstring set" where
  "conc A B = {u @ v | u v. u \<in> A \<and> v \<in> B}"

fun lang :: "rx \<Rightarrow> jsstring set" where
  "lang RNone = {}"
| "lang REps = {[]}"
| "lang (RAtom P) = {[c] | c. P c}"
| "lang (RAlt r s) = lang r \<union> lang s"
| "lang (RSeq r s) = conc (lang r) (lang s)"
| "lang (RStar r) = star (lang r)"

section \<open>Validators of the references section\<close>

text \<open>\<open>/^[^\s@]+@[^\s@]+\.[^\s@]+$/\<close>\<close>

definition emailRegex :: rx where
  "emailRegex =
     (let part = RPlus (RAtom (\<lambda>c. \<not> isWhiteSpace c \<and> c \<noteq> 0x40))
      in RSeq part (RSeq (RAtom (\<lambda>c. c = 0x40)) (RSeq part (RSeq (RAtom (\<lambda>c. c = 0x2E)) part))))"

definition isValidEmail :: "jsstring \<Rightarrow> bool" where
  "isValidEmail email = fullMatch emailRegex email"

text \<open>\<open>name.length > 1 && name.length < 100 && /[a-zA-Z]/.test(name)\<close>\<close>

definition isValidName :: "jsstring \<Rightarrow> bool" where
  "isValidName name \<longleftrightarrow> length name > 1 \<and> length name < 100 \<and> list_ex isLetter name"

record reference =
  ref_name :: "jsstring option"
  ref_title :: "jsstring option"
  ref_company :: "jsstring option"
  ref_relationship :: "jsstring option"
  ref_email :: "jsstring option"
  ref_phone :: "jsstring option"

definition placeholderName :: jsstring where
  "placeholderName = js ''Reference Name Not Provided''"

text \<open>\<open>if (ref.f) validatedRef.f = cleanText(ref.f)\<close>\<close>

definition cleanField :: "host \<Rightarrow> jsstring option \<Rightarrow> jsstring option" where
  "cleanField h f = (if truthyS f then Some (cleanText h (ofOpt f)) else f)"

definition validateReference :: "host \<Rightarrow> reference \<Rightarrow> reference" where
  "validateReference h ref =
     \<lparr> ref_name =
         (if \<not> truthyS (ref_name ref) \<or> \<not> isValidName (cleanText h (ofOpt (ref_name ref)))
          then Some placeholderName else ref_name ref),
       ref_title = cleanField h (ref_title ref),
       ref_company = cleanField h (ref_company ref),
       ref_relationship = cleanField h (ref_relationship ref),
       ref_email =
         (if truthyS (ref_email ref) \<and> \<not> isValidEmail (cleanText h (ofOpt (ref_email ref)))
          then None else ref_email ref),
       ref_phone = cleanField h (ref_phone ref) \<rparr>"

section \<open>Skills filter\<close>

definition excludeWords :: "jsstring list" where
  "excludeWords = map js
     [''early'', ''looking'', ''public'', ''start'', ''stage'', ''sector'',
      ''mobility'', ''transportation'', ''revolutionize'', ''production'']"

text \<open>
  \<open>/^[A-Z]{2,}$/\<close>, \<open>/CAD$/i\<close>, \<open>/^[A-Z][a-z]+[A-Z]/\<close>, \<open>/Linux|Windows|Mac/i\<close>,
  \<open>/SQL|Python|Java|JavaScript|HTML|CSS/i\<close>
\<close>

definition technicalPatterns :: "(jsstring \<Rightarrow> bool) list" where
  "technicalPatterns =
     [fullMatch (RSeq (RAtom isUpper) (RPlus (RAtom isUpper))),
      testSuffix (RLitI (js ''CAD'')),
      testPrefix (RSeq (RAtom isUpper) (RSeq (RPlus (RAtom isLower)) (RAtom isUpper))),
      testAnywhere (RAlts (map (\<lambda>w. RLitI (js w)) [''Linux'', ''Windows'', ''Mac''])),
      testAnywhere (RAlts (map (\<lambda>w. RLitI (js w))
        [''SQL'', ''Python'', ''Java'', ''JavaScript'', ''HTML'', ''CSS'']))]"

definition isTechnical :: "jsstring \<Rightarrow> bool" where
  "isTechnical s = list_ex (\<lambda>pattern. pattern s) technicalPatterns"

text \<open>\<open>/^[A-Z]/.test(s)\<close>\<close>

definition isCapitalized :: "jsstring \<Rightarrow> bool" where
  "isCapitalized s = (case s of [] \<Rightarrow> False | c # cs \<Rightarrow> isUpper c)"

definition isValidSkill :: "host \<Rightarrow> jsstring \<Rightarrow> bool" where
  "isValidSkill h skill =
     (let cleanSkill = trim skill in
      if length cleanSkill < 3 then False
      else if toLowerCase h cleanSkill \<in> set excludeWords then False
      else isTechnical cleanSkill \<or> isCapitalized cleanSkill \<or> length cleanSkill > 4)"

text \<open>
  An entry of \<open>skills\<close>: a bare string, or a record whose display name is read from
  \<open>name\<close>, \<open>skill\<close> or \<open>title\<close> (fields of any type).
\<close>

datatype skillEntry =
    SkillString jsstring
  | SkillRecord (sk_name: jsval) (sk_skill: jsval) (sk_title: jsval)

text \<open>\<open>a || b\<close>\<close>

definition jsOr :: "jsval \<Rightarrow> jsval \<Rightarrow> jsval" where
  "jsOr a b = (if truthy a then a else b)"

text \<open>
  \<open>skill.name || skill.skill || skill.title || ''\<close> for a record,
  \<open>String(skill || '')\<close> for a string.
\<close>

fun skillDisplay :: "skillEntry \<Rightarrow> jsval" where
  "skillDisplay (SkillString s) = JStr s"
| "skillDisplay (SkillRecord n k t) = jsOr (jsOr (jsOr n k) t) (JStr [])"

text \<open>\<open>skill.charAt(0).toUpperCase() + skill.slice(1)\<close>\<close>

definition capitalize :: "host \<Rightarrow> jsstring \<Rightarrow> jsstring" where
  "capitalize h s = toUpperCase h (take 1 s) @ drop 1 s"

definition skillsArray :: "host \<Rightarrow> skillEntry list \<Rightarrow> jsstring list" where
  "skillsArray h skills =
     sortBy (localeLeBase h)
       (map (capitalize h)
         (filter (\<lambda>skill. skill \<noteq> [] \<and> isValidSkill h skill)
           (map (cleanText h) (map skillDisplay skills))))"

section \<open>Date formatter\<close>

subsection \<open>Time values of the runtime (ECMA-262, Date objects)\<close>

text \<open>
  A time value is a number of milliseconds since 1 January 1970 UTC, or NaN (\<open>None\<close>).
  Years are proleptic Gregorian; months are counted from 0 as in the standard.
\<close>

definition msPerDay :: int where
  "msPerDay = 86400000"

definition Day :: "int \<Rightarrow> int" where
  "Day t = t div msPerDay"

definition DayFromYear :: "int \<Rightarrow> int" where
  "DayFromYear y =
     365 * (y - 1970) + (y - 1969) div 4 - (y - 1901) div 100 + (y - 1601) div 400"

definition InLeapYear :: "int \<Rightarrow> bool" where
  "InLeapYear y \<longleftrightarrow> (y mod 4 = 0 \<and> y mod 100 \<noteq> 0) \<or> y mod 400 = 0"

text \<open>The year that holds day \<open>d\<close>: the largest \<open>y\<close> with \<open>DayFromYear y \<le> d\<close>.\<close>

lemma div_step: "(0::int) < k \<Longrightarrow> a div k \<le> (a - 1) div k + 1"
proof -
  assume k: "0 < k"
  have "a div k \<le> (a - 1 + k) div k"
    using k by (intro zdiv_mono1) auto
  also have "\<dots> = (a - 1) div k + 1"
    using k by simp
  finally show ?thesis .
qed

lemma year_step_arith:
  fixes a a' b b' c c' y :: int
  shows "a' \<le> a \<Longrightarrow> b \<le> b' + 1 \<Longrightarrow> c' \<le> c \<Longrightarrow>
    365 * (y - 1 - 1970) + a' - b' + c' < 365 * (y - 1970) + a - b + c"
  by (simp add: algebra_simps)

lemma DayFromYear_step: "DayFromYear (y - 1) < DayFromYear y"
proof -
  have a: "(y - 1 - 1969) div 4 \<le> (y - 1969) div 4"
    by (intro zdiv_mono1) auto
  have b: "(y - 1901) div 100 \<le> (y - 1 - 1901) div 100 + 1"
    using div_step [of 100 "y - 1901"] by (simp add: algebra_simps)
  have c: "(y - 1 - 1601) div 400 \<le> (y - 1601) div 400"
    by (intro zdiv_mono1) auto
  show ?thesis
    unfolding DayFromYear_def using a b c by (rule year_step_arith)
qed

function yearDown :: "int \<Rightarrow> int \<Rightarrow> int" where
  "yearDown d y = (if DayFromYear y \<le> d then y else yearDown d (y - 1))"
  by pat_completeness auto
termination
proof (relation "measure (\<lambda>(d, y). nat (DayFromYear y - d))")
  show "wf (measure (\<lambda>(d, y). nat (DayFromYear y - d)))"
    by simp
next
  fix d y :: int
  assume "\<not> DayFromYear y \<le> d"
  moreover have "DayFromYear (y - 1) < DayFromYear y"
    by (rule DayFromYear_step)
  ultimately show "((d, y - 1), (d, y)) \<in> measure (\<lambda>(d, y). nat (DayFromYear y - d))"
    by simp
qed

definition YearFromDay :: "int \<Rightarrow> int" where
  "YearFromDay d = yearDown d (1970 + (if 0 \<le> d then d div 365 else d div 366))"

definition YearFromTime :: "int \<Rightarrow> int" where
  "YearFromTime t = YearFromDay (Day t)"

text \<open>First day of each month within a year, for a common and for a leap year.\<close>

definition monthStarts :: "bool \<Rightarrow> int list" where
  "monthStarts leap =
     (if leap then [0, 31, 60, 91, 121, 152, 182, 213, 244, 274, 305, 335]
      else [0, 31, 59, 90, 120, 151, 181, 212, 243, 273, 304, 334])"

text \<open>The month (0 to 11) of a day within its year: the last month that starts on or before it.\<close>

definition MonthFromTime :: "int \<Rightarrow> nat" where
  "MonthFromTime t =
     (let y = YearFromTime t; dayWithinYear = Day t - DayFromYear y
      in length (filter (\<lambda>start. start \<le> dayWithinYear) (monthStarts (InLeapYear y))) - 1)"

definition DaysInMonth :: "int \<Rightarrow> nat \<Rightarrow> int" where
  "DaysInMonth y m =
     (if m = 1 then (if InLeapYear y then 29 else 28)
      else if m \<in> {3, 5, 8, 10} then 30 else 31)"

text \<open>The time value of midnight UTC on a date; month from 0, day of the month from 1.\<close>

definition MakeDate :: "int \<Rightarrow> nat \<Rightarrow> int \<Rightarrow> int" where
  "MakeDate y m d = (DayFromYear y + monthStarts (InLeapYear y) ! m + (d - 1)) * msPerDay"

subsection \<open>Parsing\<close>

fun digitsVal :: "jsstring \<Rightarrow> nat" where
  "digitsVal ds = foldl (\<lambda>n c. 10 * n + (c - 0x30)) 0 ds"

text \<open>
  The date-only forms \<open>YYYY-MM-DD\<close> and \<open>YYYY-MM\<close> of the standard's date-time string
  format: year, month and day as written.
\<close>

fun isoDateOnly :: "jsstring \<Rightarrow> (nat \<times> nat \<times> nat) option" where
  "isoDateOnly [y1, y2, y3, y4, s1, m1, m2, s2, d1, d2] =
     (if list_all isDigit [y1, y2, y3, y4, m1, m2, d1, d2] \<and> s1 = 0x2D \<and> s2 = 0x2D
      then Some (digitsVal [y1, y2, y3, y4], digitsVal [m1, m2], digitsVal [d1, d2])
      else None)"
| "isoDateOnly [y1, y2, y3, y4, s1, m1, m2] =
     (if list_all isDigit [y1, y2, y3, y4, m1, m2] \<and> s1 = 0x2D
      then Some (digitsVal [y1, y2, y3, y4], digitsVal [m1, m2], 1)
      else None)"
| "isoDateOnly s = None"

text \<open>
  \<open>Date.parse\<close>. A date-only form is UTC; an element out of range gives NaN. (Engines
  differ on a day beyond the length of its month; the formatter only ever writes day 01.)
  Every other string is parsed as the host does.
\<close>

definition hasIsoDateShape :: "jsstring \<Rightarrow> bool" where
  "hasIsoDateShape s \<longleftrightarrow>
     (length s = 10 \<and> list_all isDigit (take 4 s @ take 2 (drop 5 s) @ drop 8 s)
        \<and> s ! 4 = 0x2D \<and> s ! 7 = 0x2D)
     \<or> (length s = 7 \<and> list_all isDigit (take 4 s @ drop 5 s) \<and> s ! 4 = 0x2D)"

definition dateParse :: "host \<Rightarrow> jsstring \<Rightarrow> int option" where
  "dateParse h s =
     (if hasIsoDateShape s then
        (case isoDateOnly s of
           Some (y, m, d) \<Rightarrow>
             if 1 \<le> m \<and> m \<le> 12 \<and> 1 \<le> d \<and> int d \<le> DaysInMonth (int y) (m - 1)
             then Some (MakeDate (int y) (m - 1) (int d))
             else None
         | None \<Rightarrow> None)
      else otherDateParse h s)"

subsection \<open>Formatting\<close>

definition monthShort :: "jsstring list" where
  "monthShort = map js [''Jan'', ''Feb'', ''Mar'', ''Apr'', ''May'', ''Jun'',
                        ''Jul'', ''Aug'', ''Sep'', ''Oct'', ''Nov'', ''Dec'']"

fun decimal :: "nat \<Rightarrow> jsstring" where
  "decimal n = (if n < 10 then [0x30 + n] else decimal (n div 10) @ [0x30 + n mod 10])"

declare decimal.simps [simp del]

definition LocalTime :: "host \<Rightarrow> int \<Rightarrow> int" where
  "LocalTime h t = t + localTZA h t"

text \<open>
  \<open>toLocaleString('en-US', {month: 'short', year: 'numeric'})\<close>, and the same call of
  \<open>toLocaleDateString\<close>: the pattern \<open>MMM y\<close> on the local time; \<open>y\<close> is the year of the
  era. On an invalid date the result is the string \<open>Invalid Date\<close>; nothing is thrown.
\<close>

definition toLocaleMonthYear :: "host \<Rightarrow> int option \<Rightarrow> jsstring" where
  "toLocaleMonthYear h tv =
     (case tv of
        None \<Rightarrow> js ''Invalid Date''
      | Some t \<Rightarrow>
          (let lt = LocalTime h t; y = YearFromTime lt
           in monthShort ! MonthFromTime lt @ js '' '' @ decimal (nat (if 1 \<le> y then y else 1 - y))))"

subsection \<open>formatDate\<close>

text \<open>
  What the \<open>try\<close> block evaluates to: a value, or a thrown exception. Neither the \<open>Date\<close>
  constructor on a string nor the formatting call with this locale and these options
  throws, so the block always yields a value.
\<close>

datatype 'a completion = Normal 'a | Throw

definition newDate :: "host \<Rightarrow> jsstring \<Rightarrow> int option completion" where
  "newDate h s = Normal (dateParse h s)"

definition toLocaleString :: "host \<Rightarrow> int option \<Rightarrow> jsstring completion" where
  "toLocaleString h tv = Normal (toLocaleMonthYear h tv)"

definition formatDate :: "host \<Rightarrow> jsstring option \<Rightarrow> bool \<Rightarrow> jsstring" where
  "formatDate h date isEndDate =
     (case date of
        None \<Rightarrow> (if isEndDate then js ''Present'' else [])
      | Some d \<Rightarrow>
          if d = [] then (if isEndDate then js ''Present'' else [])
          else if toLowerCase h d = js ''present'' then js ''Present''
          else
            (case (case newDate h (d @ js ''-01'') of
                     Normal parsedDate \<Rightarrow> toLocaleString h parsedDate
                   | Throw \<Rightarrow> Throw) of
               Normal formatted \<Rightarrow> formatted
             | Throw \<Rightarrow> d))"

section \<open>Sample hosts\<close>

text \<open>
  Concrete hosts for evaluating the exporter: a fragment of NFKD (the decompositions of a
  few accented Latin letters into base letter and combining mark), case mappings that
  leave other characters alone, no date formats beyond the standard one, a collation by
  letters first (lower case before upper case on a tie), the A4 page in millimetres, and a
  fixed-pitch font measure without wrapping.
\<close>

definition nfkdUnit :: "nat \<Rightarrow> jsstring" where
  "nfkdUnit c =
     (if c = 0xE9 then [0x65, 0x301] else if c = 0xE8 then [0x65, 0x300]
      else if c = 0xE1 then [0x61, 0x301] else if c = 0xE0 then [0x61, 0x300]
      else if c = 0xF1 then [0x6E, 0x303] else if c = 0xFC then [0x75, 0x308]
      else if c = 0xA0 then [0x20] else [c])"

definition utcHost :: host where
  "utcHost =
     \<lparr> normalizeNFKD = (\<lambda>s. concat (map nfkdUnit s)),
       toLowerNonAscii = (\<lambda>c. [c]),
       toUpperNonAscii = (\<lambda>c. [c]),
       otherDateParse = (\<lambda>s. None),
       localTZA = (\<lambda>t. 0),
       localeLe = (\<lambda>a b. if map lowerUnit a = map lowerUnit b then lexLe b a
                          else lexLe (map lowerUnit a) (map lowerUnit b)),
       localeLeBase = (\<lambda>a b. lexLe (map lowerUnit a) (map lowerUnit b)),
       pageSizeWidth = 595.28 * 25.4 / 72,
       pageSizeHeight = 841.89 * 25.4 / 72,
       getTextWidth = (\<lambda>f s. fontSize f * real (length s) / 5),
       splitTextToSize = (\<lambda>f s w. [s]) \<rparr>"

text \<open>The same host four hours west of UTC (New York in summer).\<close>

definition newYorkHost :: host where
  "newYorkHost = utcHost \<lparr> localTZA := (\<lambda>t. - 4 * 3600000) \<rparr>"

subsection \<open>Sample documents\<close>

definition emptyReference :: reference where
  "emptyReference = \<lparr> ref_name = None, ref_title = None, ref_company = None,
     ref_relationship = None, ref_email = None, ref_phone = None \<rparr>"

definition skillsSample :: "skillEntry list" where
  "skillsSample = map (\<lambda>s. SkillString (js s)) [''AI'', ''to'', ''a'', ''early'', ''JavaScript'']"

section \<open>Pagination and drawing state\<close>

text \<open>
  The page geometry of the exporter. The page size comes from the PDF library (A4 in
  millimetres); the margin is the constant 15.
\<close>

record config =
  pageWidth :: real
  pageHeight :: real
  margin :: real

definition mkConfig :: "real \<Rightarrow> real \<Rightarrow> config" where
  "mkConfig w ht = \<lparr> pageWidth = w, pageHeight = ht, margin = 15 \<rparr>"

text \<open>
  What the exporter asks the PDF document to do. A text is recorded with the font it is
  drawn in. Colour and line width settings are left out: nothing in the exporter reads
  them back, and no position depends on them.
\<close>

datatype drawOp =
    DText font jsstring real real
  | DLine real real real real
  | DRect real real real real
  | DCircle real real real
  | DAddPage
  | DSave jsstring

text \<open>
  The state of one export: the cursor \<open>yPosition\<close>, the number of pages of the document,
  the operations drawn so far, and the current font. \<open>cursorLog\<close> is a history variable:
  the page and the value of every assignment to the cursor, in order. \<open>backLog\<close> is a
  second history variable: the positions in \<open>cursorLog\<close> of the entries written by the two
  statements of the exporters that take the cursor back, \<open>yPosition = startY\<close> between the
  two columns of skills and \<open>yPosition -= 1\<close> after the description of an education entry
  in the plain exporter.
\<close>

record lstate =
  yPosition :: real
  pageCount :: nat
  drawn :: "drawOp list"
  curFont :: font
  cursorLog :: "(nat \<times> real) list"
  backLog :: "nat list"

definition initState :: "config \<Rightarrow> lstate" where
  "initState cfg =
     \<lparr> yPosition = margin cfg, pageCount = 1, drawn = [],
       curFont = \<lparr> fontSize = 16, fontStyle = ''normal'' \<rparr>,
       cursorLog = [(1, margin cfg)],
       backLog = [] \<rparr>"

text \<open>\<open>yPosition = v\<close> and \<open>yPosition += d\<close>\<close>

definition setY :: "real \<Rightarrow> lstate \<Rightarrow> lstate" where
  "setY v st = st \<lparr> yPosition := v, cursorLog := cursorLog st @ [(pageCount st, v)] \<rparr>"

definition advance :: "real \<Rightarrow> lstate \<Rightarrow> lstate" where
  "advance d st = setY (yPosition st + d) st"

text \<open>
  The two statements that take the cursor back: the assignment is recorded in \<open>backLog\<close>
  as well. \<open>setBack v\<close> is \<open>yPosition = v\<close> and \<open>retreat d\<close> is \<open>yPosition -= d\<close>.
\<close>

definition setBack :: "real \<Rightarrow> lstate \<Rightarrow> lstate" where
  "setBack v st = setY v (st \<lparr> backLog := backLog st @ [length (cursorLog st)] \<rparr>)"

definition retreat :: "real \<Rightarrow> lstate \<Rightarrow> lstate" where
  "retreat d st = setBack (yPosition st - d) st"

definition draw :: "drawOp \<Rightarrow> lstate \<Rightarrow> lstate" where
  "draw op st = st \<lparr> drawn := drawn st @ [op] \<rparr>"

definition setFontSize :: "real \<Rightarrow> lstate \<Rightarrow> lstate" where
  "setFontSize sz st = st \<lparr> curFont := (curFont st) \<lparr> fontSize := sz \<rparr> \<rparr>"

definition setFont :: "string \<Rightarrow> lstate \<Rightarrow> lstate" where
  "setFont style st = st \<lparr> curFont := (curFont st) \<lparr> fontStyle := style \<rparr> \<rparr>"

text \<open>\<open>pdf.text(s, x, y)\<close>, and the common case \<open>pdf.text(s, x, yPosition)\<close>.\<close>

definition textAt :: "jsstring \<Rightarrow> real \<Rightarrow> real \<Rightarrow> lstate \<Rightarrow> lstate" where
  "textAt s x y st = draw (DText (curFont st) s x y) st"

definition textHere :: "jsstring \<Rightarrow> real \<Rightarrow> lstate \<Rightarrow> lstate" where
  "textHere s x st = textAt s x (yPosition st) st"

text \<open>A block of statements, run in order; a statement under a condition.\<close>

definition steps :: "('s \<Rightarrow> 's) list \<Rightarrow> 's \<Rightarrow> 's" where
  "steps fs st = fold (\<lambda>f s. f s) fs st"

definition onlyIf :: "bool \<Rightarrow> ('s \<Rightarrow> 's) \<Rightarrow> 's \<Rightarrow> 's" where
  "onlyIf c f st = (if c then f st else st)"

text \<open>\<open>xs.forEach((x, index) => ...)\<close> and the loops \<open>for (let i = 0; i < xs.length; i++)\<close>.\<close>

definition forEach :: "'a list \<Rightarrow> ('a \<Rightarrow> 's \<Rightarrow> 's) \<Rightarrow> 's \<Rightarrow> 's" where
  "forEach xs body st = fold body xs st"

definition forEachIndexed :: "'a list \<Rightarrow> (nat \<Rightarrow> 'a \<Rightarrow> 's \<Rightarrow> 's) \<Rightarrow> 's \<Rightarrow> 's" where
  "forEachIndexed xs body st = fold (\<lambda>(i, x). body i x) (List.enumerate 0 xs) st"

subsection \<open>checkPageBreak\<close>

definition checkPageBreak :: "config \<Rightarrow> real \<Rightarrow> lstate \<Rightarrow> bool \<times> lstate" where
  "checkPageBreak cfg requiredSpace st =
     (if yPosition st + requiredSpace > pageHeight cfg - 20
      then (True,
            (draw DAddPage st)
              \<lparr> pageCount := pageCount st + 1,
                yPosition := margin cfg,
                cursorLog := cursorLog st @ [(pageCount st + 1, margin cfg)] \<rparr>)
      else (False, st))"

text \<open>A call whose result is not used.\<close>

definition pageBreak :: "config \<Rightarrow> real \<Rightarrow> lstate \<Rightarrow> lstate" where
  "pageBreak cfg requiredSpace st = snd (checkPageBreak cfg requiredSpace st)"

subsection \<open>Drawing primitives\<close>

text \<open>
  The primitives take the sanitizer \<open>cl\<close> of their exporter as a parameter: the two
  exporters differ in it and in nothing else here.
\<close>

definition bulletSep :: jsstring where
  "bulletSep = [0x20, 0x2022, 0x20]"

definition dashSep :: jsstring where
  "dashSep = [0x20, 0x2013, 0x20]"

definition addSectionHeader :: "host \<Rightarrow> config \<Rightarrow> jsstring \<Rightarrow> lstate \<Rightarrow> lstate" where
  "addSectionHeader h cfg title =
     steps
       [pageBreak cfg 12,
        setFontSize 13,
        setFont ''bold'',
        textHere (toUpperCase h title) (margin cfg),
        advance 3,
        (\<lambda>st. draw (DLine (margin cfg) (yPosition st) (pageWidth cfg - margin cfg) (yPosition st)) st),
        advance 5]"

definition addText ::
  "host \<Rightarrow> (jsval \<Rightarrow> jsstring) \<Rightarrow> config \<Rightarrow> jsstring \<Rightarrow> real \<Rightarrow> string \<Rightarrow> real \<Rightarrow> lstate \<Rightarrow> lstate"
where
  "addText h cl cfg txt fSize fStyle indent st =
     (if txt = [] then st
      else steps
        [setFontSize fSize,
         setFont fStyle,
         (\<lambda>st. forEach
            (splitTextToSize h (curFont st) (cl (JStr txt)) (pageWidth cfg - 2 * margin cfg - indent))
            (\<lambda>line. steps
               [pageBreak cfg (fSize * 0.5),
                textHere line (margin cfg + indent),
                advance (fSize * 0.5)]) st),
         advance 1] st)"

text \<open>\<open>bullet.replace(/^[-...\s]*/, '').trim()\<close>: the leading bullets, dashes and spaces go.\<close>

definition stripLeadingBullets :: "jsstring \<Rightarrow> jsstring" where
  "stripLeadingBullets bullet = trim (dropWhile (\<lambda>c. isBulletOrDash c \<or> isWhiteSpace c) bullet)"

definition addBulletPoints ::
  "host \<Rightarrow> config \<Rightarrow> jsstring \<Rightarrow> real \<Rightarrow> bool \<Rightarrow> lstate \<Rightarrow> lstate"
where
  "addBulletPoints h cfg txt indent showBullets st =
     (if txt = [] then st
      else forEach (filter (\<lambda>line. length line > 0) (map trim (splitOn 0x0A txt)))
        (\<lambda>bullet. steps
           [pageBreak cfg 5,
            (\<lambda>st.
               let cleanBullet = stripLeadingBullets bullet in
               if showBullets \<and> cleanBullet \<noteq> [] then
                 steps
                   [setFontSize 9,
                    setFont ''bold'',
                    textHere [0x2022] (margin cfg + indent),
                    setFontSize 9,
                    setFont ''normal'',
                    (\<lambda>st.
                       let wrappedLines = splitTextToSize h (curFont st) cleanBullet
                             (pageWidth cfg - 2 * margin cfg - indent - 4)
                       in onlyIf (length wrappedLines > 0)
                            (steps
                              [textHere (hd wrappedLines) (margin cfg + indent + 4),
                               advance 4,
                               forEach (tl wrappedLines)
                                 (\<lambda>line. steps
                                    [pageBreak cfg 4,
                                     textHere line (margin cfg + indent + 4),
                                     advance 4])]) st)] st
               else if cleanBullet \<noteq> [] then
                 steps
                   [setFontSize 9,
                    setFont ''normal'',
                    (\<lambda>st. forEach
                       (splitTextToSize h (curFont st) cleanBullet
                          (pageWidth cfg - 2 * margin cfg - indent))
                       (\<lambda>line. steps
                          [pageBreak cfg 4,
                           textHere line (margin cfg + indent),
                           advance 4]) st)] st
               else st)]) st)"

section \<open>The resume document\<close>

text \<open>
  The document as the exporter's interfaces declare it. Every field is optional
  (\<open>None\<close> is \<open>undefined\<close>). A section array that is missing behaves as an empty one
  (every use is guarded by \<open>?.length\<close>), so the arrays are lists.
\<close>

record personal =
  p_fullName :: "jsstring option"
  p_email :: "jsstring option"
  p_phone :: "jsstring option"
  p_location :: "jsstring option"
  p_summary :: "jsstring option"

record experience =
  exp_position :: "jsstring option"
  exp_company :: "jsstring option"
  exp_startDate :: "jsstring option"
  exp_endDate :: "jsstring option"
  exp_location :: "jsstring option"
  exp_description :: "jsstring option"

record education =
  edu_degree :: "jsstring option"
  edu_school :: "jsstring option"
  edu_startDate :: "jsstring option"
  edu_endDate :: "jsstring option"
  edu_location :: "jsstring option"
  edu_gpa :: "jsstring option"
  edu_description :: "jsstring option"
  edu_courses :: "jsstring option"
  edu_honors :: "jsstring option"

record project =
  proj_name :: "jsstring option"
  proj_startDate :: "jsstring option"
  proj_endDate :: "jsstring option"
  proj_technologies :: "jsstring option"
  proj_description :: "jsstring option"
  proj_link :: "jsstring option"

record certification =
  cert_name :: "jsstring option"
  cert_issuer :: "jsstring option"
  cert_date :: "jsstring option"
  cert_expiration :: "jsstring option"
  cert_credentialId :: "jsstring option"
  cert_verificationLink :: "jsstring option"

record language =
  lang_language :: "jsstring option"
  lang_proficiency :: "jsstring option"

record resumeData =
  personal :: "personal option"
  experiences :: "experience list"
  educations :: "education list"
  skills :: "skillEntry list"
  projects :: "project list"
  certifications :: "certification list"
  languages :: "language list"
  interests :: "jsstring list"
  references :: "reference list"

text \<open>\<open>resumeData.personal?.f\<close>\<close>

definition personalField :: "(personal \<Rightarrow> jsstring option) \<Rightarrow> resumeData \<Rightarrow> jsstring option" where
  "personalField f r = (case personal r of None \<Rightarrow> None | Some p \<Rightarrow> f p)"

text \<open>The value of a field known to be truthy.\<close>

definition val :: "jsstring option \<Rightarrow> jsstring" where
  "val f = orElse f []"

text \<open>
  The sanitized values of the fields that are set, in order:
  \<open>if (f) xs.push(cleanText(f))\<close>, with an optional label before the value.
\<close>

definition pushClean :: "(jsval \<Rightarrow> jsstring) \<Rightarrow> (jsstring \<times> jsstring option) list \<Rightarrow> jsstring list" where
  "pushClean cl entries =
     map (\<lambda>(label, f). label @ cl (ofOpt f)) (filter (\<lambda>(label, f). truthyS f) entries)"

section \<open>Sections shared by both exporters\<close>

text \<open>The ATS block: the sanitized job description in chunks of 500, tiled in three columns.\<close>

function chunksOf :: "nat \<Rightarrow> jsstring \<Rightarrow> jsstring list" where
  "chunksOf n s = (if n = 0 \<or> s = [] then [] else take n s # chunksOf n (drop n s))"
  by pat_completeness auto
termination
  by (relation "measure (\<lambda>(n, s). length s)") auto

declare chunksOf.simps [simp del]

definition embedJobDescription ::
  "(jsval \<Rightarrow> jsstring) \<Rightarrow> config \<Rightarrow> jsstring option \<Rightarrow> lstate \<Rightarrow> lstate"
where
  "embedJobDescription cl cfg jobDescription =
     onlyIf (truthyS jobDescription \<and> trim (val jobDescription) \<noteq> [])
       (steps
          [setFontSize 0.1,
           forEachIndexed (chunksOf 500 (cl (ofOpt jobDescription)))
             (\<lambda>index chunk.
                textAt chunk (margin cfg + real (index mod 3) * 50)
                  (margin cfg + 5 + real index * 2))])"

definition headerSection ::
  "host \<Rightarrow> (jsval \<Rightarrow> jsstring) \<Rightarrow> config \<Rightarrow> resumeData \<Rightarrow> lstate \<Rightarrow> lstate"
where
  "headerSection h cl cfg r =
     onlyIf (truthyS (personalField p_fullName r))
       (steps
          [setFontSize 26,
           setFont ''bold'',
           (\<lambda>st.
              let nameText = cl (ofOpt (personalField p_fullName r));
                  nameWidth = getTextWidth h (curFont st) nameText;
                  lineWidth = nameWidth * 0.6;
                  lineX = (pageWidth cfg - lineWidth) / 2
              in steps
                   [textHere nameText ((pageWidth cfg - nameWidth) / 2),
                    advance 10,
                    (\<lambda>st. draw (DLine lineX (yPosition st - 2) (lineX + lineWidth) (yPosition st - 2)) st),
                    advance 6] st),
           setFontSize 10,
           setFont ''normal'',
           (\<lambda>st.
              let contactInfo = pushClean cl
                    [([], personalField p_email r), ([], personalField p_phone r),
                     ([], personalField p_location r)];
                  contactText = joinWith bulletSep contactInfo
              in onlyIf (length contactInfo > 0)
                   (steps
                      [textHere contactText
                         ((pageWidth cfg - getTextWidth h (curFont st) contactText) / 2),
                       advance 4]) st),
           advance 5])"

definition summarySection ::
  "host \<Rightarrow> (jsval \<Rightarrow> jsstring) \<Rightarrow> config \<Rightarrow> resumeData \<Rightarrow> lstate \<Rightarrow> lstate"
where
  "summarySection h cl cfg r =
     onlyIf (truthyS (personalField p_summary r))
       (steps
          [addSectionHeader h cfg (js ''Executive Summary''),
           (\<lambda>st.
              let summaryStartY = yPosition st
              in steps
                   [addText h cl cfg (val (personalField p_summary r)) 10 ''normal'' 6,
                    (\<lambda>st. draw (DLine (margin cfg + 2) (summaryStartY - 3)
                                   (margin cfg + 2) (yPosition st - 3)) st)] st),
           advance 3])"

definition experienceSection ::
  "host \<Rightarrow> (jsval \<Rightarrow> jsstring) \<Rightarrow> config \<Rightarrow> resumeData \<Rightarrow> lstate \<Rightarrow> lstate"
where
  "experienceSection h cl cfg r =
     onlyIf (length (experiences r) > 0)
       (steps
          [addSectionHeader h cfg (js ''Professional Experience''),
           forEachIndexed (experiences r)
             (\<lambda>expIndex exp. steps
                [pageBreak cfg 20,
                 setFontSize 12,
                 setFont ''bold'',
                 textHere (cl (JStr (orElse (exp_position exp) (js ''Position'')))) (margin cfg),
                 advance 5,
                 setFontSize 10,
                 setFont ''bolditalic'',
                 textHere (cl (JStr (orElse (exp_company exp) (js ''Company'')))) (margin cfg),
                 onlyIf (truthyS (exp_startDate exp) \<or> truthyS (exp_endDate exp))
                   (steps
                      [setFont ''normal'',
                       (\<lambda>st.
                          let dateInfo = formatDate h (exp_startDate exp) False @ dashSep
                                @ formatDate h (exp_endDate exp) True
                          in textHere dateInfo
                               (pageWidth cfg - margin cfg - getTextWidth h (curFont st) dateInfo) st)]),
                 advance 4,
                 onlyIf (truthyS (exp_location exp))
                   (steps
                      [setFontSize 9,
                       setFont ''italic'',
                       textHere (cl (ofOpt (exp_location exp))) (margin cfg),
                       advance 3]),
                 (\<lambda>st. draw (DLine (margin cfg) (yPosition st) (pageWidth cfg - margin cfg) (yPosition st)) st),
                 advance 4,
                 onlyIf (truthyS (exp_description exp))
                   (addBulletPoints h cfg (val (exp_description exp)) 6 True),
                 advance (if expIndex < length (experiences r) - 1 then 4 else 2)])])"

text \<open>
  Projects and certifications differ between the exporters only in the title. A project
  with no name, or a blank one, is skipped (\<open>continue\<close>).
\<close>

definition projectsSection ::
  "host \<Rightarrow> (jsval \<Rightarrow> jsstring) \<Rightarrow> config \<Rightarrow> jsstring \<Rightarrow> resumeData \<Rightarrow> lstate \<Rightarrow> lstate"
where
  "projectsSection h cl cfg title r =
     onlyIf (length (projects r) > 0)
       (steps
          [addSectionHeader h cfg title,
           forEachIndexed (projects r)
             (\<lambda>projIndex project.
                onlyIf (truthyS (proj_name project) \<and> trim (val (proj_name project)) \<noteq> [])
                  (steps
                     [pageBreak cfg 25,
                      setFontSize 12,
                      setFont ''bold'',
                      textHere (cl (ofOpt (proj_name project))) (margin cfg),
                      advance 5,
                      onlyIf (truthyS (proj_startDate project) \<or> truthyS (proj_endDate project)
                              \<or> truthyS (proj_technologies project))
                        (if truthyS (proj_startDate project) \<or> truthyS (proj_endDate project) then
                           steps
                             [setFontSize 9,
                              setFont ''bolditalic'',
                              (\<lambda>st.
                                 let dateInfo = formatDate h (proj_startDate project) False @ dashSep
                                       @ formatDate h (proj_endDate project) True;
                                     tech = js ''Tech: '' @ cl (ofOpt (proj_technologies project))
                                 in steps
                                      [textHere dateInfo (margin cfg),
                                       onlyIf (truthyS (proj_technologies project))
                                         (\<lambda>st.
                                            let dateWidth = getTextWidth h (curFont st) dateInfo;
                                                rightAlign = pageWidth cfg - margin cfg
                                                  - getTextWidth h (curFont st) tech
                                            in if rightAlign > margin cfg + dateWidth + 15
                                               then textHere tech rightAlign st
                                               else steps
                                                      [advance 4,
                                                       setFont ''italic'',
                                                       textHere tech (margin cfg)] st)] st),
                              advance 4]
                         else
                           onlyIf (truthyS (proj_technologies project))
                             (steps
                                [setFontSize 9,
                                 setFont ''italic'',
                                 textHere (js ''Technologies: '' @ cl (ofOpt (proj_technologies project)))
                                   (margin cfg),
                                 advance 4])),
                      (\<lambda>st. draw (DLine (margin cfg) (yPosition st)
                                     (pageWidth cfg - margin cfg) (yPosition st)) st),
                      advance 4,
                      onlyIf (truthyS (proj_description project))
                        (addBulletPoints h cfg (val (proj_description project)) 6 True),
                      onlyIf (truthyS (proj_link project))
                        (steps
                           [advance 1,
                            setFontSize 8,
                            setFont ''normal'',
                            (\<lambda>st.
                               let linkText = js ''Link: '' @ cl (ofOpt (proj_link project));
                                   linkWidth = getTextWidth h (curFont st) linkText
                               in steps
                                    [draw (DRect (margin cfg - 1) (yPosition st - 3) (linkWidth + 2) 5),
                                     textHere linkText (margin cfg)] st),
                            advance 5]),
                      advance (if projIndex < length (projects r) - 1 then 6 else 3)]))])"

definition certificationsSection ::
  "host \<Rightarrow> (jsval \<Rightarrow> jsstring) \<Rightarrow> config \<Rightarrow> jsstring \<Rightarrow> resumeData \<Rightarrow> lstate \<Rightarrow> lstate"
where
  "certificationsSection h cl cfg title r =
     onlyIf (length (certifications r) > 0)
       (steps
          [addSectionHeader h cfg title,
           forEachIndexed (certifications r)
             (\<lambda>certIndex cert. steps
                [pageBreak cfg 10,
                 setFontSize 11,
                 setFont ''bold'',
                 textHere (cl (ofOpt (cert_name cert))) (margin cfg),
                 advance 4,
                 (let certDetails = pushClean cl [([], cert_issuer cert), ([], cert_date cert)]
                  in onlyIf (length certDetails > 0)
                       (steps
                          [setFontSize 9,
                           setFont ''italic'',
                           textHere (js ''Issued by: '' @ joinWith bulletSep certDetails) (margin cfg),
                           advance 3])),
                 onlyIf (truthyS (cert_expiration cert))
                   (steps
                      [setFontSize 8,
                       setFont ''normal'',
                       textHere (js ''Expires: '' @ cl (ofOpt (cert_expiration cert))) (margin cfg),
                       advance 3]),
                 onlyIf (truthyS (cert_credentialId cert))
                   (steps
                      [setFontSize 8,
                       setFont ''normal'',
                       textHere (js ''Credential ID: '' @ cl (ofOpt (cert_credentialId cert))) (margin cfg),
                       advance 3]),
                 onlyIf (truthyS (cert_verificationLink cert))
                   (steps
                      [setFontSize 8,
                       setFont ''normal'',
                       (\<lambda>st.
                          let verifyText = js ''Verify: '' @ cl (ofOpt (cert_verificationLink cert));
                              verifyWidth = getTextWidth h (curFont st) verifyText
                          in steps
                               [draw (DRect (margin cfg - 1) (yPosition st - 3) (verifyWidth + 2) 5),
                                textHere verifyText (margin cfg)] st),
                       advance 3]),
                 (if certIndex < length (certifications r) - 1 then
                    steps
                      [(\<lambda>st. draw (DLine (margin cfg) (yPosition st + 2)
                                      (pageWidth cfg - margin cfg) (yPosition st + 2)) st),
                       advance 4]
                  else advance 2)]),
           advance 3])"

section \<open>The exporter with reference validation\<close>

subsection \<open>Education\<close>

text \<open>
  One column of the coursework block: each course is wrapped to the column width and drawn
  at the column's own cursor, which is returned with the state.
\<close>

definition courseColumn ::
  "host \<Rightarrow> config \<Rightarrow> real \<Rightarrow> real \<Rightarrow> jsstring list \<Rightarrow> lstate \<times> real \<Rightarrow> lstate \<times> real"
where
  "courseColumn h cfg columnWidth x courses =
     forEach courses
       (\<lambda>course (st, columnY).
          let st = pageBreak cfg 5 st;
              wrappedLines = splitTextToSize h (curFont st) ([0x2022, 0x20] @ course) columnWidth
          in (case forEachIndexed wrappedLines
                     (\<lambda>lineIndex line (st, y).
                        (textAt line x y st,
                         if lineIndex < length wrappedLines - 1 then y + (4 - 1) else y))
                     (st, columnY)
              of (st, y) \<Rightarrow> (st, y + 4)))"

definition coursesBlock :: "host \<Rightarrow> config \<Rightarrow> jsstring \<Rightarrow> lstate \<Rightarrow> lstate" where
  "coursesBlock h cfg coursesText =
     steps
       [advance 3,
        setFontSize 10,
        setFont ''bold'',
        textHere (js ''Relevant Coursework'') (margin cfg),
        (\<lambda>st. draw (DLine (margin cfg) (yPosition st + 1)
                       (margin cfg + getTextWidth h (curFont st) (js ''Relevant Coursework''))
                       (yPosition st + 1)) st),
        advance 6,
        setFont ''normal'',
        setFontSize 8.5,
        (\<lambda>st.
           let courses = sortBy lexLe
                 (filter (\<lambda>course. length course > 0) (map trim (splitOn 0x2C coursesText)));
               maxWidth = pageWidth cfg - 2 * margin cfg;
               courseIndent = margin cfg + 8;
               availableWidth = maxWidth - 16;
               columnWidth = availableWidth / 2 - 10;
               columnGap = 20;
               midpoint = (length courses + 1) div 2
           in (case courseColumn h cfg columnWidth courseIndent (take midpoint courses)
                      (st, yPosition st)
               of (st1, column1Y) \<Rightarrow>
                 (case courseColumn h cfg columnWidth (courseIndent + columnWidth + columnGap)
                         (drop midpoint courses) (st1, yPosition st)
                  of (st2, column2Y) \<Rightarrow> setY (max column1Y column2Y + 2) st2)))]"

definition educationSection :: "host \<Rightarrow> config \<Rightarrow> resumeData \<Rightarrow> lstate \<Rightarrow> lstate" where
  "educationSection h cfg r =
     onlyIf (length (educations r) > 0)
       (steps
          [addSectionHeader h cfg (js ''Education''),
           forEachIndexed (educations r)
             (\<lambda>eduIndex edu. steps
                [pageBreak cfg 25,
                 setFontSize 13,
                 setFont ''bold'',
                 textHere (cleanText h (JStr (orElse (edu_degree edu) (js ''Degree'')))) (margin cfg),
                 onlyIf (truthyS (edu_startDate edu) \<or> truthyS (edu_endDate edu))
                   (let startDate = formatDate h (edu_startDate edu) False;
                        endDate = formatDate h (edu_endDate edu) True;
                        dateInfo = (if startDate \<noteq> [] then startDate @ dashSep @ endDate else endDate)
                    in steps
                         [setFontSize 10,
                          setFont ''bold'',
                          (\<lambda>st. textHere dateInfo
                             (pageWidth cfg - margin cfg - getTextWidth h (curFont st) dateInfo) st)]),
                 advance 6,
                 setFontSize 11,
                 setFont ''bold'',
                 textHere (cleanText h (JStr (orElse (edu_school edu) (js ''School'')))) (margin cfg),
                 advance 5,
                 (let achievementDetails = pushClean (cleanText h)
                        [([], edu_location edu), (js ''GPA: '', edu_gpa edu), ([], edu_honors edu)]
                  in onlyIf (length achievementDetails > 0)
                       (steps
                          [setFontSize 9,
                           setFont ''normal'',
                           textHere (joinWith bulletSep achievementDetails) (margin cfg),
                           advance 5])),
                 onlyIf (truthyS (edu_description edu))
                   (steps
                      [advance 1,
                       setFontSize 9,
                       setFont ''normal'',
                       (\<lambda>st. forEach
                          (splitTextToSize h (curFont st) (cleanText h (ofOpt (edu_description edu)))
                             (pageWidth cfg - 2 * margin cfg - 8))
                          (\<lambda>line. steps
                             [pageBreak cfg 4,
                              textHere line (margin cfg + 4),
                              advance 3.5]) st),
                       advance 2]),
                 onlyIf (truthyS (edu_courses edu))
                   (coursesBlock h cfg (val (edu_courses edu))),
                 (if eduIndex < length (educations r) - 1 then
                    steps
                      [advance 4,
                       (\<lambda>st. draw (DLine (margin cfg + 20) (yPosition st)
                                      (pageWidth cfg - margin cfg - 20) (yPosition st)) st),
                       advance 6]
                  else advance 8)])])"

subsection \<open>Skills\<close>

text \<open>The settings of the skills section: line height 4.5, indent 6, column gap 20.\<close>

definition renderSkillsInColumns :: "config \<Rightarrow> jsstring list \<Rightarrow> lstate \<Rightarrow> lstate" where
  "renderSkillsInColumns cfg skillNames st =
     (let midpoint = (length skillNames + 1) div 2;
          leftColumn = take midpoint skillNames;
          rightColumn = drop midpoint skillNames;
          maxWidth = pageWidth cfg - 2 * margin cfg - 6;
          leftX = margin cfg + 6;
          rightX = margin cfg + 6 + maxWidth / 2 + 20;
          startY = yPosition st
      in steps
           [forEach leftColumn
              (\<lambda>skill. steps
                 [pageBreak cfg 4.5,
                  textHere ([0x2022, 0x20] @ skill) leftX,
                  advance 4.5]),
            setBack startY,
            forEach rightColumn
              (\<lambda>skill. steps
                 [pageBreak cfg 4.5,
                  textHere ([0x2022, 0x20] @ skill) rightX,
                  advance 4.5]),
            setY (startY + real (max (length leftColumn) (length rightColumn)) * 4.5)] st)"

definition renderSkillsHorizontally :: "host \<Rightarrow> config \<Rightarrow> jsstring list \<Rightarrow> lstate \<Rightarrow> lstate" where
  "renderSkillsHorizontally h cfg skillNames st =
     (let lines = splitTextToSize h (curFont st) (joinWith bulletSep skillNames)
            (pageWidth cfg - 2 * margin cfg - 6)
      in if lines = [] then st
         else forEach lines
           (\<lambda>line. onlyIf (trim line \<noteq> [])
              (steps
                 [pageBreak cfg 4.5,
                  textHere line (margin cfg + 6),
                  advance 4.5])) st)"

definition minSkillsForColumns :: nat where
  "minSkillsForColumns = 4"

definition skillsSection :: "host \<Rightarrow> config \<Rightarrow> resumeData \<Rightarrow> lstate \<Rightarrow> lstate" where
  "skillsSection h cfg r =
     onlyIf (length (skills r) > 0)
       (let skillNames = skillsArray h (skills r)
        in onlyIf (length skillNames > 0)
             (steps
                [addSectionHeader h cfg (js ''Core Competencies & Technical Skills''),
                 setFontSize 10,
                 setFont ''normal'',
                 (if length skillNames \<ge> minSkillsForColumns
                  then renderSkillsInColumns cfg skillNames
                  else renderSkillsHorizontally h cfg skillNames),
                 advance 4]))"

subsection \<open>Languages\<close>

text \<open>
  The exporter's only failure: every thrown error is caught at the top level and
  re-thrown as "Failed to generate PDF".
\<close>

datatype error = GenerationFailed

text \<open>
  One column of the three-column layout. The first wrapped line of each entry is drawn;
  \<open>pdf.text\<close> throws when there is none (\<open>lines[0]\<close> is \<open>undefined\<close>). Only the first
  column checks for a page break.
\<close>

fun languageColumn ::
  "host \<Rightarrow> config \<Rightarrow> nat \<Rightarrow> real \<Rightarrow> real \<Rightarrow> (jsstring \<times> jsstring) list \<Rightarrow> lstate \<times> real
     \<Rightarrow> error + lstate \<times> real"
where
  "languageColumn h cfg col columnX columnWidth [] (st, columnY) = Inr (st, columnY)"
| "languageColumn h cfg col columnX columnWidth ((name, proficiency) # rest) (st, columnY) =
     (let st = onlyIf (col = 0) (pageBreak cfg 4) st;
          st = draw (DCircle columnX (columnY - 1) 0.8) st;
          languageText = name @ js '' ('' @ proficiency @ js '')'';
          lines = splitTextToSize h (curFont st) languageText (columnWidth - 6)
      in (case lines of
            [] \<Rightarrow> Inl GenerationFailed
          | line # others \<Rightarrow>
              languageColumn h cfg col columnX columnWidth rest
                (textAt line (columnX + 4) columnY st, columnY + 4)))"

fun languageColumns ::
  "host \<Rightarrow> config \<Rightarrow> (jsstring \<times> jsstring) list \<Rightarrow> real \<Rightarrow> nat list \<Rightarrow> lstate \<times> real
     \<Rightarrow> error + lstate \<times> real"
where
  "languageColumns h cfg langs startY [] (st, maxColumnHeight) = Inr (st, maxColumnHeight)"
| "languageColumns h cfg langs startY (col # cols) (st, maxColumnHeight) =
     (let columns = 3;
          maxWidth = pageWidth cfg - 2 * margin cfg - 6;
          columnGap = 20;
          columnWidth = (maxWidth - (columns - 1) * columnGap) / columns;
          itemsPerColumn = (length langs + 2) div 3;
          startIndex = col * itemsPerColumn;
          endIndex = min (startIndex + itemsPerColumn) (length langs);
          columnLanguages = take (endIndex - startIndex) (drop startIndex langs);
          columnX = margin cfg + 6 + real col * (columnWidth + columnGap)
      in if columnLanguages = [] then languageColumns h cfg langs startY cols (st, maxColumnHeight)
         else
           (case languageColumn h cfg col columnX columnWidth columnLanguages (st, startY) of
              Inl e \<Rightarrow> Inl e
            | Inr (st, columnY) \<Rightarrow>
                languageColumns h cfg langs startY cols
                  (st, max maxColumnHeight (columnY - startY))))"

definition languagesSection :: "host \<Rightarrow> config \<Rightarrow> resumeData \<Rightarrow> lstate \<Rightarrow> error + lstate" where
  "languagesSection h cfg r st =
     (if \<not> length (languages r) > 0 then Inr st
      else
        (let st = steps [addSectionHeader h cfg (js ''Languages''), setFontSize 10, setFont ''normal''] st;
             langs = sortBy (\<lambda>a b. localeLe h (fst a) (fst b))
               (filter (\<lambda>(name, proficiency). name \<noteq> [] \<and> proficiency \<noteq> [])
                 (map (\<lambda>lang. (cleanText h (ofOpt (lang_language lang)),
                               cleanText h (ofOpt (lang_proficiency lang)))) (languages r)))
         in if length langs \<le> 3 then
              Inr (steps
                [forEach langs
                   (\<lambda>(name, proficiency). steps
                      [pageBreak cfg 4,
                       (\<lambda>st. draw (DCircle (margin cfg + 6) (yPosition st - 1) 0.8) st),
                       textHere (name @ js '' ('' @ proficiency @ js '')'') (margin cfg + 6 + 4),
                       advance 4]),
                 advance 3] st)
            else
              (case languageColumns h cfg langs (yPosition st) [0, 1, 2] (st, 0) of
                 Inl e \<Rightarrow> Inl e
               | Inr (st', maxColumnHeight) \<Rightarrow>
                   Inr (steps [setY (yPosition st + maxColumnHeight), advance 3] st'))))"

subsection \<open>Interests\<close>

datatype layout = LLeft | LCenter | LRight | LJustified

text \<open>A justified line: the words are spread over the full width.\<close>

definition justifiedLine :: "host \<Rightarrow> config \<Rightarrow> jsstring list \<Rightarrow> lstate \<Rightarrow> lstate" where
  "justifiedLine h cfg ws st =
     (let maxWidth = pageWidth cfg - 2 * margin cfg - 6;
          totalWordsWidth = foldl (\<lambda>total w. total + getTextWidth h (curFont st) w) 0 ws;
          totalSpaceNeeded = maxWidth - totalWordsWidth;
          spaceBetweenWords = totalSpaceNeeded / (real (length ws) - 1)
      in fst (forEachIndexed ws
                (\<lambda>wordIndex w (st, currentX).
                   (textHere w currentX st,
                    if wordIndex < length ws - 1
                    then currentX + (getTextWidth h (curFont st) w + spaceBetweenWords)
                    else currentX))
                (st, margin cfg + 6)))"

definition interestsSection :: "host \<Rightarrow> config \<Rightarrow> layout \<Rightarrow> resumeData \<Rightarrow> lstate \<Rightarrow> lstate" where
  "interestsSection h cfg lay r =
     onlyIf (length (interests r) > 0)
       (steps
          [addSectionHeader h cfg (js '' Interests''),
           setFontSize 10,
           setFont ''normal'',
           (\<lambda>st.
              let cleanInterests = sortBy lexLe
                    (map (\<lambda>interest. cleanText h (JStr interest))
                      (filter (\<lambda>interest. interest \<noteq> [] \<and> trim interest \<noteq> []) (interests r)));
                  lines = splitTextToSize h (curFont st) (joinWith bulletSep cleanInterests)
                    (pageWidth cfg - 2 * margin cfg - 6)
              in forEachIndexed lines
                   (\<lambda>index line. steps
                      [pageBreak cfg (4 + 2),
                       (\<lambda>st.
                          let lineWidth = getTextWidth h (curFont st) line
                          in (case lay of
                                LCenter \<Rightarrow> textHere line ((pageWidth cfg - lineWidth) / 2) st
                              | LRight \<Rightarrow> textHere line (pageWidth cfg - margin cfg - lineWidth) st
                              | LJustified \<Rightarrow>
                                  if index < length lines - 1 \<and> 0x20 \<in> set line then
                                    (let ws = splitOn 0x20 line
                                     in if length ws > 1 then justifiedLine h cfg ws st
                                        else textHere line (margin cfg + 6) st)
                                  else textHere line (margin cfg + 6) st
                              | LLeft \<Rightarrow> textHere line (margin cfg + 6) st)),
                       advance 4]) st),
           advance 5,
           onlyIf (lay = LCenter \<or> lay = LRight)
             (steps
                [(\<lambda>st.
                    let decorativeLineWidth = 30;
                        decorativeX = (if lay = LCenter then (pageWidth cfg - decorativeLineWidth) / 2
                                       else pageWidth cfg - margin cfg - decorativeLineWidth)
                    in draw (DLine decorativeX (yPosition st - 2)
                               (decorativeX + decorativeLineWidth) (yPosition st - 2)) st),
                 advance 3])])"

subsection \<open>References\<close>

text \<open>\<open>if (f && f.trim()) xs.push(label + cleanText(f))\<close>\<close>

definition pushCleanTrimmed ::
  "(jsval \<Rightarrow> jsstring) \<Rightarrow> (jsstring \<times> jsstring option) list \<Rightarrow> jsstring list"
where
  "pushCleanTrimmed cl entries =
     map (\<lambda>(label, f). label @ cl (ofOpt f))
       (filter (\<lambda>(label, f). truthyS f \<and> trim (val f) \<noteq> []) entries)"

definition referencesSection :: "host \<Rightarrow> config \<Rightarrow> resumeData \<Rightarrow> lstate \<Rightarrow> lstate" where
  "referencesSection h cfg r =
     onlyIf (length (references r) > 0)
       (steps
          [addSectionHeader h cfg (js '' References''),
           forEachIndexed (references r)
             (\<lambda>refIndex rawRef.
                let ref = validateReference h rawRef;
                    titleCompany = pushCleanTrimmed (cleanText h) [([], ref_title ref), ([], ref_company ref)];
                    contactInfo = pushCleanTrimmed (cleanText h)
                      [(js ''Email: '', ref_email ref), (js ''Phone: '', ref_phone ref)]
                in steps
                  [pageBreak cfg 25,
                   setFontSize 12,
                   setFont ''bold'',
                   textHere (cleanText h (JStr (orElse (ref_name ref) (js ''Reference Name Not Provided''))))
                     (margin cfg),
                   advance 6,
                   onlyIf (length titleCompany > 0)
                     (steps
                        [setFontSize 10,
                         setFont ''italic'',
                         textHere
                           (if length titleCompany = 2
                            then titleCompany ! 0 @ js '' at '' @ titleCompany ! 1
                            else titleCompany ! 0)
                           (margin cfg),
                         advance 5]),
                   onlyIf (truthyS (ref_relationship ref) \<and> trim (val (ref_relationship ref)) \<noteq> [])
                     (steps
                        [setFontSize 9,
                         setFont ''normal'',
                         textHere (js ''Relationship: '' @ cleanText h (ofOpt (ref_relationship ref)))
                           (margin cfg),
                         advance 4]),
                   onlyIf (length contactInfo > 0)
                     (steps
                        [setFontSize 9,
                         setFont ''normal'',
                         (\<lambda>st.
                            let contactText = joinWith (js ''  |  '') contactInfo;
                                textWidth = getTextWidth h (curFont st) contactText;
                                maxWidth = pageWidth cfg - margin cfg * 2
                            in if textWidth > maxWidth then
                                 forEach contactInfo
                                   (\<lambda>contact. steps [textHere contact (margin cfg), advance 3]) st
                               else steps [textHere contactText (margin cfg), advance 4] st)]),
                   (if refIndex < length (references r) - 1 then
                      steps
                        [advance 2,
                         (\<lambda>st. draw (DLine (margin cfg) (yPosition st)
                                        (pageWidth cfg - margin cfg) (yPosition st)) st),
                         advance 6]
                    else advance 2)])])"

subsection \<open>generateTextPDF\<close>

text \<open>
  The whole export. The result is the failure, or the final state of the document; the
  export has saved the file when the last operation is \<open>DSave\<close>.
\<close>

definition generateTextPDF ::
  "host \<Rightarrow> resumeData option \<Rightarrow> jsstring \<Rightarrow> jsstring option \<Rightarrow> error + lstate"
where
  "generateTextPDF h resume filename jobDescription =
     (let cfg = mkConfig (pageSizeWidth h) (pageSizeHeight h)
      in (case resume of
            None \<Rightarrow> Inl GenerationFailed
          | Some r \<Rightarrow>
              (case languagesSection h cfg r
                      (steps
                         [embedJobDescription (cleanText h) cfg jobDescription,
                          headerSection h (cleanText h) cfg r,
                          summarySection h (cleanText h) cfg r,
                          experienceSection h (cleanText h) cfg r,
                          educationSection h cfg r,
                          skillsSection h cfg r,
                          projectsSection h (cleanText h) cfg (js '' Projects'') r,
                          certificationsSection h (cleanText h) cfg (js '' Certifications'') r]
                         (initState cfg))
               of Inl e \<Rightarrow> Inl GenerationFailed
                | Inr st \<Rightarrow>
                    Inr (steps
                           [interestsSection h cfg LLeft r,
                            referencesSection h cfg r,
                            draw (DSave filename)] st))))"

section \<open>The plain exporter\<close>

text \<open>
  The second exporter of the repository: the same header, summary, experience, projects
  and certifications, its own sanitizer \<open>cleanText2\<close>, and simpler education, skills,
  languages, interests and references sections.
\<close>

definition educationSection2 :: "host \<Rightarrow> config \<Rightarrow> resumeData \<Rightarrow> lstate \<Rightarrow> lstate" where
  "educationSection2 h cfg r =
     onlyIf (length (educations r) > 0)
       (steps
          [addSectionHeader h cfg (js ''Education''),
           forEachIndexed (educations r)
             (\<lambda>eduIndex edu. steps
                [pageBreak cfg 12,
                 setFontSize 11,
                 setFont ''bold'',
                 textHere (cleanText2 (JStr (orElse (edu_degree edu) (js ''Degree'')))) (margin cfg),
                 onlyIf (truthyS (edu_startDate edu) \<or> truthyS (edu_endDate edu))
                   (\<lambda>st.
                      let startDate = formatDate h (edu_startDate edu) False;
                          endDate = formatDate h (edu_endDate edu) True;
                          dateInfo = (if startDate \<noteq> [] then startDate @ dashSep @ endDate else endDate);
                          dateWidth = getTextWidth h (curFont st) dateInfo
                      in steps
                           [setFont ''normal'',
                            textHere dateInfo (pageWidth cfg - margin cfg - dateWidth)] st),
                 advance 4,
                 setFontSize 10,
                 setFont ''italic'',
                 textHere (cleanText2 (JStr (orElse (edu_school edu) (js ''School'')))) (margin cfg),
                 advance 3,
                 (let locationGPA = pushClean cleanText2
                        [([], edu_location edu), (js ''GPA: '', edu_gpa edu)]
                  in onlyIf (length locationGPA > 0)
                       (steps
                          [setFontSize 8,
                           setFont ''normal'',
                           textHere (joinWith bulletSep locationGPA) (margin cfg),
                           advance 3])),
                 onlyIf (truthyS (edu_description edu))
                   (steps
                      [advance 1,
                       addBulletPoints h cfg (val (edu_description edu)) 6 True,
                       retreat 1]),
                 advance (if eduIndex < length (educations r) - 1 then 3 else 5)])])"

text \<open>
  The display name of a skill entry:
  \<open>typeof skill === 'object' && skill?.name ? skill.name : String(skill)\<close>. The filter that
  follows calls \<open>trim\<close> on it, which throws when a record's name is a value other than a
  string.
\<close>

fun skillName2 :: "skillEntry \<Rightarrow> error + jsstring" where
  "skillName2 (SkillString s) = Inr s"
| "skillName2 (SkillRecord n k t) =
     (if truthy n then (case n of JStr s \<Rightarrow> Inr s | _ \<Rightarrow> Inl GenerationFailed)
      else Inr (js ''[object Object]''))"

fun skillNames2 :: "skillEntry list \<Rightarrow> error + jsstring list" where
  "skillNames2 [] = Inr []"
| "skillNames2 (e # es) =
     (case skillName2 e of
        Inl err \<Rightarrow> Inl err
      | Inr s \<Rightarrow> (case skillNames2 es of Inl err \<Rightarrow> Inl err | Inr ss \<Rightarrow> Inr (s # ss)))"

definition skillsBody2 :: "host \<Rightarrow> config \<Rightarrow> jsstring list \<Rightarrow> lstate \<Rightarrow> lstate" where
  "skillsBody2 h cfg skillNames =
     steps
       [setFontSize 10,
        setFont ''normal'',
        (\<lambda>st. forEach
           (splitTextToSize h (curFont st)
              (joinWith bulletSep (sortBy lexLe (map (\<lambda>skill. cleanText2 (JStr skill)) skillNames)))
              (pageWidth cfg - 2 * margin cfg - 6))
           (\<lambda>line. steps
              [pageBreak cfg 4,
               textHere line (margin cfg + 6),
               advance 4]) st),
        advance 3]"

definition languagesSection2 :: "host \<Rightarrow> config \<Rightarrow> resumeData \<Rightarrow> lstate \<Rightarrow> lstate" where
  "languagesSection2 h cfg r =
     onlyIf (length (languages r) > 0)
       (steps
          [addSectionHeader h cfg (js ''Languages''),
           setFontSize 10,
           setFont ''normal'',
           (\<lambda>st. forEach
              (splitTextToSize h (curFont st)
                 (joinWith bulletSep (sortBy lexLe
                    (map (\<lambda>lang. cleanText2 (ofOpt (lang_language lang)) @ js '' (''
                              @ cleanText2 (ofOpt (lang_proficiency lang)) @ js '')'')
                       (languages r))))
                 (pageWidth cfg - 2 * margin cfg - 6))
              (\<lambda>line. steps
                 [pageBreak cfg 4,
                  textHere line (margin cfg + 6),
                  advance 4]) st),
           advance 3])"

definition interestsSection2 :: "host \<Rightarrow> config \<Rightarrow> resumeData \<Rightarrow> lstate \<Rightarrow> lstate" where
  "interestsSection2 h cfg r =
     onlyIf (length (interests r) > 0)
       (steps
          [addSectionHeader h cfg (js ''Professional Interests''),
           setFontSize 10,
           setFont ''normal'',
           (\<lambda>st. forEach
              (splitTextToSize h (curFont st)
                 (joinWith bulletSep (sortBy lexLe
                    (map (\<lambda>interest. cleanText2 (JStr interest))
                       (filter (\<lambda>interest. interest \<noteq> [] \<and> trim interest \<noteq> []) (interests r)))))
                 (pageWidth cfg - 2 * margin cfg - 6))
              (\<lambda>line. steps
                 [pageBreak cfg 4,
                  textHere line (margin cfg + 6),
                  advance 4]) st),
           advance 3])"

definition referencesSection2 :: "host \<Rightarrow> config \<Rightarrow> resumeData \<Rightarrow> lstate \<Rightarrow> lstate" where
  "referencesSection2 h cfg r =
     onlyIf (length (references r) > 0)
       (steps
          [addSectionHeader h cfg (js ''Professional References''),
           forEachIndexed (references r)
             (\<lambda>refIndex ref.
                let titleCompany = pushClean cleanText2 [([], ref_title ref), ([], ref_company ref)];
                    contactInfo = pushClean cleanText2 [([], ref_email ref), ([], ref_phone ref)]
                in steps
                  [pageBreak cfg 20,
                   setFontSize 11,
                   setFont ''bold'',
                   textHere (cleanText2 (JStr (orElse (ref_name ref) (js ''Reference'')))) (margin cfg),
                   advance 5,
                   setFontSize 10,
                   setFont ''italic'',
                   onlyIf (length titleCompany > 0)
                     (steps
                        [textHere (joinWith (js '' at '') titleCompany) (margin cfg),
                         advance 3]),
                   onlyIf (truthyS (ref_relationship ref))
                     (steps
                        [setFontSize 9,
                         setFont ''normal'',
                         textHere (js ''Professional Relationship: ''
                                     @ cleanText2 (ofOpt (ref_relationship ref))) (margin cfg),
                         advance 3]),
                   setFontSize 9,
                   setFont ''normal'',
                   (if length contactInfo > 0 then
                      steps
                        [textHere (joinWith bulletSep contactInfo) (margin cfg),
                         advance (if refIndex < length (references r) - 1 then 4 else 2)]
                    else advance (if refIndex < length (references r) - 1 then 3 else 2))])])"

text \<open>
  The whole export of the plain exporter. With no skills the function returns at the
  skills section: nothing after it runs, the final \<open>pdf.save\<close> included. The same happens
  when every skill name is blank, after the skills header has been drawn.
\<close>

definition generateTextPDF2 ::
  "host \<Rightarrow> resumeData option \<Rightarrow> jsstring \<Rightarrow> jsstring option \<Rightarrow> error + lstate"
where
  "generateTextPDF2 h resume filename jobDescription =
     (let cfg = mkConfig (pageSizeWidth h) (pageSizeHeight h)
      in (case resume of
            None \<Rightarrow> Inl GenerationFailed
          | Some r \<Rightarrow>
              (let st = steps
                     [embedJobDescription cleanText2 cfg jobDescription,
                      headerSection h cleanText2 cfg r,
                      summarySection h cleanText2 cfg r,
                      experienceSection h cleanText2 cfg r,
                      educationSection2 h cfg r]
                     (initState cfg)
               in if \<not> length (skills r) > 0 then Inr st
                  else
                    (let st = addSectionHeader h cfg (js ''Core Competencies & Technical Skills'') st
                     in (case skillNames2 (skills r) of
                           Inl e \<Rightarrow> Inl GenerationFailed
                         | Inr names \<Rightarrow>
                             (let skillNames = filter (\<lambda>skill. trim skill \<noteq> []) names
                              in if \<not> length skillNames > 0 then Inr st
                                 else Inr (steps
                                   [skillsBody2 h cfg skillNames,
                                    projectsSection h cleanText2 cfg (js ''Notable Projects'') r,
                                    certificationsSection h cleanText2 cfg
                                      (js ''Professional Certifications'') r,
                                    languagesSection2 h cfg r,
                                    interestsSection2 h cfg r,
                                    referencesSection2 h cfg r,
                                    draw (DSave filename)] st)))))))"

text \<open>Whether an export has saved its file.\<close>

fun isSave :: "drawOp \<Rightarrow> bool" where
  "isSave (DSave f) = True"
| "isSave op = False"

definition saved :: "error + lstate \<Rightarrow> bool" where
  "saved res = (case res of Inl e \<Rightarrow> False | Inr st \<Rightarrow> list_ex isSave (drawn st))"

text \<open>Whether a section header with this title (drawn in upper case, bold, size 13) is on the document.\<close>

fun isHeaderOf :: "jsstring \<Rightarrow> drawOp \<Rightarrow> bool" where
  "isHeaderOf t (DText f s x y) = (fontSize f = 13 \<and> fontStyle f = ''bold'' \<and> s = t)"
| "isHeaderOf t op = False"

definition hasSectionHeader :: "host \<Rightarrow> jsstring \<Rightarrow> error + lstate \<Rightarrow> bool" where
  "hasSectionHeader h title res =
     (case res of Inl e \<Rightarrow> False | Inr st \<Rightarrow> list_ex (isHeaderOf (toUpperCase h title)) (drawn st))"

text \<open>Every operation drawn so far satisfies a property.\<close>

definition drawnAll :: "(drawOp \<Rightarrow> bool) \<Rightarrow> lstate \<Rightarrow> bool" where
  "drawnAll P st = list_all P (drawn st)"

section \<open>Observations on an export\<close>

text \<open>The texts of a list of operations, each with its horizontal position.\<close>

fun textsOf :: "drawOp list \<Rightarrow> (jsstring \<times> real) list" where
  "textsOf [] = []"
| "textsOf (DText f s x y # ops) = (s, x) # textsOf ops"
| "textsOf (op # ops) = textsOf ops"

text \<open>
  The cursor never moves backwards within a page: of two consecutive entries of the
  history on the same page, the later is not smaller.
\<close>

fun monoLog :: "(nat \<times> real) list \<Rightarrow> bool" where
  "monoLog [] = True"
| "monoLog [e] = True"
| "monoLog ((p, y) # (q, z) # rest) = ((if p = q then y \<le> z else True) \<and> monoLog ((q, z) # rest))"

text \<open>One step of the history: the cursor stays on its page and does not decrease, or the page changes.\<close>

definition stepOk :: "nat \<times> real \<Rightarrow> nat \<times> real \<Rightarrow> bool" where
  "stepOk a b \<longleftrightarrow> (fst a = fst b \<longrightarrow> snd a \<le> snd b)"

text \<open>
  Where the cursor has moved back within a page: the positions in the history (the head of
  the list has position \<open>i\<close>) of the entries that are smaller than the entry before them
  on the same page.
\<close>

fun backward :: "nat \<Rightarrow> (nat \<times> real) list \<Rightarrow> nat list" where
  "backward i [] = []"
| "backward i [e] = []"
| "backward i ((p, y) # (q, z) # rest) =
     (if p = q \<and> z < y then [Suc i] else []) @ backward (Suc i) ((q, z) # rest)"

text \<open>
  The invariant of an export: \<open>backLog\<close> is \<open>M\<close>, the cursor has moved back only at
  positions of \<open>M\<close>, the last entry of the history is the current page and cursor, and the
  cursor is at or below the top margin.
\<close>

definition linv :: "nat list \<Rightarrow> config \<Rightarrow> lstate \<Rightarrow> bool" where
  "linv M cfg st \<longleftrightarrow>
     backLog st = M \<and> set (backward 0 (cursorLog st)) \<subseteq> set M \<and> cursorLog st \<noteq> []
     \<and> last (cursorLog st) = (pageCount st, yPosition st) \<and> margin cfg \<le> yPosition st"


text \<open>No step but the last one saves the file.\<close>

abbreviation noSave :: "lstate \<Rightarrow> bool" where
  "noSave \<equiv> drawnAll (\<lambda>op. \<not> isSave op)"


text \<open>An operation that is not the header of any of the given titles.\<close>

definition otherHeader :: "jsstring list \<Rightarrow> drawOp \<Rightarrow> bool" where
  "otherHeader titles op = list_all (\<lambda>t. \<not> isHeaderOf t op) titles"


definition otherTitles :: "jsstring list" where
  "otherTitles = map js [''PROFESSIONAL EXPERIENCE'', ''EDUCATION'', ''CORE COMPETENCIES & TECHNICAL SKILLS'']"

subsection \<open>Sample pages and resumes\<close>

definition a4 :: config where
  "a4 = mkConfig 210 297"

definition emptyPersonal :: personal where
  "emptyPersonal = \<lparr> p_fullName = None, p_email = None, p_phone = None, p_location = None,
     p_summary = None \<rparr>"

definition emptyResume :: resumeData where
  "emptyResume = \<lparr> personal = None, experiences = [], educations = [], skills = [],
     projects = [], certifications = [], languages = [], interests = [], references = [] \<rparr>"

text \<open>A document with nothing but the name "Jane Doe".\<close>

definition janeDoe :: resumeData where
  "janeDoe = emptyResume \<lparr> personal := Some (emptyPersonal \<lparr> p_fullName := Some (js ''Jane Doe'') \<rparr>) \<rparr>"

definition twoSkills :: "skillEntry list" where
  "twoSkills = map (\<lambda>s. SkillString (js s)) [''React'', ''Python'']"

definition fiveSkills :: "skillEntry list" where
  "fiveSkills = map (\<lambda>s. SkillString (js s)) [''React'', ''Python'', ''Docker'', ''Linux'', ''Kotlin'']"

text \<open>A resume with every kind of section but few skills.\<close>

definition sampleResume :: resumeData where
  "sampleResume =
     \<lparr> personal = Some \<lparr> p_fullName = Some (js ''Jane Doe''), p_email = Some (js ''jane@example.com''),
         p_phone = None, p_location = Some (js ''Nairobi''),
         p_summary = Some (js ''Engineer with ten years of practice.'') \<rparr>,
       experiences =
         [\<lparr> exp_position = Some (js ''Engineer''), exp_company = Some (js ''Acme''),
            exp_startDate = Some (js ''2019-03''), exp_endDate = None, exp_location = None,
            exp_description = Some (js ''Built the exporter'' @ [0x0A] @ js ''- Wrote the tests'') \<rparr>],
       educations =
         [\<lparr> edu_degree = Some (js ''BSc''), edu_school = None, edu_startDate = None,
            edu_endDate = Some (js ''2015-06''), edu_location = None, edu_gpa = None,
            edu_description = None, edu_courses = Some (js ''Logic, Algebra, Compilers''),
            edu_honors = None \<rparr>],
       skills = twoSkills,
       projects = [],
       certifications = [],
       languages = [\<lparr> lang_language = Some (js ''English''), lang_proficiency = Some (js ''Native'') \<rparr>],
       interests = [js ''Chess''],
       references =
         [\<lparr> ref_name = Some (js ''John Roe''), ref_title = None, ref_company = None,
            ref_relationship = None, ref_email = Some (js ''not-an-email''), ref_phone = None \<rparr>] \<rparr>"

text \<open>A document with a name, one education entry that has a description, and one skill.\<close>

definition describedEducation :: education where
  "describedEducation =
     \<lparr> edu_degree = Some (js ''BSc''), edu_school = None, edu_startDate = None, edu_endDate = None,
       edu_location = None, edu_gpa = None, edu_description = Some (js ''Thesis''),
       edu_courses = None, edu_honors = None \<rparr>"

definition oneSkill :: "skillEntry list" where
  "oneSkill = [SkillString (js ''Python'')]"

definition describedResume :: resumeData where
  "describedResume = janeDoe \<lparr> educations := [describedEducation], skills := oneSkill \<rparr>"
section \<open>Properties of the text sanitizer\<close>

lemma isWhiteSpace_printable: "isWhiteSpace c \<Longrightarrow> isPrintableAscii c \<Longrightarrow> c = 0x20"
  by (auto simp: isWhiteSpace_def isPrintableAscii_def)

lemma isWhiteSpace_space [simp]: "isWhiteSpace 0x20"
  by (simp add: isWhiteSpace_def)

lemma collapseWs_hd:
  "s \<noteq> [] \<Longrightarrow> collapseWs s \<noteq> [] \<and> (isWhiteSpace (hd (collapseWs s)) \<longleftrightarrow> isWhiteSpace (hd s))"
  by (cases s) auto

lemma dropWhile_hd_not: "dropWhile P xs \<noteq> [] \<Longrightarrow> \<not> P (hd (dropWhile P xs))"
  by (metis hd_dropWhile)

lemma noWsRun_Cons:
  "noWsRun (c # s) \<longleftrightarrow> (s = [] \<or> (\<not> (isWhiteSpace c \<and> isWhiteSpace (hd s)) \<and> noWsRun s))"
  by (cases s) auto

lemma collapseWs_noWsRun: "noWsRun (collapseWs s)"
proof (induction s rule: collapseWs.induct)
  case 1
  show ?case by simp
next
  case (2 c cs)
  show ?case
  proof (cases "isWhiteSpace c")
    case True
    let ?r = "dropWhile isWhiteSpace cs"
    have ih: "noWsRun (collapseWs ?r)" using 2(1) True by simp
    show ?thesis
    proof (cases "?r = []")
      case True
      then have "collapseWs (c # cs) = [0x20]"
        using \<open>isWhiteSpace c\<close> by (simp del: dropWhile_eq_Nil_conv)
      then show ?thesis by simp
    next
      case False
      then have "\<not> isWhiteSpace (hd ?r)" by (rule dropWhile_hd_not)
      with False collapseWs_hd [of ?r] have "collapseWs ?r \<noteq> []" "\<not> isWhiteSpace (hd (collapseWs ?r))"
        by auto
      with ih \<open>isWhiteSpace c\<close> show ?thesis by (simp add: noWsRun_Cons)
    qed
  next
    case False
    then have ih: "noWsRun (collapseWs cs)" using 2(2) by simp
    with False show ?thesis by (simp add: noWsRun_Cons)
  qed
qed

lemma set_collapseWs: "set (collapseWs s) \<subseteq> insert 0x20 (set s)"
proof (induction s rule: collapseWs.induct)
  case 1
  show ?case by simp
next
  case (2 c cs)
  show ?case
  proof (cases "isWhiteSpace c")
    case True
    with 2(1) have "set (collapseWs (dropWhile isWhiteSpace cs)) \<subseteq> insert 0x20 (set (dropWhile isWhiteSpace cs))"
      by simp
    moreover have "set (dropWhile isWhiteSpace cs) \<subseteq> set cs" by (rule set_dropWhileD [THEN subsetI])
    ultimately show ?thesis using True by auto
  next
    case False
    with 2(2) show ?thesis by auto
  qed
qed

lemma collapseWs_id:
  "noWsRun s \<Longrightarrow> \<forall>c\<in>set s. isWhiteSpace c \<longrightarrow> c = 0x20 \<Longrightarrow> collapseWs s = s"
proof (induction s rule: noWsRun.induct)
  case 1
  show ?case by simp
next
  case (2 c)
  then show ?case by auto
next
  case (3 c d cs)
  then have ih: "collapseWs (d # cs) = d # cs" by simp
  show ?case
  proof (cases "isWhiteSpace c")
    case True
    with 3 have "c = 0x20" "\<not> isWhiteSpace d" by auto
    with True ih show ?thesis by simp
  next
    case False
    with ih show ?thesis by simp
  qed
qed

lemma noWsRun_dropWhile: "noWsRun s \<Longrightarrow> noWsRun (dropWhile P s)"
  by (induction s rule: noWsRun.induct) auto

lemma noWsRun_append_iff:
  "noWsRun (xs @ [a, b] ) \<longleftrightarrow> noWsRun (xs @ [a]) \<and> \<not> (isWhiteSpace a \<and> isWhiteSpace b)"
  by (induction xs rule: noWsRun.induct) auto

lemma noWsRun_rev: "noWsRun (rev s) = noWsRun s"
proof (induction s rule: noWsRun.induct)
  case (3 c d cs)
  have "noWsRun (rev (c # d # cs)) = noWsRun (rev cs @ [d, c])" by simp
  also have "\<dots> = (noWsRun (rev cs @ [d]) \<and> \<not> (isWhiteSpace d \<and> isWhiteSpace c))"
    by (rule noWsRun_append_iff)
  also have "\<dots> = (noWsRun (d # cs) \<and> \<not> (isWhiteSpace d \<and> isWhiteSpace c))"
    using 3 by simp
  finally show ?case by auto
qed simp_all

lemma noWsRun_trim: "noWsRun s \<Longrightarrow> noWsRun (trim s)"
  by (simp add: trim_def trimEnd_def trimStart_def noWsRun_rev noWsRun_dropWhile)

lemma set_trim: "set (trim s) \<subseteq> set s"
proof -
  have "set (trim s) \<subseteq> set (trimStart s)"
    unfolding trim_def trimEnd_def using set_dropWhileD [of _ isWhiteSpace "rev (trimStart s)"] by auto
  also have "\<dots> \<subseteq> set s"
    unfolding trimStart_def using set_dropWhileD [of _ isWhiteSpace s] by auto
  finally show ?thesis .
qed

lemma hd_rev_dropWhile_rev:
  "rev (dropWhile P (rev s)) \<noteq> [] \<Longrightarrow> s \<noteq> [] \<and> hd (rev (dropWhile P (rev s))) = hd s"
proof (induction s rule: rev_induct)
  case Nil
  then show ?case by simp
next
  case (snoc x xs)
  then show ?case by (cases xs) (auto split: if_splits)
qed

lemma noOuterWs_trim: "noOuterWs (trim s)"
proof (cases "trim s = []")
  case True
  then show ?thesis by (simp add: noOuterWs_def)
next
  case False
  let ?a = "dropWhile isWhiteSpace s"
  from False have ne: "rev (dropWhile isWhiteSpace (rev ?a)) \<noteq> []"
    by (simp add: trim_def trimEnd_def trimStart_def)
  then have "?a \<noteq> []" and h: "hd (trim s) = hd ?a"
    using hd_rev_dropWhile_rev [of isWhiteSpace ?a] by (auto simp: trim_def trimEnd_def trimStart_def)
  then have "\<not> isWhiteSpace (hd ?a)" by (simp add: dropWhile_hd_not)
  moreover have "\<not> isWhiteSpace (last (trim s))"
  proof -
    from ne have "dropWhile isWhiteSpace (rev ?a) \<noteq> []" by simp
    then have "\<not> isWhiteSpace (hd (dropWhile isWhiteSpace (rev ?a)))" by (rule dropWhile_hd_not)
    moreover have "last (trim s) = hd (dropWhile isWhiteSpace (rev ?a))"
      using ne by (simp add: trim_def trimEnd_def trimStart_def last_rev)
    ultimately show ?thesis by simp
  qed
  ultimately show ?thesis using h by (simp add: noOuterWs_def)
qed

lemma trim_id: "noOuterWs s \<Longrightarrow> trim s = s"
proof (cases "s = []")
  case True
  then show ?thesis by (simp add: trim_def trimEnd_def trimStart_def)
next
  case False
  assume "noOuterWs s"
  with False have a: "\<not> isWhiteSpace (hd s)" and b: "\<not> isWhiteSpace (last s)"
    by (auto simp: noOuterWs_def)
  from False a have "dropWhile isWhiteSpace s = s" by (cases s) auto
  moreover from False b have "dropWhile isWhiteSpace (rev s) = rev s"
    by (cases "rev s") (auto simp: last_rev [symmetric] simp del: last_rev)
  ultimately show ?thesis by (simp add: trim_def trimEnd_def trimStart_def)
qed


lemma clean_pipeline:
  assumes "\<forall>c\<in>set t. isPrintableAscii c \<and> \<not> isBulletOrDash c"
  shows "cleanOutput (trim (collapseWs t))"
proof -
  have "set (trim (collapseWs t)) \<subseteq> insert 0x20 (set t)"
    using set_trim [of "collapseWs t"] set_collapseWs [of t] by blast
  moreover have "isPrintableAscii 0x20 \<and> \<not> isBulletOrDash 0x20"
    by (simp add: isPrintableAscii_def isBulletOrDash_def)
  ultimately have "\<forall>c\<in>set (trim (collapseWs t)). isPrintableAscii c \<and> \<not> isBulletOrDash c"
    using assms by auto
  then show ?thesis
    by (simp add: cleanOutput_def noWsRun_trim collapseWs_noWsRun noOuterWs_trim)
qed

lemma clean_fixpoint:
  assumes "cleanOutput r"
  shows "filter isPrintableAscii r = r"
    and "filter (\<lambda>c. \<not> isBulletOrDash c) r = r"
    and "filter (\<lambda>c. \<not> isControl c) r = r"
    and "trim (collapseWs r) = r"
proof -
  from assms have a: "\<forall>c\<in>set r. isPrintableAscii c \<and> \<not> isBulletOrDash c"
    and b: "noWsRun r" and c: "noOuterWs r"
    by (simp_all add: cleanOutput_def)
  from a show "filter isPrintableAscii r = r" by (simp add: filter_id_conv)
  from a show "filter (\<lambda>c. \<not> isBulletOrDash c) r = r" by (simp add: filter_id_conv)
  from a have "\<forall>c\<in>set r. \<not> isControl c"
    by (auto simp: isPrintableAscii_def isControl_def)
  then show "filter (\<lambda>c. \<not> isControl c) r = r" by (simp add: filter_id_conv)
  from a have "\<forall>c\<in>set r. isWhiteSpace c \<longrightarrow> c = 0x20"
    using isWhiteSpace_printable by blast
  with b have "collapseWs r = r" by (rule collapseWs_id)
  with c show "trim (collapseWs r) = r" by (simp add: trim_id)
qed

lemma cleanOutput_Nil: "cleanOutput []"
  by (simp add: cleanOutput_def noOuterWs_def)

lemma cleanText_output: "cleanOutput (cleanText h v)"
proof (cases v)
  case (JStr str)
  show ?thesis
  proof (cases "str = []")
    case True
    with JStr show ?thesis by (simp add: cleanText_def cleanOutput_Nil)
  next
    case False
    let ?t = "filter (\<lambda>c. \<not> isControl c) (filter (\<lambda>c. \<not> isBulletOrDash c)
                (filter isPrintableAscii (normalizeNFKD h str)))"
    have "\<forall>c\<in>set ?t. isPrintableAscii c \<and> \<not> isBulletOrDash c" by simp
    then have "cleanOutput (trim (collapseWs ?t))" by (rule clean_pipeline)
    with JStr False show ?thesis by (simp add: cleanText_def)
  qed
qed (simp_all add: cleanText_def cleanOutput_Nil)

lemma cleanText2_output: "cleanOutput (cleanText2 v)"
proof (cases v)
  case (JStr str)
  show ?thesis
  proof (cases "str = []")
    case True
    with JStr show ?thesis by (simp add: cleanText2_def cleanOutput_Nil)
  next
    case False
    let ?t = "filter (\<lambda>c. \<not> isBulletOrDash c) (filter isPrintableAscii str)"
    have "\<forall>c\<in>set ?t. isPrintableAscii c \<and> \<not> isBulletOrDash c" by simp
    then have "cleanOutput (trim (collapseWs ?t))" by (rule clean_pipeline)
    with JStr False show ?thesis by (simp add: cleanText2_def)
  qed
qed (simp_all add: cleanText2_def cleanOutput_Nil)

lemma cleanText2_fix: "cleanOutput r \<Longrightarrow> cleanText2 (JStr r) = r"
  by (cases "r = []") (simp_all add: cleanText2_def clean_fixpoint)

lemma cleanText_fix:
  assumes "cleanOutput r" and "normalizeNFKD h r = r"
  shows "cleanText h (JStr r) = r"
  using assms by (cases "r = []") (simp_all add: cleanText_def clean_fixpoint)

lemma utcHost_nfkd_ascii: "\<forall>c\<in>set s. c < 128 \<Longrightarrow> normalizeNFKD utcHost s = s"
  by (induction s) (auto simp: utcHost_def nfkdUnit_def)

text \<open>
  C2. Sanitizing is idempotent, and a sanitized string holds only printable ASCII, no
  bullet or dash glyph, no run of two or more whitespace characters and no whitespace at
  either end. This holds for both exporters; for the one that normalises first, idempotence
  uses that NFKD leaves ASCII text alone. In particular the sanitized form of
  the accented word "Resume" followed by a bullet and "Summary" has no bullet glyph and no accented character.
\<close>

theorem clean_idempotent_ascii_only:
  "((\<forall>s. (\<forall>c\<in>set s. c < 128) \<longrightarrow> normalizeNFKD h s = s) \<longrightarrow>
      cleanText h (JStr (cleanText h x)) = cleanText h x)
   \<and> cleanText2 (JStr (cleanText2 x)) = cleanText2 x
   \<and> (\<forall>c\<in>set (cleanText h x). isPrintableAscii c \<and> \<not> isBulletOrDash c)
   \<and> (\<forall>c\<in>set (cleanText2 x). isPrintableAscii c \<and> \<not> isBulletOrDash c)
   \<and> noWsRun (cleanText h x) \<and> noOuterWs (cleanText h x)
   \<and> noWsRun (cleanText2 x) \<and> noOuterWs (cleanText2 x)"
proof -
  have o1: "cleanOutput (cleanText h x)" by (rule cleanText_output)
  have o2: "cleanOutput (cleanText2 x)" by (rule cleanText2_output)
  have "cleanText h (JStr (cleanText h x)) = cleanText h x"
    if nf: "\<forall>s. (\<forall>c\<in>set s. c < 128) \<longrightarrow> normalizeNFKD h s = s"
  proof -
    from o1 have "\<forall>c\<in>set (cleanText h x). c < 128"
      by (auto simp: cleanOutput_def isPrintableAscii_def)
    with nf have "normalizeNFKD h (cleanText h x) = cleanText h x" by blast
    with o1 show ?thesis by (rule cleanText_fix)
  qed
  moreover have "cleanText2 (JStr (cleanText2 x)) = cleanText2 x"
    using o2 by (rule cleanText2_fix)
  ultimately show ?thesis using o1 o2 by (simp add: cleanOutput_def)
qed

theorem clean_idempotent_ascii_only_witness:
  "cleanText utcHost (JStr (cleanText utcHost
       (JStr ([0x52, 0xE9, 0x73, 0x75, 0x6D, 0xE9, 0x20, 0x2022, 0x20] @ js ''Summary''))))
     = js ''Resume Summary''
   \<and> cleanText utcHost (JStr ([0x52, 0xE9, 0x73, 0x75, 0x6D, 0xE9, 0x20, 0x2022, 0x20] @ js ''Summary''))
     = js ''Resume Summary''
   \<and> cleanText2 (JStr (cleanText2
       (JStr ([0x52, 0xE9, 0x73, 0x75, 0x6D, 0xE9, 0x20, 0x2022, 0x20] @ js ''Summary''))))
     = js ''Rsum Summary''
   \<and> list_all isPrintableAscii (js ''Resume Summary'')
   \<and> list_all (\<lambda>c. \<not> isBulletOrDash c) (js ''Rsum Summary'')
   \<and> noWsRun (js ''Resume Summary'') \<and> noOuterWs (js ''Rsum Summary'')"
proof -
  let ?x = "JStr ([0x52, 0xE9, 0x73, 0x75, 0x6D, 0xE9, 0x20, 0x2022, 0x20] @ js ''Summary'')"
  have nf: "\<forall>s. (\<forall>c\<in>set s. c < 128) \<longrightarrow> normalizeNFKD utcHost s = s"
    using utcHost_nfkd_ascii by blast
  have e1: "cleanText utcHost ?x = js ''Resume Summary''"
    by (simp add: cleanText_def utcHost_def nfkdUnit_def js_def trim_def trimStart_def
        trimEnd_def isWhiteSpace_def isPrintableAscii_def isBulletOrDash_def isControl_def)
  have e2: "cleanText2 ?x = js ''Rsum Summary''"
    by (simp add: cleanText2_def js_def trim_def trimStart_def
        trimEnd_def isWhiteSpace_def isPrintableAscii_def isBulletOrDash_def)
  note t = clean_idempotent_ascii_only [of utcHost ?x]
  from t nf have i1: "cleanText utcHost (JStr (cleanText utcHost ?x)) = cleanText utcHost ?x"
    by blast
  from t have i2: "cleanText2 (JStr (cleanText2 ?x)) = cleanText2 ?x"
    by blast
  from t have p1: "\<forall>c\<in>set (cleanText utcHost ?x). isPrintableAscii c \<and> \<not> isBulletOrDash c"
    and p2: "\<forall>c\<in>set (cleanText2 ?x). isPrintableAscii c \<and> \<not> isBulletOrDash c"
    and w1: "noWsRun (cleanText utcHost ?x)" and w2: "noOuterWs (cleanText2 ?x)"
    by blast+
  from p1 have "list_all isPrintableAscii (js ''Resume Summary'')"
    unfolding e1 by (simp add: list_all_iff)
  moreover from p2 have "list_all (\<lambda>c. \<not> isBulletOrDash c) (js ''Rsum Summary'')"
    unfolding e2 by (simp add: list_all_iff)
  ultimately show ?thesis
    using i1 i2 w1 w2 unfolding e1 e2 by simp
qed

text \<open>
  C10. The sanitizer is total: on a value that is not a string (null, undefined, a number,
  an object, an array) and on the empty string it returns the empty string.
\<close>

theorem cleanText_total_non_string:
  "typeof v \<noteq> TString \<or> v = JStr [] \<Longrightarrow> cleanText h v = [] \<and> cleanText2 v = []"
  by (cases v) (auto simp: cleanText_def cleanText2_def)

theorem cleanText_total_non_string_witness:
  "cleanText utcHost JNull = [] \<and> cleanText2 JNull = []
   \<and> cleanText utcHost JUndefined = [] \<and> cleanText2 JUndefined = []
   \<and> cleanText utcHost (JNum 42) = [] \<and> cleanText2 (JNum 42) = []
   \<and> cleanText utcHost JObject = [] \<and> cleanText2 JObject = []
   \<and> cleanText utcHost (JArray [JStr (js ''x'')]) = [] \<and> cleanText2 (JArray [JStr (js ''x'')]) = []
   \<and> cleanText utcHost (JStr []) = [] \<and> cleanText2 (JStr []) = []"
  using cleanText_total_non_string [of JNull utcHost]
    cleanText_total_non_string [of JUndefined utcHost]
    cleanText_total_non_string [of "JNum 42" utcHost]
    cleanText_total_non_string [of JObject utcHost]
    cleanText_total_non_string [of "JArray [JStr (js ''x'')]" utcHost]
    cleanText_total_non_string [of "JStr []" utcHost]
  by simp

section \<open>The matcher decides the language of a pattern\<close>

lemma concI: "u \<in> A \<Longrightarrow> v \<in> B \<Longrightarrow> u @ v \<in> conc A B"
  by (auto simp: conc_def)

lemma concE: "w \<in> conc A B \<Longrightarrow> (\<And>u v. w = u @ v \<Longrightarrow> u \<in> A \<Longrightarrow> v \<in> B \<Longrightarrow> thesis) \<Longrightarrow> thesis"
  by (auto simp: conc_def)

lemma nullable_lang: "nullable r \<longleftrightarrow> [] \<in> lang r"
  by (induction r) (auto simp: conc_def intro: star.intros)

lemma lang_alt [simp]: "lang (alt r s) = lang r \<union> lang s"
  by (induction r s rule: alt.induct) auto

lemma lang_seq [simp]: "lang (seq r s) = lang (RSeq r s)"
  by (induction r s rule: seq.induct) (auto simp: conc_def)

lemma star_cons:
  "c # w \<in> star A \<longleftrightarrow> (\<exists>u v. w = u @ v \<and> c # u \<in> A \<and> v \<in> star A)"
proof
  assume "c # w \<in> star A"
  then show "\<exists>u v. w = u @ v \<and> c # u \<in> A \<and> v \<in> star A"
  proof (induction "c # w" arbitrary: w rule: star.induct)
    case (star_more u v)
    show ?case
    proof (cases u)
      case Nil
      with star_more show ?thesis by simp
    next
      case (Cons d u')
      with star_more.hyps show ?thesis by auto
    qed
  qed
next
  assume "\<exists>u v. w = u @ v \<and> c # u \<in> A \<and> v \<in> star A"
  then obtain u v where "w = u @ v" "c # u \<in> A" "v \<in> star A" by blast
  then show "c # w \<in> star A"
    using star.star_more [of "c # u" A v] by simp
qed

lemma lang_deriv: "lang (deriv c r) = {w. c # w \<in> lang r}"
proof (induction r)
  case (RSeq r s)
  have "{w. c # w \<in> lang (RSeq r s)}
      = conc {u. c # u \<in> lang r} (lang s) \<union> (if [] \<in> lang r then {w. c # w \<in> lang s} else {})"
    by (auto simp: conc_def Cons_eq_append_conv)
  with RSeq show ?case
    by (auto simp: nullable_lang)
next
  case (RStar r)
  then show ?case
    by (auto simp: star_cons conc_def)
qed auto

lemma fullMatch_lang: "fullMatch r w \<longleftrightarrow> w \<in> lang r"
  by (induction w arbitrary: r) (simp_all add: nullable_lang lang_deriv)


lemma star_atoms: "star {[c] | c. P c} = {w. \<forall>c\<in>set w. P c}"
proof (intro set_eqI iffI)
  fix w
  assume "w \<in> star {[c] | c. P c}"
  then show "w \<in> {w. \<forall>c\<in>set w. P c}"
    by (induction rule: star.induct) auto
next
  fix w
  assume "w \<in> {w. \<forall>c\<in>set w. P c}"
  then show "w \<in> star {[c] | c. P c}"
  proof (induction w)
    case Nil
    show ?case by (rule star.star_empty)
  next
    case (Cons c w)
    then have "[c] \<in> {[c] | c. P c}" and "w \<in> star {[c] | c. P c}" by auto
    then have "[c] @ w \<in> star {[c] | c. P c}" by (rule star.star_more)
    then show ?case by simp
  qed
qed

lemma lang_plus_atom: "lang (RPlus (RAtom P)) = {w. w \<noteq> [] \<and> (\<forall>c\<in>set w. P c)}"
proof (intro set_eqI iffI)
  fix w
  assume "w \<in> lang (RPlus (RAtom P))"
  then obtain c v where "w = [c] @ v" "P c" "v \<in> star {[c] | c. P c}"
    by (auto simp: RPlus_def conc_def)
  then show "w \<in> {w. w \<noteq> [] \<and> (\<forall>c\<in>set w. P c)}"
    by (simp add: star_atoms)
next
  fix w
  assume "w \<in> {w. w \<noteq> [] \<and> (\<forall>c\<in>set w. P c)}"
  then obtain c v where w: "w = c # v" and "P c" and "\<forall>d\<in>set v. P d"
    by (cases w) auto
  then have "[c] \<in> lang (RAtom P)" and "v \<in> lang (RStar (RAtom P))"
    by (simp_all add: star_atoms)
  then have "[c] @ v \<in> lang (RSeq (RAtom P) (RStar (RAtom P)))"
    unfolding lang.simps(5) by (rule concI)
  then show "w \<in> lang (RPlus (RAtom P))"
    by (simp add: w RPlus_def)
qed

text \<open>
  The shape that \<open>isValidEmail\<close> accepts: a local part, an at sign, a domain, a dot and a
  last part, each non-empty and free of whitespace and at signs.
\<close>

lemma isValidEmail_shape:
  "isValidEmail s \<longleftrightarrow>
     (\<exists>l d t. s = l @ [0x40] @ d @ [0x2E] @ t \<and> l \<noteq> [] \<and> d \<noteq> [] \<and> t \<noteq> []
        \<and> (\<forall>c\<in>set (l @ d @ t). \<not> isWhiteSpace c \<and> c \<noteq> 0x40))"
proof -
  let ?P = "\<lambda>c. \<not> isWhiteSpace c \<and> c \<noteq> 0x40"
  define part where "part = {w. w \<noteq> [] \<and> (\<forall>c\<in>set w. ?P c)}"
  define atSign where "atSign = {[c] | c::nat. c = 0x40}"
  define dot where "dot = {[c] | c::nat. c = 0x2E}"
  have l: "lang emailRegex = conc part (conc atSign (conc part (conc dot part)))"
    unfolding emailRegex_def Let_def lang.simps lang_plus_atom part_def atSign_def dot_def ..
  show ?thesis
  proof
    assume "isValidEmail s"
    then have "s \<in> conc part (conc atSign (conc part (conc dot part)))"
      by (simp add: isValidEmail_def fullMatch_lang l)
    then obtain a x1 where 1: "s = a @ x1" "a \<in> part" "x1 \<in> conc atSign (conc part (conc dot part))"
      by (rule concE)
    from 1(3) obtain b x2 where 2: "x1 = b @ x2" "b \<in> atSign" "x2 \<in> conc part (conc dot part)"
      by (rule concE)
    from 2(3) obtain d x3 where 3: "x2 = d @ x3" "d \<in> part" "x3 \<in> conc dot part"
      by (rule concE)
    from 3(3) obtain e t where 4: "x3 = e @ t" "e \<in> dot" "t \<in> part"
      by (rule concE)
    from 2(2) 4(2) have "b = [0x40]" "e = [0x2E]"
      by (simp_all add: atSign_def dot_def)
    with 1 2 3 4 have "s = a @ [0x40] @ d @ [0x2E] @ t" "a \<noteq> []" "d \<noteq> []" "t \<noteq> []"
      "\<forall>c\<in>set (a @ d @ t). ?P c"
      by (auto simp: part_def)
    then show "\<exists>l d t. s = l @ [0x40] @ d @ [0x2E] @ t \<and> l \<noteq> [] \<and> d \<noteq> [] \<and> t \<noteq> []
        \<and> (\<forall>c\<in>set (l @ d @ t). \<not> isWhiteSpace c \<and> c \<noteq> 0x40)"
      by blast
  next
    assume "\<exists>l d t. s = l @ [0x40] @ d @ [0x2E] @ t \<and> l \<noteq> [] \<and> d \<noteq> [] \<and> t \<noteq> []
        \<and> (\<forall>c\<in>set (l @ d @ t). \<not> isWhiteSpace c \<and> c \<noteq> 0x40)"
    then obtain a d t where s: "s = a @ [0x40] @ d @ [0x2E] @ t"
      and p: "a \<in> part" "d \<in> part" "t \<in> part"
      by (auto simp: part_def)
    have "[0x40] \<in> atSign" and "[0x2E] \<in> dot"
      by (simp_all add: atSign_def dot_def)
    then have "a @ [0x40] @ d @ [0x2E] @ t \<in> conc part (conc atSign (conc part (conc dot part)))"
      using p by (intro concI)
    then show "isValidEmail s"
      by (simp add: isValidEmail_def fullMatch_lang l s)
  qed
qed

lemma lang_RAny: "lang RAny = UNIV"
  using star_atoms [of "\<lambda>c. True"] by (simp add: RAny_def)

lemma testAnywhere_iff: "testAnywhere r s \<longleftrightarrow> (\<exists>u v w. s = u @ v @ w \<and> v \<in> lang r)"
  by (auto simp: testAnywhere_def fullMatch_lang lang_RAny conc_def)

lemma testPrefix_iff: "testPrefix r s \<longleftrightarrow> (\<exists>v w. s = v @ w \<and> v \<in> lang r)"
  by (auto simp: testPrefix_def fullMatch_lang lang_RAny conc_def)

lemma testSuffix_iff: "testSuffix r s \<longleftrightarrow> (\<exists>u v. s = u @ v \<and> v \<in> lang r)"
  by (auto simp: testSuffix_def fullMatch_lang lang_RAny conc_def)

section \<open>Properties of the reference validators\<close>

lemma isValidName_iff:
  "isValidName n \<longleftrightarrow> 1 < length n \<and> length n < 100 \<and> (\<exists>c\<in>set n. isLetter c)"
  by (simp add: isValidName_def list_ex_iff)

lemma truthyS_iff: "truthyS f \<longleftrightarrow> (\<exists>s. f = Some s \<and> s \<noteq> [])"
  by (cases f) (simp_all add: truthyS_def)

lemma cleanField_cases:
  "cleanField h f =
     (case f of None \<Rightarrow> None | Some s \<Rightarrow> if s = [] then Some [] else Some (cleanText h (JStr s)))"
  by (cases f) (simp_all add: cleanField_def truthyS_def)

lemmas eval_text = js_def trim_def trimStart_def trimEnd_def isWhiteSpace_def
  isPrintableAscii_def isBulletOrDash_def isControl_def

lemmas eval_rx = RPlus_def RAny_def testSuffix_def testPrefix_def testAnywhere_def
  isUpper_def isLower_def isLetter_def upperUnit_def lowerUnit_def Let_def

text \<open>
  C7. \<open>validateReference\<close> keeps a name whose sanitized form has a length strictly
  between 1 and 100 and holds a letter, and replaces every other name (missing, empty or
  invalid) with the placeholder "Reference Name Not Provided"; it clears an email whose
  sanitized form fails the shape match of \<open>isValidEmail\<close> and keeps every other email;
  title, company, relationship and phone are replaced by their sanitized forms (a missing
  or empty field stays as it is).
\<close>

theorem validateReference_fields:
  "(\<forall>n. ref_name r = Some n \<and> n \<noteq> [] \<and> 1 < length (cleanText h (JStr n))
        \<and> length (cleanText h (JStr n)) < 100 \<and> (\<exists>c\<in>set (cleanText h (JStr n)). isLetter c)
        \<longrightarrow> ref_name (validateReference h r) = Some n)
   \<and> ((ref_name r = None \<or> ref_name r = Some []
        \<or> (\<exists>n. ref_name r = Some n
              \<and> \<not> (1 < length (cleanText h (JStr n)) \<and> length (cleanText h (JStr n)) < 100
                     \<and> (\<exists>c\<in>set (cleanText h (JStr n)). isLetter c))))
       \<longrightarrow> ref_name (validateReference h r) = Some placeholderName)
   \<and> (\<forall>e. ref_email r = Some e \<and> e \<noteq> [] \<and> \<not> isValidEmail (cleanText h (JStr e))
        \<longrightarrow> ref_email (validateReference h r) = None)
   \<and> ((ref_email r = None \<or> ref_email r = Some []
        \<or> (\<exists>e. ref_email r = Some e \<and> isValidEmail (cleanText h (JStr e))))
       \<longrightarrow> ref_email (validateReference h r) = ref_email r)
   \<and> ref_title (validateReference h r) =
       (case ref_title r of None \<Rightarrow> None
        | Some s \<Rightarrow> if s = [] then Some [] else Some (cleanText h (JStr s)))
   \<and> ref_company (validateReference h r) =
       (case ref_company r of None \<Rightarrow> None
        | Some s \<Rightarrow> if s = [] then Some [] else Some (cleanText h (JStr s)))
   \<and> ref_relationship (validateReference h r) =
       (case ref_relationship r of None \<Rightarrow> None
        | Some s \<Rightarrow> if s = [] then Some [] else Some (cleanText h (JStr s)))
   \<and> ref_phone (validateReference h r) =
       (case ref_phone r of None \<Rightarrow> None
        | Some s \<Rightarrow> if s = [] then Some [] else Some (cleanText h (JStr s)))"
  by (auto simp: validateReference_def isValidName_iff truthyS_iff cleanField_cases
           split: option.splits)

theorem validateReference_fields_witness:
  "ref_name (validateReference utcHost (emptyReference \<lparr> ref_name := Some [] \<rparr>))
     = Some (js ''Reference Name Not Provided'')
   \<and> ref_email (validateReference utcHost
        (emptyReference \<lparr> ref_email := Some (js ''not-an-email'') \<rparr>)) = None
   \<and> ref_name (validateReference utcHost
        (emptyReference \<lparr> ref_name := Some (js ''Jane Doe''),
                          ref_email := Some (js ''jane@example.com'') \<rparr>)) = Some (js ''Jane Doe'')
   \<and> ref_email (validateReference utcHost
        (emptyReference \<lparr> ref_name := Some (js ''Jane Doe''),
                          ref_email := Some (js ''jane@example.com'') \<rparr>))
     = Some (js ''jane@example.com'')
   \<and> ref_title (validateReference utcHost
        (emptyReference \<lparr> ref_title := Some (js ''CTO  -  Acme '') \<rparr>)) = Some (js ''CTO Acme'')"
proof -
  let ?r1 = "emptyReference \<lparr> ref_name := Some [] \<rparr>"
  let ?r2 = "emptyReference \<lparr> ref_email := Some (js ''not-an-email'') \<rparr>"
  let ?r3 = "emptyReference \<lparr> ref_name := Some (js ''Jane Doe''),
                              ref_email := Some (js ''jane@example.com'') \<rparr>"
  let ?r4 = "emptyReference \<lparr> ref_title := Some (js ''CTO  -  Acme '') \<rparr>"
  have c1: "cleanText utcHost (JStr (js ''not-an-email'')) = js ''notanemail''"
    by (simp add: cleanText_def utcHost_def nfkdUnit_def eval_text)
  have c2: "cleanText utcHost (JStr (js ''Jane Doe'')) = js ''Jane Doe''"
    by (simp add: cleanText_def utcHost_def nfkdUnit_def eval_text)
  have c3: "cleanText utcHost (JStr (js ''jane@example.com'')) = js ''jane@example.com''"
    by (simp add: cleanText_def utcHost_def nfkdUnit_def eval_text)
  have c4: "cleanText utcHost (JStr (js ''CTO  -  Acme '')) = js ''CTO Acme''"
    by (simp add: cleanText_def utcHost_def nfkdUnit_def eval_text)
  have v1: "\<not> isValidEmail (js ''notanemail'')"
    by (simp add: isValidEmail_def emailRegex_def eval_rx js_def isWhiteSpace_def)
  have v3: "isValidEmail (js ''jane@example.com'')"
    by (simp add: isValidEmail_def emailRegex_def eval_rx js_def isWhiteSpace_def)
  have n3: "\<exists>c\<in>set (js ''Jane Doe''). isLetter c"
    by (simp add: js_def isLetter_def isUpper_def isLower_def)
  have "ref_name (validateReference utcHost ?r1) = Some placeholderName"
    using validateReference_fields [of ?r1 utcHost] by (simp add: emptyReference_def)
  moreover have "ref_email (validateReference utcHost ?r2) = None"
    using validateReference_fields [of ?r2 utcHost] c1 v1
    by (simp add: emptyReference_def js_def)
  moreover have "ref_name (validateReference utcHost ?r3) = Some (js ''Jane Doe'')"
    using validateReference_fields [of ?r3 utcHost] c2 n3
    by (simp add: emptyReference_def js_def)
  moreover have "ref_email (validateReference utcHost ?r3) = Some (js ''jane@example.com'')"
    using validateReference_fields [of ?r3 utcHost] c3 v3
    by (simp add: emptyReference_def)
  moreover have "ref_title (validateReference utcHost ?r4) = Some (js ''CTO Acme'')"
    using validateReference_fields [of ?r4 utcHost] c4
    by (simp add: emptyReference_def js_def)
  ultimately show ?thesis by (simp add: placeholderName_def)
qed

text \<open>
  The validity tests read the sanitized form, and the name and the email that pass are
  kept as they were written. So the verdict can differ from that of the written value: the
  name "X-" is valid as written and is replaced (its sanitized form "X" is too short), the
  email " a@b.c" does not match as written and is kept (its sanitized form "a@b.c"
  matches), and the email "-@b.c" matches as written and is cleared.
\<close>

theorem validateReference_judges_sanitized_form:
  "isValidName (js ''X-'')
   \<and> ref_name (validateReference utcHost (emptyReference \<lparr> ref_name := Some (js ''X-'') \<rparr>))
       = Some (js ''Reference Name Not Provided'')
   \<and> \<not> isValidEmail (js '' a@b.c'')
   \<and> ref_email (validateReference utcHost (emptyReference \<lparr> ref_email := Some (js '' a@b.c'') \<rparr>))
       = Some (js '' a@b.c'')
   \<and> isValidEmail (js ''-@b.c'')
   \<and> ref_email (validateReference utcHost (emptyReference \<lparr> ref_email := Some (js ''-@b.c'') \<rparr>))
       = None"
proof -
  have c1: "cleanText utcHost (JStr (js ''X-'')) = js ''X''"
    by (simp add: cleanText_def utcHost_def nfkdUnit_def eval_text)
  have c2: "cleanText utcHost (JStr (js '' a@b.c'')) = js ''a@b.c''"
    by (simp add: cleanText_def utcHost_def nfkdUnit_def eval_text)
  have c3: "cleanText utcHost (JStr (js ''-@b.c'')) = js ''@b.c''"
    by (simp add: cleanText_def utcHost_def nfkdUnit_def eval_text)
  have n1: "isValidName (js ''X-'')" "\<not> isValidName (js ''X'')"
    by (simp_all add: isValidName_def js_def isLetter_def isUpper_def isLower_def)
  have e2: "\<not> isValidEmail (js '' a@b.c'')" "isValidEmail (js ''a@b.c'')"
    by (simp_all add: isValidEmail_def emailRegex_def eval_rx js_def isWhiteSpace_def)
  have e3: "isValidEmail (js ''-@b.c'')" "\<not> isValidEmail (js ''@b.c'')"
    by (simp_all add: isValidEmail_def emailRegex_def eval_rx js_def isWhiteSpace_def)
  have ne: "js ''-@b.c'' \<noteq> []"
    by (simp add: js_def)
  have "ref_name (validateReference utcHost (emptyReference \<lparr> ref_name := Some (js ''X-'') \<rparr>))
       = Some (js ''Reference Name Not Provided'')"
    using c1 n1 by (simp add: validateReference_def emptyReference_def truthyS_def placeholderName_def)
  moreover have "ref_email (validateReference utcHost (emptyReference \<lparr> ref_email := Some (js '' a@b.c'') \<rparr>))
       = Some (js '' a@b.c'')"
    using c2 e2 by (simp add: validateReference_def emptyReference_def truthyS_def)
  moreover have "ref_email (validateReference utcHost (emptyReference \<lparr> ref_email := Some (js ''-@b.c'') \<rparr>))
       = None"
    using c3 e3 ne by (simp add: validateReference_def emptyReference_def truthyS_def)
  ultimately show ?thesis using n1 e2 e3 by simp
qed
section \<open>Properties of the skills filter\<close>

lemma trim_js_AI: "trim (js ''AI'') = js ''AI''"
  by (simp add: eval_text)

lemma isValidSkill_short: "length (trim s) < 3 \<Longrightarrow> \<not> isValidSkill h s"
  by (simp add: isValidSkill_def Let_def)

lemma isValidSkill_stoplist: "toLowerCase h (trim s) \<in> set excludeWords \<Longrightarrow> \<not> isValidSkill h s"
  by (simp add: isValidSkill_def Let_def)

lemma isValidSkill_otherwise:
  "3 \<le> length (trim s) \<Longrightarrow> toLowerCase h (trim s) \<notin> set excludeWords \<Longrightarrow>
   isValidSkill h s \<longleftrightarrow> isTechnical (trim s) \<or> isCapitalized (trim s) \<or> 4 < length (trim s)"
  by (simp add: isValidSkill_def Let_def)

lemma cleanText_ascii_word:
  assumes nf: "\<forall>s. (\<forall>c\<in>set s. c < 128) \<longrightarrow> normalizeNFKD h s = s"
    and w: "list_all (\<lambda>c. isLetter c) s" and ne: "s \<noteq> []"
  shows "cleanText h (JStr s) = s"
proof -
  from w have a: "\<forall>c\<in>set s. isLetter c" by (simp add: list_all_iff)
  then have "\<forall>c\<in>set s. c < 128"
    by (auto simp: isLetter_def isUpper_def isLower_def)
  with nf have n: "normalizeNFKD h s = s" by blast
  from a have p: "\<forall>c\<in>set s. isPrintableAscii c \<and> \<not> isBulletOrDash c \<and> \<not> isWhiteSpace c"
    by (auto simp: isLetter_def isUpper_def isLower_def isPrintableAscii_def isBulletOrDash_def
        isWhiteSpace_def)
  have "noWsRun s" using p by (induction s rule: noWsRun.induct) auto
  moreover have "noOuterWs s" using p ne by (simp add: noOuterWs_def)
  ultimately have "cleanOutput s" using p by (simp add: cleanOutput_def)
  then show ?thesis using n by (rule cleanText_fix)
qed

lemma toLowerCase_ascii:
  "\<forall>c\<in>set s. c < 128 \<Longrightarrow> toLowerCase h s = map lowerUnit s"
  by (induction s) (simp_all add: toLowerCase_def)

lemma toUpperCase_ascii:
  "\<forall>c\<in>set s. c < 128 \<Longrightarrow> toUpperCase h s = map upperUnit s"
  by (induction s) (simp_all add: toUpperCase_def)

lemma skillsArray_sample:
  assumes nf: "\<forall>s. (\<forall>c\<in>set s. c < 128) \<longrightarrow> normalizeNFKD h s = s"
  shows "skillsArray h skillsSample = [js ''JavaScript'']"
proof -
  have c: "cleanText h (JStr (js w)) = js w"
    if "list_all isLetter (js w)" "js w \<noteq> []" for w
    using nf that by (rule cleanText_ascii_word)
  have c1: "cleanText h (JStr (js ''AI'')) = js ''AI''"
    by (rule c) (simp_all add: js_def isLetter_def isUpper_def isLower_def)
  have c2: "cleanText h (JStr (js ''to'')) = js ''to''"
    by (rule c) (simp_all add: js_def isLetter_def isUpper_def isLower_def)
  have c3: "cleanText h (JStr (js ''a'')) = js ''a''"
    by (rule c) (simp_all add: js_def isLetter_def isUpper_def isLower_def)
  have c4: "cleanText h (JStr (js ''early'')) = js ''early''"
    by (rule c) (simp_all add: js_def isLetter_def isUpper_def isLower_def)
  have c5: "cleanText h (JStr (js ''JavaScript'')) = js ''JavaScript''"
    by (rule c) (simp_all add: js_def isLetter_def isUpper_def isLower_def)
  have v1: "\<not> isValidSkill h (js ''AI'')"
    by (rule isValidSkill_short) (simp add: eval_text)
  have v2: "\<not> isValidSkill h (js ''to'')"
    by (rule isValidSkill_short) (simp add: eval_text)
  have v3: "\<not> isValidSkill h (js ''a'')"
    by (rule isValidSkill_short) (simp add: eval_text)
  have t4: "trim (js ''early'') = js ''early''"
    by (simp add: eval_text)
  have "toLowerCase h (js ''early'') = map lowerUnit (js ''early'')"
    by (rule toLowerCase_ascii) (simp add: js_def)
  then have l4: "toLowerCase h (js ''early'') = js ''early''"
    by (simp add: js_def lowerUnit_def isUpper_def)
  have v4: "\<not> isValidSkill h (js ''early'')"
    by (rule isValidSkill_stoplist) (simp add: t4 l4 excludeWords_def)
  have t5: "trim (js ''JavaScript'') = js ''JavaScript''"
    by (simp add: eval_text)
  have "toLowerCase h (js ''JavaScript'') = map lowerUnit (js ''JavaScript'')"
    by (rule toLowerCase_ascii) (simp add: js_def)
  then have l5: "toLowerCase h (js ''JavaScript'') = js ''javascript''"
    by (simp add: js_def lowerUnit_def isUpper_def)
  have x5: "js ''javascript'' \<notin> set excludeWords"
    by (simp add: excludeWords_def js_def)
  have k5: "isCapitalized (js ''JavaScript'')"
    by (simp add: isCapitalized_def js_def isUpper_def)
  have v5: "isValidSkill h (js ''JavaScript'')"
    using isValidSkill_otherwise [of "js ''JavaScript''" h] x5 k5
    by (simp add: t5 l5) (simp add: js_def)
  have "toUpperCase h (take 1 (js ''JavaScript'')) = map upperUnit (take 1 (js ''JavaScript''))"
    by (rule toUpperCase_ascii) (simp add: js_def)
  then have u5: "capitalize h (js ''JavaScript'') = js ''JavaScript''"
    by (simp add: capitalize_def js_def upperUnit_def isLower_def)
  have ne: "js ''AI'' \<noteq> []" "js ''to'' \<noteq> []" "js ''a'' \<noteq> []" "js ''early'' \<noteq> []"
    "js ''JavaScript'' \<noteq> []"
    by (simp_all add: js_def)
  show "skillsArray h skillsSample = [js ''JavaScript'']"
    by (simp add: skillsArray_def skillsSample_def c1 c2 c3 c4 c5 v1 v2 v3 v4 v5 u5 ne sortBy_def)
qed

text \<open>
  C4, as the code has it. For the skills "AI", "to", "a", "early", "JavaScript" the filtered,
  capitalized and sorted list is exactly "JavaScript": "to", "a" and "early" are dropped,
  and so is "AI", which is shorter than 3 characters. The filter discards a token shorter
  than 3 characters and a token of the stoplist, and otherwise accepts a token that looks
  technical, starts with a capital letter or is longer than 4 characters. (The host's NFKD
  leaves ASCII text alone.)
\<close>

theorem skills_filter_sample:
  "(\<forall>s. (\<forall>c\<in>set s. c < 128) \<longrightarrow> normalizeNFKD h s = s) \<longrightarrow>
     skillsArray h skillsSample = [js ''JavaScript'']
       \<and> (length (trim s) < 3 \<longrightarrow> \<not> isValidSkill h s)
       \<and> (toLowerCase h (trim s) \<in> set excludeWords \<longrightarrow> \<not> isValidSkill h s)
       \<and> (3 \<le> length (trim s) \<and> toLowerCase h (trim s) \<notin> set excludeWords \<longrightarrow>
           (isValidSkill h s \<longleftrightarrow>
              isTechnical (trim s) \<or> isCapitalized (trim s) \<or> 4 < length (trim s)))"
  using skillsArray_sample [of h] isValidSkill_short [of s h] isValidSkill_stoplist [of h s]
    isValidSkill_otherwise [of s h]
  by blast

theorem skills_filter_sample_witness:
  "skillsArray utcHost skillsSample = [js ''JavaScript'']
   \<and> \<not> isValidSkill utcHost (js ''AI'')
   \<and> \<not> isValidSkill utcHost (js '' early '')
   \<and> isValidSkill utcHost (js ''React'')
   \<and> isValidSkill utcHost (js ''mysql'')
   \<and> isValidSkill utcHost (js ''agile'')
   \<and> \<not> isValidSkill utcHost (js ''rust'')"
proof -
  have nf: "\<forall>s. (\<forall>c\<in>set s. c < 128) \<longrightarrow> normalizeNFKD utcHost s = s"
    using utcHost_nfkd_ascii by blast
  have lower: "toLowerCase utcHost s = map lowerUnit s" if "list_all (\<lambda>c. c < 128) s" for s
    using that by (intro toLowerCase_ascii) (simp add: list_all_iff)
  have t1: "trim (js ''AI'') = js ''AI''" and t2: "trim (js '' early '') = js ''early''"
    and t3: "trim (js ''React'') = js ''React''" and t4: "trim (js ''mysql'') = js ''mysql''"
    and t5: "trim (js ''agile'') = js ''agile''" and t6: "trim (js ''rust'') = js ''rust''"
    by (simp_all add: eval_text)
  have l2: "toLowerCase utcHost (js ''early'') = js ''early''"
    and l3: "toLowerCase utcHost (js ''React'') = js ''react''"
    and l4: "toLowerCase utcHost (js ''mysql'') = js ''mysql''"
    and l5: "toLowerCase utcHost (js ''agile'') = js ''agile''"
    and l6: "toLowerCase utcHost (js ''rust'') = js ''rust''"
    by (simp_all add: lower js_def lowerUnit_def isUpper_def)
  have x: "js ''early'' \<in> set excludeWords" "js ''react'' \<notin> set excludeWords"
    "js ''mysql'' \<notin> set excludeWords" "js ''agile'' \<notin> set excludeWords"
    "js ''rust'' \<notin> set excludeWords"
    by (simp_all add: excludeWords_def js_def)
  have k: "isCapitalized (js ''React'')" "\<not> isCapitalized (js ''rust'')"
    by (simp_all add: isCapitalized_def js_def isUpper_def)
  have tech: "isTechnical (js ''mysql'')" "\<not> isTechnical (js ''rust'')"
    by (simp_all add: isTechnical_def technicalPatterns_def eval_rx js_def)
  have len: "length (js ''AI'') = 2" "length (js ''React'') = 5" "length (js ''mysql'') = 5"
    "length (js ''agile'') = 5" "length (js ''rust'') = 4"
    by (simp_all add: js_def)
  have "skillsArray utcHost skillsSample = [js ''JavaScript'']"
    using skills_filter_sample [of utcHost "js ''AI''"] nf by blast
  moreover have "\<not> isValidSkill utcHost (js ''AI'')"
    using skills_filter_sample [of utcHost "js ''AI''"] nf t1 len by simp
  moreover have "\<not> isValidSkill utcHost (js '' early '')"
    using skills_filter_sample [of utcHost "js '' early ''"] nf t2 l2 x by simp
  moreover have "isValidSkill utcHost (js ''React'')"
    using skills_filter_sample [of utcHost "js ''React''"] nf t3 l3 x k len by simp
  moreover have "isValidSkill utcHost (js ''mysql'')"
    using skills_filter_sample [of utcHost "js ''mysql''"] nf t4 l4 x tech len by simp
  moreover have "isValidSkill utcHost (js ''agile'')"
    using skills_filter_sample [of utcHost "js ''agile''"] nf t5 l5 x len by simp
  moreover have "\<not> isValidSkill utcHost (js ''rust'')"
    using skills_filter_sample [of utcHost "js ''rust''"] nf t6 l6 x k tech len by simp
  ultimately show ?thesis by blast
qed

text \<open>
  C4 as stated fails on the sample: "AI" is not in the list.
\<close>

theorem skills_filter_sample_drops_AI:
  "\<not> (js ''to'' \<notin> set (skillsArray utcHost skillsSample)
      \<and> js ''a'' \<notin> set (skillsArray utcHost skillsSample)
      \<and> js ''early'' \<notin> set (skillsArray utcHost skillsSample)
      \<and> js ''AI'' \<in> set (skillsArray utcHost skillsSample)
      \<and> js ''JavaScript'' \<in> set (skillsArray utcHost skillsSample))"
proof -
  have "skillsArray utcHost skillsSample = [js ''JavaScript'']"
    using utcHost_nfkd_ascii by (intro skillsArray_sample) blast
  then show ?thesis by (simp add: js_def)
qed

section \<open>The calendar arithmetic\<close>

lemma div_lower: "(0::int) < k \<Longrightarrow> k * (a div k) \<le> a"
proof -
  assume "0 < k"
  then have "0 \<le> a mod k" by simp
  moreover have "a = k * (a div k) + a mod k" by simp
  ultimately show ?thesis by linarith
qed

lemma div_upper: "(0::int) < k \<Longrightarrow> a < k * (a div k) + k"
proof -
  assume "0 < k"
  then have "a mod k < k" by simp
  moreover have "a = k * (a div k) + a mod k" by simp
  ultimately show ?thesis by linarith
qed

lemma leap_days_since_1970:
  assumes "(1970::int) \<le> y"
  shows "0 \<le> (y - 1969) div 4 - (y - 1901) div 100 + (y - 1601) div 400"
proof -
  define A where "A = (y - 1969) div 4"
  define B where "B = (y - 1901) div 100"
  define C where "C = (y - 1601) div 400"
  have "0 \<le> A" "0 \<le> C"
    using assms by (simp_all add: A_def C_def pos_imp_zdiv_nonneg_iff)
  moreover have "y - 1969 < 4 * A + 4"
    unfolding A_def by (rule div_upper) simp
  moreover have "100 * B \<le> y - 1901"
    unfolding B_def by (rule div_lower) simp
  ultimately have "0 \<le> A - B + C" by linarith
  then show ?thesis by (simp add: A_def B_def C_def)
qed

lemma leap_days_before_1970:
  assumes "y \<le> (1970::int)"
  shows "y - 1970 \<le> (y - 1969) div 4 - (y - 1901) div 100 + (y - 1601) div 400"
proof -
  define A where "A = (y - 1969) div 4"
  define B where "B = (y - 1901) div 100"
  define C where "C = (y - 1601) div 400"
  have a: "y - 1969 < 4 * A + 4"
    unfolding A_def by (rule div_upper) simp
  have b: "100 * B \<le> y - 1901"
    unfolding B_def by (rule div_lower) simp
  have c: "y - 1601 < 400 * C + 400"
    unfolding C_def by (rule div_upper) simp
  consider "y = 1970" | "y = 1969" | "y \<le> 1968" using assms by linarith
  then have "y - 1970 \<le> A - B + C"
  proof cases
    case 1
    then show ?thesis by (simp add: A_def B_def C_def)
  next
    case 2
    then show ?thesis by (simp add: A_def B_def C_def)
  next
    case 3
    with a b c show ?thesis by linarith
  qed
  then show ?thesis by (simp add: A_def B_def C_def)
qed

lemma DayFromYear_lower:
  "1970 \<le> y \<Longrightarrow> 365 * (y - 1970) \<le> DayFromYear y"
  "y \<le> 1970 \<Longrightarrow> 366 * (y - 1970) \<le> DayFromYear y"
  using leap_days_since_1970 [of y] leap_days_before_1970 [of y]
  by (simp_all add: DayFromYear_def)

lemma DayFromYear_mono_nat: "DayFromYear y < DayFromYear (y + 1 + int n)"
proof (induction n)
  case 0
  show ?case using DayFromYear_step [of "y + 1"] by simp
next
  case (Suc n)
  have "DayFromYear (y + 1 + int n) < DayFromYear (y + 1 + int (Suc n))"
    using DayFromYear_step [of "y + 1 + int (Suc n)"] by (simp add: algebra_simps)
  with Suc show ?case by linarith
qed

lemma DayFromYear_mono: "y < z \<Longrightarrow> DayFromYear y < DayFromYear z"
  using DayFromYear_mono_nat [of y "nat (z - y - 1)"] by simp

lemma DayFromYear_1970 [simp]: "DayFromYear 1970 = 0"
  by (simp add: DayFromYear_def)

lemma yearDown_spec:
  "DayFromYear (yearDown d y) \<le> d \<and> yearDown d y \<le> y
   \<and> (\<forall>z. yearDown d y < z \<and> z \<le> y \<longrightarrow> d < DayFromYear z)"
proof (induction d y rule: yearDown.induct)
  case (1 d y)
  show ?case
  proof (cases "DayFromYear y \<le> d")
    case True
    then show ?thesis by simp
  next
    case False
    with 1 have ih: "DayFromYear (yearDown d (y - 1)) \<le> d" "yearDown d (y - 1) \<le> y - 1"
      "\<forall>z. yearDown d (y - 1) < z \<and> z \<le> y - 1 \<longrightarrow> d < DayFromYear z"
      by simp_all
    have "d < DayFromYear z" if "yearDown d (y - 1) < z" "z \<le> y" for z
    proof (cases "z = y")
      case True
      with False show ?thesis by simp
    next
      case False
      with that ih(3) show ?thesis by simp
    qed
    with False ih show ?thesis
      by (subst yearDown.simps, subst (2) yearDown.simps, subst (3) yearDown.simps) auto
  qed
qed

text \<open>
  \<open>YearFromDay\<close> is the year of the standard: the one year \<open>y\<close> with
  \<open>DayFromYear y \<le> d < DayFromYear (y + 1)\<close>.
\<close>

lemma YearFromDay_iff: "YearFromDay d = y \<longleftrightarrow> DayFromYear y \<le> d \<and> d < DayFromYear (y + 1)"
proof -
  define y0 where "y0 = 1970 + (if 0 \<le> d then d div 365 else d div 366)"
  have start: "z \<le> y0" if z: "DayFromYear z \<le> d" for z
  proof (cases "0 \<le> d")
    case True
    show ?thesis
    proof (cases "1970 \<le> z")
      case True
      with z DayFromYear_lower(1) [of z] have "365 * (z - 1970) \<le> d" by linarith
      then have "z - 1970 \<le> d div 365"
        by (simp add: zdiv_mono1 [of "365 * (z - 1970)" d 365, simplified])
      with \<open>0 \<le> d\<close> show ?thesis by (simp add: y0_def)
    next
      case False
      moreover from \<open>0 \<le> d\<close> have "0 \<le> d div 365" by (simp add: pos_imp_zdiv_nonneg_iff)
      ultimately show ?thesis using \<open>0 \<le> d\<close> by (simp add: y0_def)
    qed
  next
    case False
    have "z < 1970"
    proof (rule ccontr)
      assume "\<not> z < 1970"
      then have "DayFromYear 1970 \<le> DayFromYear z"
        using DayFromYear_mono [of 1970 z] by (cases "z = 1970") auto
      with z False show False by simp
    qed
    with z DayFromYear_lower(2) [of z] have "366 * (z - 1970) \<le> d" by linarith
    then have "z - 1970 \<le> d div 366"
      by (simp add: zdiv_mono1 [of "366 * (z - 1970)" d 366, simplified])
    with False show ?thesis by (simp add: y0_def)
  qed
  let ?r = "yearDown d y0"
  from yearDown_spec [of d y0] have r: "DayFromYear ?r \<le> d" "?r \<le> y0"
    "\<forall>z. ?r < z \<and> z \<le> y0 \<longrightarrow> d < DayFromYear z"
    by simp_all
  have up: "d < DayFromYear (?r + 1)"
  proof (rule ccontr)
    assume "\<not> d < DayFromYear (?r + 1)"
    then have le: "DayFromYear (?r + 1) \<le> d" by simp
    then have "?r + 1 \<le> y0" by (rule start)
    with r(3) have "d < DayFromYear (?r + 1)" by simp
    with le show False by simp
  qed
  have res: "YearFromDay d = ?r" by (simp add: YearFromDay_def y0_def)
  show ?thesis
  proof
    assume "YearFromDay d = y"
    with res r(1) up show "DayFromYear y \<le> d \<and> d < DayFromYear (y + 1)" by simp
  next
    assume y: "DayFromYear y \<le> d \<and> d < DayFromYear (y + 1)"
    have "\<not> y < ?r"
    proof
      assume "y < ?r"
      then have "DayFromYear (y + 1) \<le> DayFromYear ?r"
        using DayFromYear_mono [of "y + 1" ?r] by (cases "y + 1 = ?r") auto
      with y r(1) show False by simp
    qed
    moreover have "\<not> ?r < y"
    proof
      assume "?r < y"
      then have "DayFromYear (?r + 1) \<le> DayFromYear y"
        using DayFromYear_mono [of "?r + 1" y] by (cases "?r + 1 = y") auto
      with y up show False by simp
    qed
    ultimately show "YearFromDay d = y" using res by simp
  qed
qed

lemma div_succ:
  assumes "(0::int) < k"
  shows "(a + 1) div k = (if (a + 1) mod k = 0 then a div k + 1 else a div k)"
proof -
  define q where "q = a div k"
  define r where "r = a mod k"
  have a: "a = k * q + r" and r: "0 \<le> r" "r < k"
    using assms by (simp_all add: q_def r_def)
  show ?thesis
  proof (cases "r + 1 = k")
    case True
    with a have "a + 1 = k * (q + 1) + 0" by (simp add: algebra_simps)
    then have "(a + 1) div k = q + 1" and "(a + 1) mod k = 0"
      using assms by (auto intro: int_div_pos_eq int_mod_pos_eq)
    then show ?thesis by (simp add: q_def)
  next
    case False
    with r have r1: "0 \<le> r + 1" "r + 1 < k" by simp_all
    from a have "a + 1 = k * q + (r + 1)" by simp
    with r1 have "(a + 1) div k = q" and "(a + 1) mod k = r + 1"
      by (auto intro: int_div_pos_eq int_mod_pos_eq)
    with r show ?thesis by (simp add: q_def)
  qed
qed

lemma mod_shift: "(0::int) < k \<Longrightarrow> c mod k = 0 \<Longrightarrow> (a + c) mod k = a mod k"
  by (metis add.right_neutral mod_add_right_eq)

text \<open>The length of a year in the day count agrees with the leap year rule.\<close>

lemma DaysInYear: "DayFromYear (y + 1) - DayFromYear y = (if InLeapYear y then 366 else 365)"
proof -
  have 4: "(y + 1 - 1969) div 4 = (if y mod 4 = 0 then (y - 1969) div 4 + 1 else (y - 1969) div 4)"
    using div_succ [of 4 "y - 1969"] mod_shift [of 4 "- 1968" y] by (simp add: algebra_simps)
  have 100: "(y + 1 - 1901) div 100
      = (if y mod 100 = 0 then (y - 1901) div 100 + 1 else (y - 1901) div 100)"
    using div_succ [of 100 "y - 1901"] mod_shift [of 100 "- 1900" y] by (simp add: algebra_simps)
  have 400: "(y + 1 - 1601) div 400
      = (if y mod 400 = 0 then (y - 1601) div 400 + 1 else (y - 1601) div 400)"
    using div_succ [of 400 "y - 1601"] mod_shift [of 400 "- 1600" y] by (simp add: algebra_simps)
  have m1: "y mod 100 = 0 \<Longrightarrow> y mod 4 = 0"
    using mod_mod_cancel [of 4 100 y] by simp
  have m2: "y mod 400 = 0 \<Longrightarrow> y mod 100 = 0"
    using mod_mod_cancel [of 100 400 y] by simp
  show ?thesis
    unfolding DayFromYear_def 4 100 400 InLeapYear_def using m1 m2 by auto
qed

subsection \<open>Days within the year\<close>

lemma Day_of_days: "Day (k * msPerDay) = k"
  by (simp add: Day_def msPerDay_def)

lemma less_12_cases:
  "m < (12::nat) \<Longrightarrow> m = 0 \<or> m = 1 \<or> m = 2 \<or> m = 3 \<or> m = 4 \<or> m = 5 \<or> m = 6
     \<or> m = 7 \<or> m = 8 \<or> m = 9 \<or> m = 10 \<or> m = 11"
  by arith

lemma day_within_year_lower:
  assumes "m < 12" and "1 \<le> d"
  shows "0 \<le> monthStarts leap ! m + (d - 1)"
  using less_12_cases [OF assms(1)] assms(2)
  by (elim disjE) (simp_all add: monthStarts_def)

lemma day_within_year_upper:
  assumes "m < 12" and "d \<le> DaysInMonth y m"
  shows "monthStarts (InLeapYear y) ! m + (d - 1) < (if InLeapYear y then 366 else 365)"
  using less_12_cases [OF assms(1)] assms(2)
  by (elim disjE; cases "InLeapYear y") (simp_all add: monthStarts_def DaysInMonth_def)


text \<open>A date made from year, month and day reads back as that year and month.\<close>

lemma YearFromTime_MakeDate:
  assumes "m < 12" and "1 \<le> d" and "d \<le> DaysInMonth y m"
  shows "YearFromTime (MakeDate y m d) = y"
proof -
  have "DayFromYear (y + 1) = DayFromYear y + (if InLeapYear y then 366 else 365)"
    using DaysInYear [of y] by simp
  then show ?thesis
    using day_within_year_lower [OF assms(1,2), of "InLeapYear y"]
      day_within_year_upper [OF assms(1,3)]
    by (simp add: YearFromTime_def MakeDate_def Day_of_days YearFromDay_iff)
qed

lemma month_of_day:
  assumes "m < 12" and "1 \<le> d" and "d \<le> DaysInMonth y m"
  shows "length (filter (\<lambda>start. start \<le> monthStarts (InLeapYear y) ! m + (d - 1))
          (monthStarts (InLeapYear y))) - 1 = m"
  using less_12_cases [OF assms(1)] assms(2,3)
  by (elim disjE; cases "InLeapYear y") (simp_all add: monthStarts_def DaysInMonth_def)

lemma MonthFromTime_MakeDate:
  assumes "m < 12" and "1 \<le> d" and "d \<le> DaysInMonth y m"
  shows "MonthFromTime (MakeDate y m d) = m"
  using YearFromTime_MakeDate [OF assms] month_of_day [OF assms]
  by (simp add: MonthFromTime_def Let_def) (simp add: MakeDate_def Day_of_days)

subsection \<open>Shifting a time value by the zone offset\<close>

lemma Day_east: "0 \<le> z \<Longrightarrow> z < msPerDay \<Longrightarrow> Day (k * msPerDay + z) = k"
  by (simp add: Day_def msPerDay_def div_pos_pos_trivial)

lemma Day_west:
  assumes "- msPerDay \<le> z" and "z < 0"
  shows "Day (k * msPerDay + z) = k - 1"
proof -
  have "k * msPerDay + z = (k - 1) * msPerDay + (z + msPerDay)"
    by (simp add: algebra_simps)
  moreover have "Day ((k - 1) * msPerDay + (z + msPerDay)) = k - 1"
    using assms by (intro Day_east) simp_all
  ultimately show ?thesis
    by (simp only:)
qed

lemma same_day:
  assumes "Day a = Day b"
  shows "YearFromTime a = YearFromTime b" and "MonthFromTime a = MonthFromTime b"
  using assms by (simp_all add: YearFromTime_def MonthFromTime_def)

lemma MakeDate_days: "Day (MakeDate y m d) = DayFromYear y + monthStarts (InLeapYear y) ! m + (d - 1)"
  by (simp add: MakeDate_def Day_of_days)

text \<open>The day before the first of a month is the last day of the month before.\<close>

lemma InLeapYear_days: "DayFromYear y = DayFromYear (y - 1) + (if InLeapYear (y - 1) then 366 else 365)"
  using DaysInYear [of "y - 1"] by simp

lemma previous_day:
  assumes "m < 12"
  shows "Day (MakeDate y m 1) - 1 =
    (if m = 0 then Day (MakeDate (y - 1) 11 31)
     else Day (MakeDate y (m - 1) (DaysInMonth y (m - 1))))"
  using less_12_cases [OF assms] InLeapYear_days [of y]
  by (elim disjE; cases "InLeapYear y"; cases "InLeapYear (y - 1)")
    (simp_all add: MakeDate_days monthStarts_def DaysInMonth_def)

lemma DaysInMonth_pos: "1 \<le> DaysInMonth y m"
  by (simp add: DaysInMonth_def)

section \<open>Properties of the date formatter\<close>

lemma formatDate_missing:
  "formatDate h None isEndDate = (if isEndDate then js ''Present'' else [])"
  "formatDate h (Some []) isEndDate = (if isEndDate then js ''Present'' else [])"
  by (simp_all add: formatDate_def)

lemma formatDate_present:
  "d \<noteq> [] \<Longrightarrow> toLowerCase h d = js ''present'' \<Longrightarrow> formatDate h (Some d) isEndDate = js ''Present''"
  by (simp add: formatDate_def)

text \<open>Every spelling of "present" in ASCII letters, whatever the case of each letter.\<close>

lemma formatDate_present_any_case:
  assumes "map lowerUnit d = js ''present''" and "\<forall>c\<in>set d. c < 128"
  shows "formatDate h (Some d) isEndDate = js ''Present''"
proof -
  from assms have "toLowerCase h d = js ''present''"
    by (simp add: toLowerCase_ascii)
  moreover from assms(1) have "d \<noteq> []"
    by (auto simp: js_def)
  ultimately show ?thesis by (rule formatDate_present [rotated])
qed

lemma formatDate_parsed:
  "d \<noteq> [] \<Longrightarrow> toLowerCase h d \<noteq> js ''present'' \<Longrightarrow>
   formatDate h (Some d) isEndDate = toLocaleMonthYear h (dateParse h (d @ js ''-01''))"
  by (simp add: formatDate_def newDate_def toLocaleString_def)

text \<open>
  An input that does not parse never reaches the fallback of the \<open>catch\<close> clause: the
  result is the string "Invalid Date", whatever the input was.
\<close>

lemma formatDate_unparsed:
  "d \<noteq> [] \<Longrightarrow> toLowerCase h d \<noteq> js ''present'' \<Longrightarrow> dateParse h (d @ js ''-01'') = None \<Longrightarrow>
   formatDate h (Some d) isEndDate = js ''Invalid Date''"
  by (simp add: formatDate_parsed toLocaleMonthYear_def)

lemma formatDate_utc_sample:
  "formatDate utcHost (Some (js ''2020-09'')) False = js ''Sep 2020''"
  by code_simp

subsection \<open>A well-formed year and month\<close>

text \<open>What the runtime parses from a well-formed \<open>YYYY-MM\<close> with \<open>-01\<close> appended.\<close>

lemma dateParse_year_month:
  assumes "list_all isDigit [y1, y2, y3, y4, m1, m2]"
    and "1 \<le> digitsVal [m1, m2]" and "digitsVal [m1, m2] \<le> 12"
  shows "dateParse h ([y1, y2, y3, y4, 0x2D, m1, m2] @ js ''-01'')
    = Some (MakeDate (int (digitsVal [y1, y2, y3, y4])) (digitsVal [m1, m2] - 1) 1)"
  using assms DaysInMonth_pos
  by (simp add: dateParse_def hasIsoDateShape_def js_def isDigit_def del: digitsVal.simps)
    (simp add: isDigit_def)

lemma year_month_not_present:
  assumes "isDigit y1"
  shows "toLowerCase h (y1 # s) \<noteq> js ''present''"
  using assms by (simp add: toLowerCase_def lowerUnit_def isUpper_def isDigit_def js_def)

lemma formatDate_year_month:
  assumes "list_all isDigit [y1, y2, y3, y4, m1, m2]"
    and "1 \<le> digitsVal [m1, m2]" and "digitsVal [m1, m2] \<le> 12"
  shows "formatDate h (Some [y1, y2, y3, y4, 0x2D, m1, m2]) isEndDate
    = toLocaleMonthYear h
        (Some (MakeDate (int (digitsVal [y1, y2, y3, y4])) (digitsVal [m1, m2] - 1) 1))"
proof -
  have "toLowerCase h [y1, y2, y3, y4, 0x2D, m1, m2] \<noteq> js ''present''"
    using assms(1) by (intro year_month_not_present) simp
  then show ?thesis
    using dateParse_year_month [OF assms, of h]
    by (simp add: formatDate_def newDate_def toLocaleString_def del: digitsVal.simps)
qed

text \<open>
  At or east of UTC (an offset under a day) the month and year are those written. West of
  UTC (an offset of at most a day) they are those of the day before the first of the month:
  the month before, in the year before if the month written is January.
\<close>

lemma toLocaleMonthYear_east:
  assumes "m < 12" and "0 \<le> localTZA h (MakeDate y m 1)"
    and "localTZA h (MakeDate y m 1) < msPerDay"
  shows "toLocaleMonthYear h (Some (MakeDate y m 1))
    = monthShort ! m @ js '' '' @ decimal (nat (if 1 \<le> y then y else 1 - y))"
proof -
  have "Day (LocalTime h (MakeDate y m 1)) = Day (MakeDate y m 1)"
    unfolding LocalTime_def using assms(2,3)
    by (simp add: MakeDate_def Day_east Day_of_days)
  from same_day [OF this] show ?thesis
    using assms(1) by (simp add: toLocaleMonthYear_def Let_def YearFromTime_MakeDate
        MonthFromTime_MakeDate DaysInMonth_pos)
qed

lemma toLocaleMonthYear_west:
  assumes "m < 12" and "- msPerDay \<le> localTZA h (MakeDate y m 1)"
    and "localTZA h (MakeDate y m 1) < 0"
  shows "toLocaleMonthYear h (Some (MakeDate y m 1))
    = (if m = 0 then js ''Dec'' @ js '' '' @ decimal (nat (if 2 \<le> y then y - 1 else 2 - y))
       else monthShort ! (m - 1) @ js '' '' @ decimal (nat (if 1 \<le> y then y else 1 - y)))"
proof -
  have day: "Day (LocalTime h (MakeDate y m 1)) = Day (MakeDate y m 1) - 1"
    unfolding LocalTime_def using assms(2,3)
    by (simp add: MakeDate_def Day_west Day_of_days)
  show ?thesis
  proof (cases "m = 0")
    case True
    have "Day (LocalTime h (MakeDate y m 1)) = Day (MakeDate (y - 1) 11 31)"
      using day previous_day [OF assms(1), of y] True by simp
    from same_day [OF this] show ?thesis
      using True by (simp add: toLocaleMonthYear_def Let_def YearFromTime_MakeDate
          MonthFromTime_MakeDate DaysInMonth_def monthShort_def)
  next
    case False
    have "Day (LocalTime h (MakeDate y m 1)) = Day (MakeDate y (m - 1) (DaysInMonth y (m - 1)))"
      using day previous_day [OF assms(1), of y] False by simp
    from same_day [OF this] show ?thesis
      using False assms(1) by (simp add: toLocaleMonthYear_def Let_def YearFromTime_MakeDate
          MonthFromTime_MakeDate DaysInMonth_pos)
  qed
qed

subsection \<open>The sample inputs\<close>

text \<open>
  C9 at its failing input: on a host west of UTC the month "2020-09" is rendered as the
  month before it. The string "2020-09-01" is parsed as midnight UTC and formatted in local
  time, where it is still the evening of 31 August.
\<close>

theorem formatDate_west_of_utc_previous_month:
  "formatDate newYorkHost (Some (js ''2020-09'')) False = js ''Aug 2020''"
  by code_simp

text \<open>
  C3 at its failing input: "2020-13" with a day appended is no calendar date, and the
  formatter returns "Invalid Date" instead of the raw input.
\<close>

theorem formatDate_unparsed_not_raw:
  "dateParse utcHost (js ''2020-13'' @ js ''-01'') = None
   \<and> formatDate utcHost (Some (js ''2020-13'')) False = js ''Invalid Date''
   \<and> formatDate utcHost (Some (js ''2020-13'')) False \<noteq> js ''2020-13''"
  by code_simp

section \<open>Properties of pagination\<close>

text \<open>
  C5. \<open>checkPageBreak\<close> either starts exactly one new page, resets the cursor to the top
  margin and returns true (when the cursor plus the required space exceeds the printable
  area, the page height less 20), or leaves the state as it is and returns false. One call
  never adds more than one page.
\<close>

theorem checkPageBreak_one_page:
  "(yPosition st + requiredSpace > pageHeight cfg - 20 \<longrightarrow>
      fst (checkPageBreak cfg requiredSpace st) = True
      \<and> pageCount (snd (checkPageBreak cfg requiredSpace st)) = pageCount st + 1
      \<and> yPosition (snd (checkPageBreak cfg requiredSpace st)) = margin cfg
      \<and> drawn (snd (checkPageBreak cfg requiredSpace st)) = drawn st @ [DAddPage])
   \<and> (\<not> yPosition st + requiredSpace > pageHeight cfg - 20 \<longrightarrow>
      checkPageBreak cfg requiredSpace st = (False, st))
   \<and> pageCount (snd (checkPageBreak cfg requiredSpace st)) \<le> pageCount st + 1"
  by (simp add: checkPageBreak_def draw_def)

theorem checkPageBreak_one_page_witness:
  "checkPageBreak (mkConfig 210 297) 12 (setY 270 (initState (mkConfig 210 297)))
     = (True, (setY 270 (initState (mkConfig 210 297)))
               \<lparr> yPosition := 15, pageCount := 2, drawn := [DAddPage],
                 cursorLog := [(1, 15), (1, 270), (2, 15)] \<rparr>)
   \<and> checkPageBreak (mkConfig 210 297) 5 (setY 270 (initState (mkConfig 210 297)))
     = (False, setY 270 (initState (mkConfig 210 297)))"
proof -
  let ?cfg = "mkConfig 210 297"
  let ?st = "setY 270 (initState ?cfg)"
  have a: "yPosition ?st + 12 > pageHeight ?cfg - 20"
    by (simp add: setY_def initState_def mkConfig_def)
  have b: "\<not> yPosition ?st + 5 > pageHeight ?cfg - 20"
    by (simp add: setY_def initState_def mkConfig_def)
  from checkPageBreak_one_page [where st = ?st and requiredSpace = 12 and cfg = ?cfg] a
  have "fst (checkPageBreak ?cfg 12 ?st) = True"
    and "pageCount (snd (checkPageBreak ?cfg 12 ?st)) = pageCount ?st + 1"
    and "yPosition (snd (checkPageBreak ?cfg 12 ?st)) = margin ?cfg"
    and "drawn (snd (checkPageBreak ?cfg 12 ?st)) = drawn ?st @ [DAddPage]"
    by blast+
  moreover have "cursorLog (snd (checkPageBreak ?cfg 12 ?st)) = [(1, 15), (1, 270), (2, 15)]"
    and "curFont (snd (checkPageBreak ?cfg 12 ?st)) = curFont ?st"
    and "backLog (snd (checkPageBreak ?cfg 12 ?st)) = backLog ?st"
    by (simp_all add: checkPageBreak_def setY_def initState_def mkConfig_def draw_def)
  ultimately have "checkPageBreak ?cfg 12 ?st
      = (True, ?st \<lparr> yPosition := 15, pageCount := 2, drawn := [DAddPage],
                     cursorLog := [(1, 15), (1, 270), (2, 15)] \<rparr>)"
    by (intro prod_eqI) (simp_all add: setY_def initState_def mkConfig_def)
  moreover from checkPageBreak_one_page [where st = ?st and requiredSpace = 5 and cfg = ?cfg] b
  have "checkPageBreak ?cfg 5 ?st = (False, ?st)"
    by blast
  ultimately show ?thesis by simp
qed

section \<open>What the steps draw\<close>

lemma steps_Nil [simp]: "steps [] st = st"
  by (simp add: steps_def)

lemma steps_Cons [simp]: "steps (f # fs) st = steps fs (f st)"
  by (simp add: steps_def)

lemma forEach_Nil [simp]: "forEach [] body st = st"
  by (simp add: forEach_def)

lemma forEach_Cons [simp]: "forEach (x # xs) body st = forEach xs body (body x st)"
  by (simp add: forEach_def)

lemma textsOf_append [simp]: "textsOf (a @ b) = textsOf a @ textsOf b"
  by (induction a rule: textsOf.induct) simp_all

lemma drawn_setY [simp]: "drawn (setY v st) = drawn st"
  by (simp add: setY_def)

lemma drawn_advance [simp]: "drawn (advance d st) = drawn st"
  by (simp add: advance_def)

lemma drawn_setBack [simp]: "drawn (setBack v st) = drawn st"
  by (simp add: setBack_def setY_def)

lemma drawn_retreat [simp]: "drawn (retreat d st) = drawn st"
  by (simp add: retreat_def)

lemma drawn_setFontSize [simp]: "drawn (setFontSize s st) = drawn st"
  by (simp add: setFontSize_def)

lemma drawn_setFont [simp]: "drawn (setFont s st) = drawn st"
  by (simp add: setFont_def)

lemma drawn_draw [simp]: "drawn (draw op st) = drawn st @ [op]"
  by (simp add: draw_def)

lemma drawn_textHere [simp]:
  "drawn (textHere s x st) = drawn st @ [DText (curFont st) s x (yPosition st)]"
  by (simp add: textHere_def textAt_def)

lemma texts_pageBreak [simp]: "textsOf (drawn (pageBreak cfg r st)) = textsOf (drawn st)"
  by (simp add: pageBreak_def checkPageBreak_def)

lemma curFont_simps [simp]:
  "curFont (setY v st) = curFont st"
  "curFont (advance d st) = curFont st"
  "curFont (setBack v st) = curFont st"
  "curFont (retreat d st) = curFont st"
  "curFont (draw op st) = curFont st"
  "curFont (textHere s x st) = curFont st"
  "curFont (textAt s x y st) = curFont st"
  "curFont (pageBreak cfg r st) = curFont st"
  "curFont (setFontSize sz st) = (curFont st) \<lparr> fontSize := sz \<rparr>"
  "curFont (setFont style st) = (curFont st) \<lparr> fontStyle := style \<rparr>"
  by (simp_all add: setY_def advance_def setBack_def retreat_def draw_def textHere_def textAt_def pageBreak_def
      checkPageBreak_def setFontSize_def setFont_def)

lemma texts_line_loop:
  "textsOf (drawn (forEach xs (\<lambda>x. steps [pageBreak cfg r, textHere (g x) X, advance d]) st))
     = textsOf (drawn st) @ map (\<lambda>x. (g x, X)) xs"
  by (induction xs arbitrary: st) simp_all

lemma curFont_line_loop:
  "curFont (forEach xs (\<lambda>x. steps [pageBreak cfg r, textHere (g x) X, advance d]) st) = curFont st"
  by (induction xs arbitrary: st) simp_all

lemma texts_renderSkillsInColumns:
  "textsOf (drawn (renderSkillsInColumns cfg names st))
     = textsOf (drawn st)
       @ map (\<lambda>s. ([0x2022, 0x20] @ s, margin cfg + 6)) (take ((length names + 1) div 2) names)
       @ map (\<lambda>s. ([0x2022, 0x20] @ s, margin cfg + 6 + (pageWidth cfg - 2 * margin cfg - 6) / 2 + 20))
           (drop ((length names + 1) div 2) names)"
  by (simp add: renderSkillsInColumns_def Let_def texts_line_loop)

lemma texts_nonblank_loop:
  "textsOf (drawn (forEach xs
       (\<lambda>line. onlyIf (trim line \<noteq> []) (steps [pageBreak cfg r, textHere line X, advance d])) st))
     = textsOf (drawn st) @ map (\<lambda>line. (line, X)) (filter (\<lambda>line. trim line \<noteq> []) xs)"
  by (induction xs arbitrary: st) (simp_all add: onlyIf_def)

lemma texts_renderSkillsHorizontally:
  "textsOf (drawn (renderSkillsHorizontally h cfg names st))
     = textsOf (drawn st)
       @ map (\<lambda>line. (line, margin cfg + 6))
           (filter (\<lambda>line. trim line \<noteq> [])
             (splitTextToSize h (curFont st) (joinWith bulletSep names)
               (pageWidth cfg - 2 * margin cfg - 6)))"
  by (simp add: renderSkillsHorizontally_def Let_def texts_nonblank_loop)

lemma texts_addSectionHeader:
  "textsOf (drawn (addSectionHeader h cfg title st))
     = textsOf (drawn st) @ [(toUpperCase h title, margin cfg)]"
  by (simp add: addSectionHeader_def)

lemma curFont_addSectionHeader:
  "curFont (addSectionHeader h cfg title st) = \<lparr> fontSize = 13, fontStyle = ''bold'' \<rparr>"
  by (simp add: addSectionHeader_def)

lemma ceil_half: "nat \<lceil>real n / 2\<rceil> = (n + 1) div 2"
  by linarith

lemma texts_skillsSection_columns:
  assumes "0 < length (skills r)" and "4 \<le> length (skillsArray h (skills r))"
  shows "textsOf (drawn (skillsSection h cfg r st))
        = textsOf (drawn st)
          @ [(toUpperCase h (js ''Core Competencies & Technical Skills''), margin cfg)]
          @ map (\<lambda>s. ([0x2022, 0x20] @ s, margin cfg + 6))
              (take ((length (skillsArray h (skills r)) + 1) div 2) (skillsArray h (skills r)))
          @ map (\<lambda>s. ([0x2022, 0x20] @ s,
                       margin cfg + 6 + (pageWidth cfg - 2 * margin cfg - 6) / 2 + 20))
              (drop ((length (skillsArray h (skills r)) + 1) div 2) (skillsArray h (skills r)))"
proof -
  from assms have "skillsArray h (skills r) \<noteq> []" by auto
  with assms show ?thesis
    by (simp add: skillsSection_def onlyIf_def Let_def minSkillsForColumns_def
        texts_renderSkillsInColumns texts_addSectionHeader)
qed

lemma texts_skillsSection_line:
  assumes "0 < length (skills r)" and "0 < length (skillsArray h (skills r))"
    and "length (skillsArray h (skills r)) < 4"
  shows "textsOf (drawn (skillsSection h cfg r st))
        = textsOf (drawn st)
          @ [(toUpperCase h (js ''Core Competencies & Technical Skills''), margin cfg)]
          @ map (\<lambda>line. (line, margin cfg + 6))
              (filter (\<lambda>line. trim line \<noteq> [])
                (splitTextToSize h \<lparr> fontSize = 10, fontStyle = ''normal'' \<rparr>
                   (joinWith bulletSep (skillsArray h (skills r)))
                   (pageWidth cfg - 2 * margin cfg - 6)))"
  using assms
  by (simp add: skillsSection_def onlyIf_def Let_def minSkillsForColumns_def
      texts_renderSkillsHorizontally texts_addSectionHeader curFont_addSectionHeader)

lemmas eval_skill = skillsArray_def isValidSkill_def isTechnical_def technicalPatterns_def
  excludeWords_def isCapitalized_def capitalize_def toLowerCase_def toUpperCase_def sortBy_def
  cleanText_def utcHost_def nfkdUnit_def eval_text eval_rx

lemma skillsArray_twoSkills: "skillsArray utcHost twoSkills = map js [''Python'', ''React'']"
  by (simp add: twoSkills_def eval_skill)

lemma skillsArray_fiveSkills:
  "skillsArray utcHost fiveSkills = map js [''Docker'', ''Kotlin'', ''Linux'', ''Python'', ''React'']"
  by (simp add: fiveSkills_def eval_skill)

lemma utcHost_split: "splitTextToSize utcHost f s w = [s]"
  by (simp add: utcHost_def)

lemma trim_python_react: "trim (js ''Python'' @ 32 # 8226 # 32 # js ''React'') \<noteq> []"
  by (simp add: eval_text)

lemma upper_skills_title:
  "toUpperCase utcHost (js ''Core Competencies & Technical Skills'')
     = js ''CORE COMPETENCIES & TECHNICAL SKILLS''"
  by (simp add: toUpperCase_def js_def upperUnit_def isLower_def)

text \<open>
  C8, as the code has it. With at least 4 filtered skills the section draws two columns:
  the first ceil(n/2) skills in the left column, the rest in the right one. With fewer
  than 4 it draws the skills as one flowing line, wrapped to the page width.
\<close>

theorem skills_layout_threshold:
  "(0 < length (skills r) \<and> 4 \<le> length (skillsArray h (skills r)) \<longrightarrow>
      textsOf (drawn (skillsSection h cfg r st))
        = textsOf (drawn st)
          @ [(toUpperCase h (js ''Core Competencies & Technical Skills''), margin cfg)]
          @ map (\<lambda>s. ([0x2022, 0x20] @ s, margin cfg + 6))
              (take (nat \<lceil>real (length (skillsArray h (skills r))) / 2\<rceil>) (skillsArray h (skills r)))
          @ map (\<lambda>s. ([0x2022, 0x20] @ s,
                       margin cfg + 6 + (pageWidth cfg - 2 * margin cfg - 6) / 2 + 20))
              (drop (nat \<lceil>real (length (skillsArray h (skills r))) / 2\<rceil>) (skillsArray h (skills r))))
   \<and> (0 < length (skills r) \<and> 0 < length (skillsArray h (skills r))
        \<and> length (skillsArray h (skills r)) < 4 \<longrightarrow>
      textsOf (drawn (skillsSection h cfg r st))
        = textsOf (drawn st)
          @ [(toUpperCase h (js ''Core Competencies & Technical Skills''), margin cfg)]
          @ map (\<lambda>line. (line, margin cfg + 6))
              (filter (\<lambda>line. trim line \<noteq> [])
                (splitTextToSize h \<lparr> fontSize = 10, fontStyle = ''normal'' \<rparr>
                   (joinWith bulletSep (skillsArray h (skills r)))
                   (pageWidth cfg - 2 * margin cfg - 6))))"
  using texts_skillsSection_columns [of r h cfg st] texts_skillsSection_line [of r h cfg st]
  by (simp add: ceil_half)

theorem skills_layout_threshold_witness:
  "textsOf (drawn (skillsSection utcHost a4 (emptyResume \<lparr> skills := fiveSkills \<rparr>) (initState a4)))
     = [(js ''CORE COMPETENCIES & TECHNICAL SKILLS'', 15),
        ([0x2022, 0x20] @ js ''Docker'', 21), ([0x2022, 0x20] @ js ''Kotlin'', 21),
        ([0x2022, 0x20] @ js ''Linux'', 21),
        ([0x2022, 0x20] @ js ''Python'', 128), ([0x2022, 0x20] @ js ''React'', 128)]
   \<and> textsOf (drawn (skillsSection utcHost a4 (emptyResume \<lparr> skills := twoSkills \<rparr>) (initState a4)))
     = [(js ''CORE COMPETENCIES & TECHNICAL SKILLS'', 15),
        (js ''Python'' @ [0x20, 0x2022, 0x20] @ js ''React'', 21)]"
proof -
  let ?r5 = "emptyResume \<lparr> skills := fiveSkills \<rparr>"
  let ?r2 = "emptyResume \<lparr> skills := twoSkills \<rparr>"
  have s5: "skills ?r5 = fiveSkills" and s2: "skills ?r2 = twoSkills"
    by (simp_all add: emptyResume_def)
  have n5: "0 < length fiveSkills" and n2: "0 < length twoSkills"
    by (simp_all add: fiveSkills_def twoSkills_def)
  have half: "nat \<lceil>real (5::nat) / 2\<rceil> = 3"
    by (simp add: ceil_half)
  have "textsOf (drawn (skillsSection utcHost a4 ?r5 (initState a4)))
     = [(js ''CORE COMPETENCIES & TECHNICAL SKILLS'', 15),
        ([0x2022, 0x20] @ js ''Docker'', 21), ([0x2022, 0x20] @ js ''Kotlin'', 21),
        ([0x2022, 0x20] @ js ''Linux'', 21),
        ([0x2022, 0x20] @ js ''Python'', 128), ([0x2022, 0x20] @ js ''React'', 128)]"
    using skills_layout_threshold [of ?r5 utcHost a4 "initState a4"] n5 half
    by (simp add: s5 skillsArray_fiveSkills upper_skills_title a4_def mkConfig_def initState_def)
  moreover have "textsOf (drawn (skillsSection utcHost a4 ?r2 (initState a4)))
     = [(js ''CORE COMPETENCIES & TECHNICAL SKILLS'', 15),
        (js ''Python'' @ [0x20, 0x2022, 0x20] @ js ''React'', 21)]"
    using skills_layout_threshold [of ?r2 utcHost a4 "initState a4"] n2
    by (simp add: s2 skillsArray_twoSkills upper_skills_title a4_def mkConfig_def initState_def
        bulletSep_def utcHost_split trim_python_react)
  ultimately show ?thesis by simp
qed

text \<open>
  C8 as stated fails: two skills are below the threshold, and the section draws them as
  a single line, not in two columns; five skills are above it and are drawn in two columns.
\<close>

theorem skills_layout_below_threshold_single_line:
  "length (skillsArray utcHost twoSkills) < minSkillsForColumns
   \<and> textsOf (drawn (skillsSection utcHost a4 (emptyResume \<lparr> skills := twoSkills \<rparr>) (initState a4)))
     = [(js ''CORE COMPETENCIES & TECHNICAL SKILLS'', 15),
        (js ''Python'' @ [0x20, 0x2022, 0x20] @ js ''React'', 21)]
   \<and> textsOf (drawn (skillsSection utcHost a4 (emptyResume \<lparr> skills := twoSkills \<rparr>) (initState a4)))
     \<noteq> [(js ''CORE COMPETENCIES & TECHNICAL SKILLS'', 15),
         ([0x2022, 0x20] @ js ''Python'', 21), ([0x2022, 0x20] @ js ''React'', 128)]
   \<and> minSkillsForColumns < length (skillsArray utcHost fiveSkills)
   \<and> map snd (textsOf (drawn
         (skillsSection utcHost a4 (emptyResume \<lparr> skills := fiveSkills \<rparr>) (initState a4))))
     = [15, 21, 21, 21, 128, 128]"
proof -
  let ?r5 = "emptyResume \<lparr> skills := fiveSkills \<rparr>"
  let ?r2 = "emptyResume \<lparr> skills := twoSkills \<rparr>"
  have s5: "skills ?r5 = fiveSkills" and s2: "skills ?r2 = twoSkills"
    by (simp_all add: emptyResume_def)
  have n5: "0 < length fiveSkills" and n2: "0 < length twoSkills"
    by (simp_all add: fiveSkills_def twoSkills_def)
  have a: "textsOf (drawn (skillsSection utcHost a4 ?r2 (initState a4)))
     = [(js ''CORE COMPETENCIES & TECHNICAL SKILLS'', 15),
        (js ''Python'' @ [0x20, 0x2022, 0x20] @ js ''React'', 21)]"
    using texts_skillsSection_line [of ?r2 utcHost a4 "initState a4"] n2
    by (simp add: s2 skillsArray_twoSkills upper_skills_title a4_def mkConfig_def initState_def
        bulletSep_def utcHost_split trim_python_react)
  have b: "map snd (textsOf (drawn (skillsSection utcHost a4 ?r5 (initState a4))))
     = [15, 21, 21, 21, 128, 128]"
    using texts_skillsSection_columns [of ?r5 utcHost a4 "initState a4"] n5
    by (simp add: s5 skillsArray_fiveSkills a4_def mkConfig_def initState_def)
  show ?thesis
    unfolding a b by (simp add: skillsArray_twoSkills skillsArray_fiveSkills minSkillsForColumns_def)
qed


section \<open>The cursor within a page\<close>

lemma monoLog_Cons2: "monoLog (a # b # rest) \<longleftrightarrow> stepOk a b \<and> monoLog (b # rest)"
  by (cases a; cases b) (simp add: stepOk_def)

lemma monoLog_snoc:
  "monoLog (l @ [e]) \<longleftrightarrow> monoLog l \<and> (l = [] \<or> stepOk (last l) e)"
proof (induction l rule: monoLog.induct)
  case 1
  show ?case by simp
next
  case (2 a)
  show ?case by (cases a; cases e) (simp add: stepOk_def)
next
  case (3 p y q z rest)
  then show ?case by (auto simp: stepOk_def)
qed

text \<open>A history is monotone within each page exactly when the cursor has moved back nowhere.\<close>

lemma monoLog_backward: "monoLog l \<longleftrightarrow> backward i l = []"
  by (induction i l rule: backward.induct) auto

lemma backward_snoc:
  "backward i (l @ [e]) =
     backward i l @ (if l \<noteq> [] \<and> \<not> stepOk (last l) e then [i + length l] else [])"
proof (induction i l rule: backward.induct)
  case (1 i)
  show ?case by simp
next
  case (2 i a)
  show ?case by (cases a; cases e) (simp add: stepOk_def)
next
  case (3 i p y q z rest)
  then show ?case by (simp add: stepOk_def)
qed

lemma length_insertBy [simp]: "length (insertBy le x xs) = Suc (length xs)"
  by (induction xs) simp_all

lemma length_sortBy [simp]: "length (sortBy le xs) = length xs"
  unfolding sortBy_def by (induction xs) simp_all

lemma set_insertBy [simp]: "set (insertBy le x xs) = insert x (set xs)"
  by (induction xs) auto

lemma set_sortBy [simp]: "set (sortBy le xs) = set xs"
  unfolding sortBy_def by (induction xs) simp_all

lemma linv_init: "linv [] cfg (initState cfg)"
  by (simp add: linv_def initState_def)

lemma linv_setY: "linv M cfg st \<Longrightarrow> yPosition st \<le> v \<Longrightarrow> linv M cfg (setY v st)"
  by (auto simp: linv_def setY_def backward_snoc stepOk_def)

text \<open>A statement that takes the cursor back adds its position to \<open>backLog\<close>.\<close>

lemma linv_setBack:
  "linv M cfg st \<Longrightarrow> margin cfg \<le> v \<Longrightarrow> linv (M @ [length (cursorLog st)]) cfg (setBack v st)"
  by (auto simp: linv_def setBack_def setY_def backward_snoc)

lemma linv_advance [simp]: "0 \<le> d \<Longrightarrow> linv M cfg st \<Longrightarrow> linv M cfg (advance d st)"
  by (simp add: advance_def linv_setY)

lemma linv_pageBreak [simp]: "linv M cfg st \<Longrightarrow> linv M cfg (pageBreak cfg r st)"
  by (auto simp: linv_def pageBreak_def checkPageBreak_def draw_def backward_snoc stepOk_def)

lemma linv_same [simp]:
  "linv M cfg (draw op st) = linv M cfg st"
  "linv M cfg (textAt s x y st) = linv M cfg st"
  "linv M cfg (textHere s x st) = linv M cfg st"
  "linv M cfg (setFontSize sz st) = linv M cfg st"
  "linv M cfg (setFont style st) = linv M cfg st"
  by (simp_all add: linv_def draw_def textAt_def textHere_def setFontSize_def setFont_def)

lemma linv_onlyIf [simp]: "(c \<Longrightarrow> linv M cfg (f st)) \<Longrightarrow> linv M cfg st \<Longrightarrow> linv M cfg (onlyIf c f st)"
  by (simp add: onlyIf_def)

lemma linv_forEach:
  "(\<And>x s. linv M cfg s \<Longrightarrow> linv M cfg (body x s)) \<Longrightarrow> linv M cfg st \<Longrightarrow> linv M cfg (forEach xs body st)"
  by (induction xs arbitrary: st) simp_all

lemma fold_inv: "(\<And>x s. P s \<Longrightarrow> P (f x s)) \<Longrightarrow> P s \<Longrightarrow> P (fold f xs s)"
  by (induction xs arbitrary: s) simp_all

lemma linv_forEachIndexed:
  "(\<And>i x s. linv M cfg s \<Longrightarrow> linv M cfg (body i x s)) \<Longrightarrow> linv M cfg st
   \<Longrightarrow> linv M cfg (forEachIndexed xs body st)"
  unfolding forEachIndexed_def by (rule fold_inv) auto

lemma linv_addSectionHeader [simp]: "linv M cfg st \<Longrightarrow> linv M cfg (addSectionHeader h cfg title st)"
  by (simp add: addSectionHeader_def)

lemma linv_addText [simp]:
  "0 \<le> fSize \<Longrightarrow> linv M cfg st \<Longrightarrow> linv M cfg (addText h cl cfg txt fSize fStyle indent st)"
  by (simp add: addText_def linv_forEach)

lemma linv_addBulletPoints [simp]:
  "linv M cfg st \<Longrightarrow> linv M cfg (addBulletPoints h cfg txt indent showBullets st)"
  by (simp add: addBulletPoints_def linv_forEach Let_def)

lemma linv_embed [simp]: "linv M cfg st \<Longrightarrow> linv M cfg (embedJobDescription cl cfg jd st)"
  by (simp add: embedJobDescription_def linv_forEachIndexed)

lemma linv_header [simp]: "linv M cfg st \<Longrightarrow> linv M cfg (headerSection h cl cfg r st)"
  by (simp add: headerSection_def Let_def)

lemma linv_summary [simp]: "linv M cfg st \<Longrightarrow> linv M cfg (summarySection h cl cfg r st)"
  by (simp add: summarySection_def Let_def)

lemma linv_experience [simp]: "linv M cfg st \<Longrightarrow> linv M cfg (experienceSection h cl cfg r st)"
  by (simp add: experienceSection_def Let_def linv_forEachIndexed)

lemma linv_projects [simp]: "linv M cfg st \<Longrightarrow> linv M cfg (projectsSection h cl cfg title r st)"
  by (simp add: projectsSection_def Let_def linv_forEachIndexed)

lemma linv_certifications [simp]:
  "linv M cfg st \<Longrightarrow> linv M cfg (certificationsSection h cl cfg title r st)"
  by (simp add: certificationsSection_def Let_def linv_forEachIndexed)


lemma yPosition_same [simp]:
  "yPosition (draw op st) = yPosition st"
  "yPosition (textAt s x y st) = yPosition st"
  "yPosition (textHere s x st) = yPosition st"
  "yPosition (setFontSize sz st) = yPosition st"
  "yPosition (setFont style st) = yPosition st"
  by (simp_all add: draw_def textAt_def textHere_def setFontSize_def setFont_def)

text \<open>The coursework columns keep their own cursors; the page cursor stays at or above its start.\<close>

lemma courseColumn_inv:
  assumes "linv M cfg st" and "yPosition st \<le> startY" and "startY \<le> c" and "margin cfg \<le> startY"
  shows "(case courseColumn h cfg w x courses (st, c) of
            (st', c') \<Rightarrow> linv M cfg st' \<and> yPosition st' \<le> startY \<and> startY \<le> c')"
proof -
  let ?Q = "\<lambda>(st, c). linv M cfg st \<and> yPosition st \<le> startY \<and> startY \<le> c"
  have inner: "?Q (forEachIndexed ls
        (\<lambda>lineIndex line (st, y). (textAt line x y st, if lineIndex < n then y + (4 - 1) else y))
        (s, y))"
    if "?Q (s, y)" for ls n s y
    unfolding forEachIndexed_def using that
    by (intro fold_inv [where P = ?Q]) auto
  have brk: "yPosition (pageBreak cfg 5 s) \<le> startY" if "yPosition s \<le> startY" for s
    using that assms(4) by (simp add: pageBreak_def checkPageBreak_def draw_def)
  have "?Q (courseColumn h cfg w x courses (st, c))"
    unfolding courseColumn_def forEach_def
  proof (rule fold_inv [where P = ?Q])
    show "?Q (st, c)" using assms by simp
  next
    fix course and s :: "lstate \<times> real"
    assume q: "?Q s"
    obtain s0 c0 where s: "s = (s0, c0)" by (cases s)
    with q have q0: "linv M cfg s0" "yPosition s0 \<le> startY" "startY \<le> c0" by auto
    let ?s1 = "pageBreak cfg 5 s0"
    have q1: "?Q (?s1, c0)" using q0 brk by simp
    let ?ls = "splitTextToSize h (curFont ?s1) ([8226, 32] @ course) w"
    obtain s2 c2 where r: "forEachIndexed ?ls
        (\<lambda>lineIndex line (st, y). (textAt line x y st, if lineIndex < length ?ls - 1 then y + (4 - 1) else y))
        (?s1, c0) = (s2, c2)"
      by (cases "forEachIndexed ?ls
        (\<lambda>lineIndex line (st, y). (textAt line x y st, if lineIndex < length ?ls - 1 then y + (4 - 1) else y))
        (?s1, c0)")
    from inner [OF q1, of ?ls "length ?ls - 1"] r have "?Q (s2, c2)" by simp
    then show "?Q (case s of (st, columnY) \<Rightarrow>
          let st = pageBreak cfg 5 st;
              wrappedLines = splitTextToSize h (curFont st) ([0x2022, 0x20] @ course) w
          in (case forEachIndexed wrappedLines
                     (\<lambda>lineIndex line (st, y).
                        (textAt line x y st,
                         if lineIndex < length wrappedLines - 1 then y + (4 - 1) else y))
                     (st, columnY)
              of (st, y) \<Rightarrow> (st, y + 4)))"
      using r by (simp add: s Let_def)
  qed
  then show ?thesis by (simp add: case_prod_beta)
qed

lemma linv_coursesBlock [simp]: "linv M cfg st \<Longrightarrow> linv M cfg (coursesBlock h cfg txt st)"
proof -
  assume a: "linv M cfg st"
  let ?s = "setFontSize 8.5 (setFont ''normal'' (advance 6 (draw
      (DLine (margin cfg) (yPosition (textHere (js ''Relevant Coursework'') (margin cfg)
                 (setFont ''bold'' (setFontSize 10 (advance 3 st)))) + 1)
         (margin cfg + getTextWidth h (curFont (textHere (js ''Relevant Coursework'') (margin cfg)
                 (setFont ''bold'' (setFontSize 10 (advance 3 st))))) (js ''Relevant Coursework''))
         (yPosition (textHere (js ''Relevant Coursework'') (margin cfg)
                 (setFont ''bold'' (setFontSize 10 (advance 3 st)))) + 1))
      (textHere (js ''Relevant Coursework'') (margin cfg)
                 (setFont ''bold'' (setFontSize 10 (advance 3 st)))))))"
  have s: "linv M cfg ?s" using a by simp
  then have m: "margin cfg \<le> yPosition ?s" by (simp add: linv_def)
  define cs where "cs = sortBy lexLe (filter (\<lambda>course. length course > 0) (map trim (splitOn 0x2C txt)))"
  define w where "w = (pageWidth cfg - 2 * margin cfg - 16) / 2 - 10"
  define mid where "mid = (length cs + 1) div 2"
  obtain s1 c1 where r1: "courseColumn h cfg w (margin cfg + 8) (take mid cs) (?s, yPosition ?s) = (s1, c1)"
    by (cases "courseColumn h cfg w (margin cfg + 8) (take mid cs) (?s, yPosition ?s)")
  from courseColumn_inv [OF s order_refl order_refl m, of h w "margin cfg + 8" "take mid cs"] r1
  have q1: "linv M cfg s1" "yPosition s1 \<le> yPosition ?s" "yPosition ?s \<le> c1" by auto
  obtain s2 c2 where r2: "courseColumn h cfg w (margin cfg + 8 + w + 20) (drop mid cs) (s1, yPosition ?s) = (s2, c2)"
    by (cases "courseColumn h cfg w (margin cfg + 8 + w + 20) (drop mid cs) (s1, yPosition ?s)")
  from courseColumn_inv [OF q1(1) q1(2) order_refl m, of h w "margin cfg + 8 + w + 20" "drop mid cs"] r2
  have q2: "linv M cfg s2" "yPosition s2 \<le> yPosition ?s" "yPosition ?s \<le> c2" by auto
  have "linv M cfg (setY (max c1 c2 + 2) s2)"
    using q2 by (intro linv_setY) auto
  then show ?thesis
    using r1 r2 by (simp add: coursesBlock_def Let_def cs_def w_def mid_def)
qed

lemma linv_education [simp]: "linv M cfg st \<Longrightarrow> linv M cfg (educationSection h cfg r st)"
  by (simp add: educationSection_def Let_def linv_forEachIndexed linv_forEach)

lemma linv_renderSkillsHorizontally [simp]:
  "linv M cfg st \<Longrightarrow> linv M cfg (renderSkillsHorizontally h cfg names st)"
  by (simp add: renderSkillsHorizontally_def Let_def linv_forEach)

lemma yPosition_pageBreak_le:
  "margin cfg \<le> b \<Longrightarrow> yPosition st \<le> b \<Longrightarrow> yPosition (pageBreak cfg r st) \<le> b"
  by (simp add: pageBreak_def checkPageBreak_def draw_def)

lemma languageColumn_inv:
  assumes "languageColumn h cfg col x w ls (st, c) = Inr (st', c')"
    and "linv M cfg st" and "yPosition st \<le> startY" and "margin cfg \<le> startY"
  shows "linv M cfg st' \<and> yPosition st' \<le> startY"
  using assms
proof (induction ls arbitrary: st c)
  case Nil
  then show ?case by simp
next
  case (Cons l ls)
  obtain name proficiency where l: "l = (name, proficiency)" by (cases l)
  let ?s1 = "draw (DCircle x (c - 1) 0.8) (onlyIf (col = 0) (pageBreak cfg 4) st)"
  have a: "linv M cfg ?s1" using Cons.prems by simp
  have b: "yPosition ?s1 \<le> startY"
    using Cons.prems by (simp add: onlyIf_def yPosition_pageBreak_le)
  show ?case
  proof (cases "splitTextToSize h (curFont ?s1) (name @ js '' ('' @ proficiency @ js '')'') (w - 6)")
    case Nil
    with Cons.prems(1) show ?thesis by (simp add: l Let_def)
  next
    case (Cons line others)
    with Cons.prems(1)
    have "languageColumn h cfg col x w ls (textAt line (x + 4) c ?s1, c + 4) = Inr (st', c')"
      by (simp add: l Let_def)
    then show ?thesis
      using a b Cons.prems(4)
      by (intro Cons.IH [of "textAt line (x + 4) c ?s1" "c + 4"]) simp_all
  qed
qed

lemma languageColumns_inv:
  assumes "languageColumns h cfg langs startY cols (st, m) = Inr (st', m')"
    and "linv M cfg st" and "yPosition st \<le> startY" and "margin cfg \<le> startY" and "0 \<le> m"
  shows "linv M cfg st' \<and> yPosition st' \<le> startY \<and> 0 \<le> m'"
  using assms
proof (induction cols arbitrary: st m)
  case Nil
  then show ?case by simp
next
  case (Cons col cols)
  define ipc where "ipc = (length langs + 2) div 3"
  define cl where "cl = take (min (col * ipc + ipc) (length langs) - col * ipc) (drop (col * ipc) langs)"
  define w where "w = (pageWidth cfg - 2 * margin cfg - 6 - (3 - 1) * 20) / 3"
  define x where "x = margin cfg + 6 + real col * (w + 20)"
  show ?case
  proof (cases "cl = []")
    case True
    with Cons.prems(1) have "languageColumns h cfg langs startY cols (st, m) = Inr (st', m')"
      by (simp add: Let_def cl_def ipc_def)
    then show ?thesis using Cons.prems by (intro Cons.IH [of st m]) simp_all
  next
    case False
    show ?thesis
    proof (cases "languageColumn h cfg col x w cl (st, startY)")
      case (Inl e)
      with False Cons.prems(1) show ?thesis
        by (simp add: Let_def cl_def ipc_def w_def x_def)
    next
      case (Inr res)
      obtain s1 c1 where res: "res = (s1, c1)" by (cases res)
      from Inr res Cons.prems have q: "linv M cfg s1 \<and> yPosition s1 \<le> startY"
        by (intro languageColumn_inv [of h cfg col x w cl st startY s1 c1]) simp_all
      from False Inr res Cons.prems(1)
      have "languageColumns h cfg langs startY cols (s1, max m (c1 - startY)) = Inr (st', m')"
        by (simp add: Let_def cl_def ipc_def w_def x_def)
      then show ?thesis
        using q Cons.prems by (intro Cons.IH [of s1 "max m (c1 - startY)"]) simp_all
    qed
  qed
qed

lemma linv_languages:
  assumes "languagesSection h cfg r st = Inr st'" and "linv M cfg st"
  shows "linv M cfg st'"
proof (cases "length (languages r) > 0")
  case False
  with assms show ?thesis by (simp add: languagesSection_def)
next
  case True
  let ?s = "steps [addSectionHeader h cfg (js ''Languages''), setFontSize 10, setFont ''normal''] st"
  define langs where "langs = sortBy (\<lambda>a b. localeLe h (fst a) (fst b))
               (filter (\<lambda>(name, proficiency). name \<noteq> [] \<and> proficiency \<noteq> [])
                 (map (\<lambda>lang. (cleanText h (ofOpt (lang_language lang)),
                               cleanText h (ofOpt (lang_proficiency lang)))) (languages r)))"
  have s: "linv M cfg ?s" using assms(2) by simp
  then have m: "margin cfg \<le> yPosition ?s" by (simp add: linv_def)
  show ?thesis
  proof (cases "length langs \<le> 3")
    case True
    with \<open>length (languages r) > 0\<close> assms(1)
    have "st' = steps
                [forEach langs
                   (\<lambda>(name, proficiency). steps
                      [pageBreak cfg 4,
                       (\<lambda>st. draw (DCircle (margin cfg + 6) (yPosition st - 1) 0.8) st),
                       textHere (name @ js '' ('' @ proficiency @ js '')'') (margin cfg + 6 + 4),
                       advance 4]),
                 advance 3] ?s"
      by (simp add: languagesSection_def Let_def langs_def)
    then show ?thesis
      using s by (simp add: linv_forEach case_prod_beta)
  next
    case False
    show ?thesis
    proof (cases "languageColumns h cfg langs (yPosition ?s) [0, 1, 2] (?s, 0)")
      case (Inl e)
      with False \<open>length (languages r) > 0\<close> assms(1) show ?thesis
        by (simp add: languagesSection_def Let_def langs_def del: languageColumns.simps)
    next
      case (Inr res)
      obtain s1 m1 where res: "res = (s1, m1)" by (cases res)
      from Inr res s m have q: "linv M cfg s1 \<and> yPosition s1 \<le> yPosition ?s \<and> 0 \<le> m1"
        by (intro languageColumns_inv [of h cfg langs "yPosition ?s" "[0, 1, 2]" ?s 0 s1 m1]) simp_all
      from False Inr res \<open>length (languages r) > 0\<close> assms(1)
      have "st' = advance 3 (setY (yPosition ?s + m1) s1)"
        by (simp add: languagesSection_def Let_def langs_def del: languageColumns.simps)
      moreover have "linv M cfg (setY (yPosition ?s + m1) s1)"
        using q by (intro linv_setY) auto
      ultimately show ?thesis by simp
    qed
  qed
qed

lemma linv_justifiedLine [simp]: "linv M cfg st \<Longrightarrow> linv M cfg (justifiedLine h cfg ws st)"
proof -
  assume a: "linv M cfg st"
  have "linv M cfg (fst (forEachIndexed ws body (st, x0)))"
    if "\<And>i w s x. fst (body i w (s, x)) = textHere w x s" for body :: "nat \<Rightarrow> jsstring \<Rightarrow> lstate \<times> real \<Rightarrow> lstate \<times> real" and x0
    unfolding forEachIndexed_def
  proof (rule fold_inv [where P = "\<lambda>p. linv M cfg (fst p)"])
    show "linv M cfg (fst (st, x0))" using a by simp
  next
    fix ix :: "nat \<times> jsstring" and p :: "lstate \<times> real"
    assume "linv M cfg (fst p)"
    then show "linv M cfg (fst ((case ix of (i, x) \<Rightarrow> body i x) p))"
      using that [of "fst ix" "snd ix" "fst p" "snd p"] by (simp add: case_prod_beta)
  qed
  then show ?thesis
    by (simp add: justifiedLine_def Let_def)
qed

lemma linv_interests [simp]: "linv M cfg st \<Longrightarrow> linv M cfg (interestsSection h cfg lay r st)"
  by (cases lay) (simp_all add: interestsSection_def Let_def linv_forEachIndexed)

lemma linv_references [simp]: "linv M cfg st \<Longrightarrow> linv M cfg (referencesSection h cfg r st)"
  by (simp add: referencesSection_def Let_def linv_forEachIndexed linv_forEach)

subsection \<open>The two columns of skills\<close>

lemma yPosition_assign [simp]:
  "yPosition (setY v st) = v"
  "yPosition (advance d st) = yPosition st + d"
  "yPosition (setBack v st) = v"
  by (simp_all add: setY_def advance_def setBack_def)

text \<open>One column: the cursor ends at most one line height per skill below the top of the columns.\<close>

lemma skillColumn_inv:
  assumes "linv M cfg st" and "margin cfg \<le> startY" and "0 \<le> c" and "yPosition st \<le> startY + c"
  shows "linv M cfg (forEach xs
           (\<lambda>skill. steps [pageBreak cfg 4.5, textHere (g skill) x, advance 4.5]) st)
       \<and> yPosition (forEach xs
           (\<lambda>skill. steps [pageBreak cfg 4.5, textHere (g skill) x, advance 4.5]) st)
         \<le> startY + c + 4.5 * real (length xs)"
  using assms
proof (induction xs arbitrary: st c)
  case Nil
  then show ?case by simp
next
  case (Cons skill xs)
  let ?s = "advance 4.5 (textHere (g skill) x (pageBreak cfg 4.5 st))"
  have a: "linv M cfg ?s" using Cons.prems(1) by simp
  have "yPosition (pageBreak cfg 4.5 st) \<le> startY + c"
    using Cons.prems by (intro yPosition_pageBreak_le) simp_all
  then have b: "yPosition ?s \<le> startY + (c + 4.5)" by simp
  have "0 \<le> c + 4.5" using Cons.prems(3) by simp
  from Cons.IH [OF a Cons.prems(2) this b] show ?case
    by (simp add: field_simps)
qed

text \<open>
  The renderer of the two columns takes the cursor back once, by the assignment between
  the columns; every other step of it goes forward or starts a page.
\<close>

lemma linv_renderSkillsInColumns:
  assumes "linv M cfg st"
  shows "\<exists>k. linv (M @ [k]) cfg (renderSkillsInColumns cfg names st)"
proof -
  define mid where "mid = (length names + 1) div 2"
  define X where "X = margin cfg + 6 + (pageWidth cfg - 2 * margin cfg - 6) / 2 + 20"
  define startY where "startY = yPosition st"
  let ?col = "\<lambda>x xs. forEach xs
      (\<lambda>skill. steps [pageBreak cfg 4.5, textHere ([0x2022, 0x20] @ skill) x, advance 4.5])"
  let ?s1 = "?col (margin cfg + 6) (take mid names) st"
  let ?s2 = "setBack startY ?s1"
  let ?s3 = "?col X (drop mid names) ?s2"
  have m: "margin cfg \<le> startY"
    using assms by (simp add: linv_def startY_def)
  have 1: "linv M cfg ?s1"
    using skillColumn_inv [where c = 0 and g = "\<lambda>skill. [0x2022, 0x20] @ skill"
        and x = "margin cfg + 6" and xs = "take mid names", OF assms m]
    by (simp add: startY_def)
  then have 2: "linv (M @ [length (cursorLog ?s1)]) cfg ?s2"
    using m by (rule linv_setBack)
  have 3: "linv (M @ [length (cursorLog ?s1)]) cfg ?s3"
    and y: "yPosition ?s3 \<le> startY + 0 + 4.5 * real (length (drop mid names))"
    using skillColumn_inv [where c = 0 and g = "\<lambda>skill. [0x2022, 0x20] @ skill" and x = X
        and xs = "drop mid names", OF 2 m]
    by simp_all
  have "yPosition ?s3
      \<le> startY + real (max (length (take mid names)) (length (drop mid names))) * 4.5"
    using y by (simp add: max_def)
  with 3 have "linv (M @ [length (cursorLog ?s1)]) cfg
      (setY (startY + real (max (length (take mid names)) (length (drop mid names))) * 4.5) ?s3)"
    by (rule linv_setY)
  then have "linv (M @ [length (cursorLog ?s1)]) cfg (renderSkillsInColumns cfg names st)"
    by (simp add: renderSkillsInColumns_def Let_def mid_def X_def startY_def)
  then show ?thesis ..
qed

lemma linv_skills:
  assumes "linv M cfg st"
  shows "\<exists>M'. linv M' cfg (skillsSection h cfg r st)
           \<and> length M' = length M + (if 4 \<le> length (skillsArray h (skills r)) then 1 else 0)"
proof (cases "4 \<le> length (skillsArray h (skills r))")
  case False
  with assms have "linv M cfg (skillsSection h cfg r st)"
    by (simp add: skillsSection_def Let_def minSkillsForColumns_def)
  with False show ?thesis by auto
next
  case True
  have "length (skillsArray h (skills r)) \<le> length (skills r)"
    unfolding skillsArray_def length_sortBy length_map
    by (rule order_trans [OF length_filter_le]) simp
  with True have ne: "skills r \<noteq> []" by auto
  let ?s = "setFont ''normal'' (setFontSize 10
      (addSectionHeader h cfg (js ''Core Competencies & Technical Skills'') st))"
  have "linv M cfg ?s" using assms by simp
  then obtain k where "linv (M @ [k]) cfg (renderSkillsInColumns cfg (skillsArray h (skills r)) ?s)"
    using linv_renderSkillsInColumns by blast
  then have "linv (M @ [k]) cfg (skillsSection h cfg r st)"
    using True ne by (auto simp: skillsSection_def Let_def minSkillsForColumns_def onlyIf_def)
  with True show ?thesis by auto
qed

subsection \<open>The whole export\<close>

lemma export_inv:
  assumes "generateTextPDF h (Some r) filename jobDescription = Inr st"
  shows "\<exists>M. linv M (mkConfig (pageSizeWidth h) (pageSizeHeight h)) st
           \<and> length M = (if 4 \<le> length (skillsArray h (skills r)) then 1 else 0)"
proof -
  define cfg where "cfg = mkConfig (pageSizeWidth h) (pageSizeHeight h)"
  let ?a = "steps
     [embedJobDescription (cleanText h) cfg jobDescription,
      headerSection h (cleanText h) cfg r,
      summarySection h (cleanText h) cfg r,
      experienceSection h (cleanText h) cfg r,
      educationSection h cfg r]
     (initState cfg)"
  have "linv [] cfg ?a"
    by (simp add: linv_init)
  then obtain M where M: "linv M cfg (skillsSection h cfg r ?a)"
    and len: "length M = (if 4 \<le> length (skillsArray h (skills r)) then 1 else 0)"
    using linv_skills [of "[]" cfg ?a h r] by auto
  let ?b = "steps
     [projectsSection h (cleanText h) cfg (js '' Projects'') r,
      certificationsSection h (cleanText h) cfg (js '' Certifications'') r]
     (skillsSection h cfg r ?a)"
  have b: "linv M cfg ?b"
    using M by simp
  show ?thesis
  proof (cases "languagesSection h cfg r ?b")
    case (Inl e)
    with assms show ?thesis
      by (simp add: generateTextPDF_def Let_def cfg_def)
  next
    case (Inr s1)
    then have "linv M cfg s1" using b by (rule linv_languages)
    moreover from Inr assms
    have "st = steps [interestsSection h cfg LLeft r, referencesSection h cfg r,
      draw (DSave filename)] s1"
      by (simp add: generateTextPDF_def Let_def cfg_def)
    ultimately have "linv M cfg st" by simp
    with len show ?thesis unfolding cfg_def by blast
  qed
qed

subsection \<open>The plain exporter\<close>

text \<open>
  The step back after the description of an education entry, with the step forward that
  follows it.
\<close>

lemma backward_snoc2:
  "backward i (l @ [a, b]) =
     backward i (l @ [a]) @ (if \<not> stepOk a b then [i + length l + 1] else [])"
  using backward_snoc [of i "l @ [a]" b] by simp

lemma linv_retreat_advance:
  assumes "linv M cfg st" and "0 \<le> e" and "e \<le> d"
  shows "linv (M @ [length (cursorLog st)]) cfg (advance d (retreat e st))"
  using assms
  by (auto simp: linv_def retreat_def setBack_def advance_def setY_def backward_snoc2
      backward_snoc stepOk_def)

lemma fold_enumerate_count:
  assumes "\<And>i x s M. linv M cfg s \<Longrightarrow>
      \<exists>M'. linv M' cfg (body i x s) \<and> length M' = length M + (if c x then 1 else 0)"
    and "linv M cfg st"
  shows "\<exists>M'. linv M' cfg (fold (\<lambda>(i, x). body i x) (List.enumerate n xs) st)
           \<and> length M' = length M + length (filter c xs)"
  using assms(2)
proof (induction xs arbitrary: n st M)
  case Nil
  then show ?case by auto
next
  case (Cons x xs)
  from assms(1) [OF Cons.prems, of n x] obtain M1
    where 1: "linv M1 cfg (body n x st)" and l1: "length M1 = length M + (if c x then 1 else 0)"
    by blast
  from Cons.IH [OF 1, of "Suc n"] obtain M2
    where 2: "linv M2 cfg (fold (\<lambda>(i, x). body i x) (List.enumerate (Suc n) xs) (body n x st))"
      and l2: "length M2 = length M1 + length (filter c xs)"
    by blast
  from 2 l1 l2 show ?case by auto
qed

lemma forEachIndexed_count:
  assumes "\<And>i x s M. linv M cfg s \<Longrightarrow>
      \<exists>M'. linv M' cfg (body i x s) \<and> length M' = length M + (if c x then 1 else 0)"
    and "linv M cfg st"
  shows "\<exists>M'. linv M' cfg (forEachIndexed xs body st)
           \<and> length M' = length M + length (filter c xs)"
  unfolding forEachIndexed_def using assms by (rule fold_enumerate_count)

lemma linv_education2:
  assumes "linv M cfg st"
  shows "\<exists>M'. linv M' cfg (educationSection2 h cfg r st)
           \<and> length M' = length M
               + length (filter (\<lambda>edu. truthyS (edu_description edu)) (educations r))"
proof (cases "length (educations r) > 0")
  case False
  with assms show ?thesis by (auto simp: educationSection2_def onlyIf_def)
next
  case True
  have s: "linv M cfg (addSectionHeader h cfg (js ''Education'') st)"
    using assms by simp
  have "\<exists>M'. linv M' cfg
          (forEachIndexed (educations r)
             (\<lambda>eduIndex edu. steps
                [pageBreak cfg 12,
                 setFontSize 11,
                 setFont ''bold'',
                 textHere (cleanText2 (JStr (orElse (edu_degree edu) (js ''Degree'')))) (margin cfg),
                 onlyIf (truthyS (edu_startDate edu) \<or> truthyS (edu_endDate edu))
                   (\<lambda>st.
                      let startDate = formatDate h (edu_startDate edu) False;
                          endDate = formatDate h (edu_endDate edu) True;
                          dateInfo = (if startDate \<noteq> [] then startDate @ dashSep @ endDate else endDate);
                          dateWidth = getTextWidth h (curFont st) dateInfo
                      in steps
                           [setFont ''normal'',
                            textHere dateInfo (pageWidth cfg - margin cfg - dateWidth)] st),
                 advance 4,
                 setFontSize 10,
                 setFont ''italic'',
                 textHere (cleanText2 (JStr (orElse (edu_school edu) (js ''School'')))) (margin cfg),
                 advance 3,
                 (let locationGPA = pushClean cleanText2
                        [([], edu_location edu), (js ''GPA: '', edu_gpa edu)]
                  in onlyIf (length locationGPA > 0)
                       (steps
                          [setFontSize 8,
                           setFont ''normal'',
                           textHere (joinWith bulletSep locationGPA) (margin cfg),
                           advance 3])),
                 onlyIf (truthyS (edu_description edu))
                   (steps
                      [advance 1,
                       addBulletPoints h cfg (val (edu_description edu)) 6 True,
                       retreat 1]),
                 advance (if eduIndex < length (educations r) - 1 then 3 else 5)])
             (addSectionHeader h cfg (js ''Education'') st))
        \<and> length M' = length M
            + length (filter (\<lambda>edu. truthyS (edu_description edu)) (educations r))"
  proof (rule forEachIndexed_count [OF _ s])
    fix i :: nat and edu :: education and s :: lstate and N :: "nat list"
    assume inv: "linv N cfg s"
    define d :: real where "d = (if i < length (educations r) - 1 then 3 else 5)"
    have d: "1 \<le> d" "0 \<le> d" by (simp_all add: d_def)
    let ?s1 = "steps
                [pageBreak cfg 12,
                 setFontSize 11,
                 setFont ''bold'',
                 textHere (cleanText2 (JStr (orElse (edu_degree edu) (js ''Degree'')))) (margin cfg),
                 onlyIf (truthyS (edu_startDate edu) \<or> truthyS (edu_endDate edu))
                   (\<lambda>st.
                      let startDate = formatDate h (edu_startDate edu) False;
                          endDate = formatDate h (edu_endDate edu) True;
                          dateInfo = (if startDate \<noteq> [] then startDate @ dashSep @ endDate else endDate);
                          dateWidth = getTextWidth h (curFont st) dateInfo
                      in steps
                           [setFont ''normal'',
                            textHere dateInfo (pageWidth cfg - margin cfg - dateWidth)] st),
                 advance 4,
                 setFontSize 10,
                 setFont ''italic'',
                 textHere (cleanText2 (JStr (orElse (edu_school edu) (js ''School'')))) (margin cfg),
                 advance 3,
                 (let locationGPA = pushClean cleanText2
                        [([], edu_location edu), (js ''GPA: '', edu_gpa edu)]
                  in onlyIf (length locationGPA > 0)
                       (steps
                          [setFontSize 8,
                           setFont ''normal'',
                           textHere (joinWith bulletSep locationGPA) (margin cfg),
                           advance 3]))] s"
    have 1: "linv N cfg ?s1"
      using inv by (simp add: Let_def)
    show "\<exists>M'. linv M' cfg
          (steps
                [pageBreak cfg 12,
                 setFontSize 11,
                 setFont ''bold'',
                 textHere (cleanText2 (JStr (orElse (edu_degree edu) (js ''Degree'')))) (margin cfg),
                 onlyIf (truthyS (edu_startDate edu) \<or> truthyS (edu_endDate edu))
                   (\<lambda>st.
                      let startDate = formatDate h (edu_startDate edu) False;
                          endDate = formatDate h (edu_endDate edu) True;
                          dateInfo = (if startDate \<noteq> [] then startDate @ dashSep @ endDate else endDate);
                          dateWidth = getTextWidth h (curFont st) dateInfo
                      in steps
                           [setFont ''normal'',
                            textHere dateInfo (pageWidth cfg - margin cfg - dateWidth)] st),
                 advance 4,
                 setFontSize 10,
                 setFont ''italic'',
                 textHere (cleanText2 (JStr (orElse (edu_school edu) (js ''School'')))) (margin cfg),
                 advance 3,
                 (let locationGPA = pushClean cleanText2
                        [([], edu_location edu), (js ''GPA: '', edu_gpa edu)]
                  in onlyIf (length locationGPA > 0)
                       (steps
                          [setFontSize 8,
                           setFont ''normal'',
                           textHere (joinWith bulletSep locationGPA) (margin cfg),
                           advance 3])),
                 onlyIf (truthyS (edu_description edu))
                   (steps
                      [advance 1,
                       addBulletPoints h cfg (val (edu_description edu)) 6 True,
                       retreat 1]),
                 advance (if i < length (educations r) - 1 then 3 else 5)] s)
        \<and> length M' = length N + (if truthyS (edu_description edu) then 1 else 0)"
    proof (cases "truthyS (edu_description edu)")
      case False
      have "linv N cfg (advance d ?s1)" using 1 d by simp
      with False show ?thesis
        by (intro exI [of _ N]) (simp add: onlyIf_def d_def Let_def)
    next
      case True
      let ?s2 = "addBulletPoints h cfg (val (edu_description edu)) 6 True (advance 1 ?s1)"
      have "linv N cfg ?s2" using 1 by simp
      then have "linv (N @ [length (cursorLog ?s2)]) cfg (advance d (retreat 1 ?s2))"
        using d by (intro linv_retreat_advance) simp_all
      with True show ?thesis
        by (intro exI [of _ "N @ [length (cursorLog ?s2)]"]) (simp add: onlyIf_def d_def Let_def)
    qed
  qed
  with True show ?thesis
    by (simp add: educationSection2_def onlyIf_def)
qed

lemma linv_skillsBody2 [simp]: "linv M cfg st \<Longrightarrow> linv M cfg (skillsBody2 h cfg names st)"
  by (simp add: skillsBody2_def linv_forEach)

lemma linv_languages2 [simp]: "linv M cfg st \<Longrightarrow> linv M cfg (languagesSection2 h cfg r st)"
  by (simp add: languagesSection2_def linv_forEach)

lemma linv_interests2 [simp]: "linv M cfg st \<Longrightarrow> linv M cfg (interestsSection2 h cfg r st)"
  by (simp add: interestsSection2_def linv_forEach)

lemma linv_references2 [simp]: "linv M cfg st \<Longrightarrow> linv M cfg (referencesSection2 h cfg r st)"
  by (simp add: referencesSection2_def Let_def linv_forEachIndexed)

lemma export2_inv:
  assumes "generateTextPDF2 h (Some r) filename jobDescription = Inr st"
  shows "\<exists>M. linv M (mkConfig (pageSizeWidth h) (pageSizeHeight h)) st
           \<and> length M = length (filter (\<lambda>edu. truthyS (edu_description edu)) (educations r))"
proof -
  define cfg where "cfg = mkConfig (pageSizeWidth h) (pageSizeHeight h)"
  let ?a = "steps
     [embedJobDescription cleanText2 cfg jobDescription,
      headerSection h cleanText2 cfg r,
      summarySection h cleanText2 cfg r,
      experienceSection h cleanText2 cfg r]
     (initState cfg)"
  have "linv [] cfg ?a"
    by (simp add: linv_init)
  then obtain M where M: "linv M cfg (educationSection2 h cfg r ?a)"
    and len: "length M = length (filter (\<lambda>edu. truthyS (edu_description edu)) (educations r))"
    using linv_education2 [of "[]" cfg ?a h r] by auto
  have "linv M cfg st"
    using assms M
    by (auto simp: generateTextPDF2_def Let_def cfg_def split: if_splits sum.splits)
  with len show ?thesis unfolding cfg_def by blast
qed
section \<open>The export returns\<close>

lemma languageColumn_returns:
  assumes "\<And>f s w. splitTextToSize h f s w \<noteq> []"
  shows "\<exists>res. languageColumn h cfg col x w ls (st, c) = Inr res"
proof (induction ls arbitrary: st c)
  case Nil
  show ?case by simp
next
  case (Cons l ls)
  obtain name proficiency where l: "l = (name, proficiency)" by (cases l)
  let ?s1 = "draw (DCircle x (c - 1) 0.8) (onlyIf (col = 0) (pageBreak cfg 4) st)"
  obtain line others
    where sp: "splitTextToSize h (curFont ?s1) (name @ js '' ('' @ proficiency @ js '')'') (w - 6)
                 = line # others"
    using assms [of "curFont ?s1" "name @ js '' ('' @ proficiency @ js '')''" "w - 6"]
    by (auto simp: neq_Nil_conv)
  from Cons.IH [of "textAt line (x + 4) c ?s1" "c + 4"] sp show ?case
    by (simp add: l Let_def)
qed

lemma languageColumns_returns:
  assumes "\<And>f s w. splitTextToSize h f s w \<noteq> []"
  shows "\<exists>res. languageColumns h cfg langs startY cols (st, m) = Inr res"
proof (induction cols arbitrary: st m)
  case Nil
  show ?case by simp
next
  case (Cons col cols)
  define ipc where "ipc = (length langs + 2) div 3"
  define cl where "cl = take (min (col * ipc + ipc) (length langs) - col * ipc) (drop (col * ipc) langs)"
  define w where "w = (pageWidth cfg - 2 * margin cfg - 6 - (3 - 1) * 20) / 3"
  define x where "x = margin cfg + 6 + real col * (w + 20)"
  show ?case
  proof (cases "cl = []")
    case True
    with Cons.IH [of st m] show ?thesis
      by (simp add: Let_def cl_def ipc_def)
  next
    case False
    obtain s1 c1 where r: "languageColumn h cfg col x w cl (st, startY) = Inr (s1, c1)"
      using languageColumn_returns [OF assms, of cfg col x w cl st startY] by auto
    with False Cons.IH [of s1 "max m (c1 - startY)"] show ?thesis
      by (simp add: Let_def cl_def ipc_def w_def x_def)
  qed
qed

lemma languagesSection_returns:
  assumes "length (languages r) \<le> 3 \<or> (\<forall>f s w. splitTextToSize h f s w \<noteq> [])"
  shows "\<exists>st'. languagesSection h cfg r st = Inr st'"
proof -
  let ?s = "steps [addSectionHeader h cfg (js ''Languages''), setFontSize 10, setFont ''normal''] st"
  define langs where "langs = sortBy (\<lambda>a b. localeLe h (fst a) (fst b))
               (filter (\<lambda>(name, proficiency). name \<noteq> [] \<and> proficiency \<noteq> [])
                 (map (\<lambda>lang. (cleanText h (ofOpt (lang_language lang)),
                               cleanText h (ofOpt (lang_proficiency lang)))) (languages r)))"
  have len: "length langs \<le> length (languages r)"
    unfolding langs_def length_sortBy
    by (rule order_trans [OF length_filter_le]) simp
  show ?thesis
  proof (cases "length langs \<le> 3")
    case True
    then show ?thesis
      by (simp add: languagesSection_def Let_def langs_def del: languageColumns.simps)
  next
    case False
    with len assms have sp: "\<And>f s w. splitTextToSize h f s w \<noteq> []" by auto
    obtain res where "languageColumns h cfg langs (yPosition ?s) [0, 1, 2] (?s, 0) = Inr res"
      using languageColumns_returns [OF sp, of cfg langs "yPosition ?s" "[0, 1, 2]" ?s 0] by auto
    with False show ?thesis
      by (cases res) (simp add: languagesSection_def Let_def langs_def del: languageColumns.simps)
  qed
qed

lemma generateTextPDF_returns:
  assumes "length (languages r) \<le> 3 \<or> (\<forall>f s w. splitTextToSize h f s w \<noteq> [])"
  shows "\<exists>st. generateTextPDF h (Some r) filename jobDescription = Inr st"
proof -
  define cfg where "cfg = mkConfig (pageSizeWidth h) (pageSizeHeight h)"
  obtain s1 where "languagesSection h cfg r (steps
     [embedJobDescription (cleanText h) cfg jobDescription,
      headerSection h (cleanText h) cfg r,
      summarySection h (cleanText h) cfg r,
      experienceSection h (cleanText h) cfg r,
      educationSection h cfg r,
      skillsSection h cfg r,
      projectsSection h (cleanText h) cfg (js '' Projects'') r,
      certificationsSection h (cleanText h) cfg (js '' Certifications'') r]
     (initState cfg)) = Inr s1"
    using languagesSection_returns [OF assms] by blast
  then show ?thesis
    by (simp add: generateTextPDF_def Let_def cfg_def)
qed

lemma utcHost_page:
  "pageSizeWidth utcHost = 945007 / 4500" "pageSizeHeight utcHost = 3564001 / 12000"
  by (simp_all add: utcHost_def)

lemma export_five:
  "generateTextPDF utcHost (Some (janeDoe \<lparr> skills := fiveSkills \<rparr>)) fn None
     = Inr (draw (DSave fn) (skillsSection utcHost (mkConfig (pageSizeWidth utcHost) (pageSizeHeight utcHost))
         (janeDoe \<lparr> skills := fiveSkills \<rparr>)
         (headerSection utcHost (cleanText utcHost) (mkConfig (pageSizeWidth utcHost) (pageSizeHeight utcHost))
            (janeDoe \<lparr> skills := fiveSkills \<rparr>)
            (initState (mkConfig (pageSizeWidth utcHost) (pageSizeHeight utcHost))))))"
  by (simp add: generateTextPDF_def Let_def languagesSection_def embedJobDescription_def
      summarySection_def experienceSection_def educationSection_def projectsSection_def
      certificationsSection_def interestsSection_def referencesSection_def
      janeDoe_def emptyResume_def emptyPersonal_def personalField_def truthyS_def onlyIf_def)

lemma header_janeDoe:
  "cursorLog (headerSection h cl cfg (janeDoe \<lparr> skills := sk \<rparr>) st)
     = cursorLog st @ [(pageCount st, yPosition st + 10), (pageCount st, yPosition st + 16),
                       (pageCount st, yPosition st + 21)]"
  "pageCount (headerSection h cl cfg (janeDoe \<lparr> skills := sk \<rparr>) st) = pageCount st"
  "yPosition (headerSection h cl cfg (janeDoe \<lparr> skills := sk \<rparr>) st) = yPosition st + 21"
  "backLog (headerSection h cl cfg (janeDoe \<lparr> skills := sk \<rparr>) st) = backLog st"
  by (simp_all add: headerSection_def janeDoe_def emptyResume_def emptyPersonal_def personalField_def
      truthyS_def js_def onlyIf_def Let_def pushClean_def advance_def setY_def textHere_def textAt_def
      draw_def setFontSize_def setFont_def)

lemma skills_five_log:
  assumes "yPosition st = 36" and "pageCount st = 1"
  shows "cursorLog (skillsSection utcHost (mkConfig (945007 / 4500) (3564001 / 12000))
            (janeDoe \<lparr> skills := fiveSkills \<rparr>) st)
       = cursorLog st @ [(1, 39), (1, 44), (1, 48.5), (1, 53), (1, 57.5), (1, 44), (1, 48.5), (1, 53),
                         (1, 57.5), (1, 61.5)]"
proof -
  have ne: "fiveSkills \<noteq> []" by (simp add: fiveSkills_def)
  show ?thesis
  using assms ne
  by (simp add: skillsSection_def janeDoe_def emptyResume_def
      skillsArray_fiveSkills onlyIf_def Let_def minSkillsForColumns_def addSectionHeader_def
      renderSkillsInColumns_def pageBreak_def checkPageBreak_def mkConfig_def
      advance_def setBack_def setY_def textHere_def textAt_def draw_def setFontSize_def setFont_def)
qed

lemma skills_five_back:
  assumes "yPosition st = 36" and "pageCount st = 1"
  shows "backLog (skillsSection utcHost (mkConfig (945007 / 4500) (3564001 / 12000))
            (janeDoe \<lparr> skills := fiveSkills \<rparr>) st)
       = backLog st @ [length (cursorLog st) + 5]"
proof -
  have ne: "fiveSkills \<noteq> []" by (simp add: fiveSkills_def)
  show ?thesis
  using assms ne
  by (simp add: skillsSection_def janeDoe_def emptyResume_def
      skillsArray_fiveSkills onlyIf_def Let_def minSkillsForColumns_def addSectionHeader_def
      renderSkillsInColumns_def pageBreak_def checkPageBreak_def mkConfig_def
      advance_def setBack_def setY_def textHere_def textAt_def draw_def setFontSize_def setFont_def)
qed

text \<open>
  With five skills the two-column renderer draws the left column down to 57.5, then takes
  the cursor back to 44, the top of the columns, on the same page.
\<close>

lemma five_skills_log:
  "\<exists>st. generateTextPDF utcHost (Some (janeDoe \<lparr> skills := fiveSkills \<rparr>)) (js ''resume.pdf'') None = Inr st
      \<and> cursorLog st = [(1, 15), (1, 25), (1, 31), (1, 36), (1, 39), (1, 44), (1, 48.5), (1, 53),
                        (1, 57.5), (1, 44), (1, 48.5), (1, 53), (1, 57.5), (1, 61.5)]
      \<and> backLog st = [9]"
proof -
  let ?cfg = "mkConfig (945007 / 4500) (3564001 / 12000)"
  let ?r = "janeDoe \<lparr> skills := fiveSkills \<rparr>"
  let ?h = "headerSection utcHost (cleanText utcHost) ?cfg ?r (initState ?cfg)"
  let ?st = "draw (DSave (js ''resume.pdf'')) (skillsSection utcHost ?cfg ?r ?h)"
  have e: "generateTextPDF utcHost (Some ?r) (js ''resume.pdf'') None = Inr ?st"
    by (simp add: export_five utcHost_page)
  have y: "yPosition ?h = 36" and p: "pageCount ?h = 1"
    and l: "cursorLog ?h = [(1, 15), (1, 25), (1, 31), (1, 36)]" and b: "backLog ?h = []"
    by (simp_all add: header_janeDoe initState_def mkConfig_def)
  have "cursorLog ?st = [(1, 15), (1, 25), (1, 31), (1, 36), (1, 39), (1, 44), (1, 48.5), (1, 53),
                        (1, 57.5), (1, 44), (1, 48.5), (1, 53), (1, 57.5), (1, 61.5)]"
    using skills_five_log [OF y p] by (simp add: l draw_def)
  moreover have "backLog ?st = [9]"
    using skills_five_back [OF y p] by (simp add: l b draw_def)
  ultimately show ?thesis using e by blast
qed

text \<open>
  In the plain exporter an education entry with a description takes the cursor from 56
  back to 55.
\<close>

lemma header_described:
  "cursorLog (headerSection h cl cfg describedResume st)
     = cursorLog st @ [(pageCount st, yPosition st + 10), (pageCount st, yPosition st + 16),
                       (pageCount st, yPosition st + 21)]"
  "pageCount (headerSection h cl cfg describedResume st) = pageCount st"
  "yPosition (headerSection h cl cfg describedResume st) = yPosition st + 21"
  "backLog (headerSection h cl cfg describedResume st) = backLog st"
  by (simp_all add: headerSection_def describedResume_def janeDoe_def emptyResume_def emptyPersonal_def
      personalField_def
      truthyS_def js_def onlyIf_def Let_def pushClean_def advance_def setY_def textHere_def textAt_def
      draw_def setFontSize_def setFont_def)

lemma education2_described:
  assumes "yPosition st = 36" and "pageCount st = 1"
  shows "cursorLog (educationSection2 utcHost (mkConfig (945007 / 4500) (3564001 / 12000))
            describedResume st)
       = cursorLog st @ [(1, 39), (1, 44), (1, 48), (1, 51), (1, 52), (1, 56), (1, 55), (1, 60)]"
    and "yPosition (educationSection2 utcHost (mkConfig (945007 / 4500) (3564001 / 12000))
            describedResume st) = 60"
    and "pageCount (educationSection2 utcHost (mkConfig (945007 / 4500) (3564001 / 12000))
            describedResume st) = 1"
    and "backLog (educationSection2 utcHost (mkConfig (945007 / 4500) (3564001 / 12000))
            describedResume st) = backLog st @ [length (cursorLog st) + 6]"
  using assms
  by (simp_all add: educationSection2_def describedResume_def describedEducation_def janeDoe_def
      emptyResume_def forEachIndexed_def List.enumerate_eq_zip
      onlyIf_def Let_def addSectionHeader_def addBulletPoints_def stripLeadingBullets_def
      utcHost_split truthyS_def val_def orElse_def pushClean_def eval_text
      pageBreak_def checkPageBreak_def mkConfig_def retreat_def
      advance_def setBack_def setY_def textHere_def textAt_def draw_def setFontSize_def setFont_def)

lemma export2_described:
  "generateTextPDF2 utcHost (Some describedResume) fn None
     = Inr (draw (DSave fn)
         (skillsBody2 utcHost (mkConfig (945007 / 4500) (3564001 / 12000)) [js ''Python'']
           (addSectionHeader utcHost (mkConfig (945007 / 4500) (3564001 / 12000))
              (js ''Core Competencies & Technical Skills'')
              (educationSection2 utcHost (mkConfig (945007 / 4500) (3564001 / 12000)) describedResume
                (headerSection utcHost cleanText2 (mkConfig (945007 / 4500) (3564001 / 12000))
                   describedResume (initState (mkConfig (945007 / 4500) (3564001 / 12000))))))))"
proof -
  have e: "skills describedResume = [SkillString (js ''Python'')]"
    "projects describedResume = []" "certifications describedResume = []"
    "languages describedResume = []" "interests describedResume = []"
    "references describedResume = []" "experiences describedResume = []"
    "personalField p_summary describedResume = None"
    by (simp_all add: describedResume_def oneSkill_def janeDoe_def emptyResume_def emptyPersonal_def
        personalField_def)
  have t: "trim (js ''Python'') \<noteq> []"
    by (simp add: eval_text)
  show ?thesis
    using e t
    by (simp add: generateTextPDF2_def Let_def utcHost_page embedJobDescription_def
      summarySection_def experienceSection_def projectsSection_def
      certificationsSection_def languagesSection2_def interestsSection2_def referencesSection2_def
      truthyS_def onlyIf_def)
qed

lemma skills2_described:
  assumes "yPosition st = 60" and "pageCount st = 1"
  shows "cursorLog (skillsBody2 utcHost (mkConfig (945007 / 4500) (3564001 / 12000)) names
           (addSectionHeader utcHost (mkConfig (945007 / 4500) (3564001 / 12000)) title st))
       = cursorLog st @ [(1, 63), (1, 68), (1, 72), (1, 75)]"
    and "backLog (skillsBody2 utcHost (mkConfig (945007 / 4500) (3564001 / 12000)) names
           (addSectionHeader utcHost (mkConfig (945007 / 4500) (3564001 / 12000)) title st))
       = backLog st"
  using assms
  by (simp_all add: skillsBody2_def addSectionHeader_def utcHost_split
      pageBreak_def checkPageBreak_def mkConfig_def
      advance_def setY_def textHere_def textAt_def draw_def setFontSize_def setFont_def)

lemma described_log:
  "\<exists>st. generateTextPDF2 utcHost (Some describedResume) (js ''resume.pdf'') None = Inr st
      \<and> cursorLog st = [(1, 15), (1, 25), (1, 31), (1, 36), (1, 39), (1, 44), (1, 48), (1, 51),
                        (1, 52), (1, 56), (1, 55), (1, 60), (1, 63), (1, 68), (1, 72), (1, 75)]
      \<and> backLog st = [10]"
proof -
  let ?cfg = "mkConfig (945007 / 4500) (3564001 / 12000)"
  let ?h = "headerSection utcHost cleanText2 ?cfg describedResume (initState ?cfg)"
  let ?e = "educationSection2 utcHost ?cfg describedResume ?h"
  let ?st = "draw (DSave (js ''resume.pdf''))
     (skillsBody2 utcHost ?cfg [js ''Python'']
        (addSectionHeader utcHost ?cfg (js ''Core Competencies & Technical Skills'') ?e))"
  have y: "yPosition ?h = 36" and p: "pageCount ?h = 1"
    and l: "cursorLog ?h = [(1, 15), (1, 25), (1, 31), (1, 36)]" and b: "backLog ?h = []"
    by (simp_all add: header_described initState_def mkConfig_def)
  note ed = education2_described [OF y p]
  note sk = skills2_described [OF ed(2) ed(3)]
  have "cursorLog ?st = [(1, 15), (1, 25), (1, 31), (1, 36), (1, 39), (1, 44), (1, 48), (1, 51),
                        (1, 52), (1, 56), (1, 55), (1, 60), (1, 63), (1, 68), (1, 72), (1, 75)]"
    and "backLog ?st = [10]"
    by (simp_all add: draw_def sk ed l b)
  then show ?thesis
    using export2_described [of "js ''resume.pdf''"] by blast
qed
section \<open>What an export has drawn\<close>

lemma drawnAll_simps [simp]:
  "drawnAll P (draw op st) = (drawnAll P st \<and> P op)"
  "drawnAll P (textAt s x y st) = (drawnAll P st \<and> P (DText (curFont st) s x y))"
  "drawnAll P (textHere s x st) = (drawnAll P st \<and> P (DText (curFont st) s x (yPosition st)))"
  "drawnAll P (setFontSize sz st) = drawnAll P st"
  "drawnAll P (setFont style st) = drawnAll P st"
  "drawnAll P (setY v st) = drawnAll P st"
  "drawnAll P (advance d st) = drawnAll P st"
  "drawnAll P (setBack v st) = drawnAll P st"
  "drawnAll P (retreat d st) = drawnAll P st"
  by (auto simp: drawnAll_def draw_def textAt_def textHere_def setFontSize_def setFont_def
      setY_def advance_def setBack_def retreat_def)

lemma drawnAll_pageBreak [simp]: "P DAddPage \<Longrightarrow> drawnAll P (pageBreak cfg r st) = drawnAll P st"
  by (simp add: drawnAll_def pageBreak_def checkPageBreak_def draw_def)

lemma drawnAll_onlyIf [simp]:
  "(c \<Longrightarrow> drawnAll P (f st)) \<Longrightarrow> drawnAll P st \<Longrightarrow> drawnAll P (onlyIf c f st)"
  by (simp add: onlyIf_def)

lemma noSave_forEach:
  "(\<And>x s. noSave s \<Longrightarrow> noSave (body x s)) \<Longrightarrow> noSave st \<Longrightarrow> noSave (forEach xs body st)"
  by (induction xs arbitrary: st) simp_all

lemma noSave_forEachIndexed:
  "(\<And>i x s. noSave s \<Longrightarrow> noSave (body i x s)) \<Longrightarrow> noSave st \<Longrightarrow> noSave (forEachIndexed xs body st)"
  unfolding forEachIndexed_def by (rule fold_inv) auto

lemma noSave_addSectionHeader [simp]: "noSave st \<Longrightarrow> noSave (addSectionHeader h cfg title st)"
  by (simp add: addSectionHeader_def)

lemma noSave_addText [simp]: "noSave st \<Longrightarrow> noSave (addText h cl cfg txt fSize fStyle indent st)"
  by (simp add: addText_def noSave_forEach)

lemma noSave_addBulletPoints [simp]:
  "noSave st \<Longrightarrow> noSave (addBulletPoints h cfg txt indent showBullets st)"
  by (simp add: addBulletPoints_def noSave_forEach Let_def)

lemma noSave_embed [simp]: "noSave st \<Longrightarrow> noSave (embedJobDescription cl cfg jd st)"
  by (simp add: embedJobDescription_def noSave_forEachIndexed)

lemma noSave_header [simp]: "noSave st \<Longrightarrow> noSave (headerSection h cl cfg r st)"
  by (simp add: headerSection_def Let_def)

lemma noSave_summary [simp]: "noSave st \<Longrightarrow> noSave (summarySection h cl cfg r st)"
  by (simp add: summarySection_def Let_def)

lemma noSave_experience [simp]: "noSave st \<Longrightarrow> noSave (experienceSection h cl cfg r st)"
  by (simp add: experienceSection_def Let_def noSave_forEachIndexed)

lemma noSave_education2 [simp]: "noSave st \<Longrightarrow> noSave (educationSection2 h cfg r st)"
  by (simp add: educationSection2_def Let_def noSave_forEachIndexed)

lemma noSave_init [simp]: "noSave (initState cfg)"
  by (simp add: drawnAll_def initState_def)

lemma not_saved_iff: "\<not> saved (Inr st) \<longleftrightarrow> noSave st"
  by (simp add: saved_def drawnAll_def list_all_iff list_ex_iff)

text \<open>
  The plain exporter with no skills: the export returns without an error, and it has not
  saved the file, whatever else the document holds.
\<close>

lemma generateTextPDF2_no_skills:
  assumes "skills r = []"
  shows "\<exists>st. generateTextPDF2 h (Some r) filename jobDescription = Inr st \<and> \<not> saved (Inr st)"
proof -
  define cfg where "cfg = mkConfig (pageSizeWidth h) (pageSizeHeight h)"
  let ?s = "steps
     [embedJobDescription cleanText2 cfg jobDescription,
      headerSection h cleanText2 cfg r,
      summarySection h cleanText2 cfg r,
      experienceSection h cleanText2 cfg r,
      educationSection2 h cfg r]
     (initState cfg)"
  have "generateTextPDF2 h (Some r) filename jobDescription = Inr ?s"
    using assms by (simp add: generateTextPDF2_def Let_def cfg_def)
  moreover have "noSave ?s" by simp
  ultimately show ?thesis by (simp add: not_saved_iff)
qed

section \<open>The export of a document with nothing but a name\<close>

lemma otherHeader_simps [simp]:
  "otherHeader ts DAddPage"
  "otherHeader ts (DLine a b c d)"
  "otherHeader ts (DRect a b c d)"
  "otherHeader ts (DCircle a b c)"
  "otherHeader ts (DSave name)"
  "fontSize f \<noteq> 13 \<Longrightarrow> otherHeader ts (DText f s x y)"
  by (simp_all add: otherHeader_def list_all_iff)

lemma otherHeader_text: "s \<notin> set ts \<Longrightarrow> otherHeader ts (DText f s x y)"
  by (auto simp: otherHeader_def list_all_iff)

lemma fontSize_simps [simp]:
  "fontSize (curFont (setFontSize sz st)) = sz"
  "fontSize (curFont (setFont style st)) = fontSize (curFont st)"
  by (simp_all add: setFontSize_def setFont_def)

lemma loop_fixed_size:
  assumes "\<And>x s. drawnAll (otherHeader ts) s \<and> fontSize (curFont s) = z
             \<Longrightarrow> drawnAll (otherHeader ts) (body x s) \<and> fontSize (curFont (body x s)) = z"
    and "drawnAll (otherHeader ts) st" and "fontSize (curFont st) = z"
  shows "drawnAll (otherHeader ts) (forEach xs body st) \<and> fontSize (curFont (forEach xs body st)) = z"
  unfolding forEach_def
  by (rule fold_inv [where P = "\<lambda>s. drawnAll (otherHeader ts) s \<and> fontSize (curFont s) = z"])
     (use assms in auto)

lemma otherHeader_embed:
  assumes "drawnAll (otherHeader ts) st"
  shows "drawnAll (otherHeader ts) (embedJobDescription cl cfg jd st)"
proof -
  have "drawnAll (otherHeader ts) (forEachIndexed cs
          (\<lambda>index chunk. textAt chunk (X index) (Y index)) s)"
    if "drawnAll (otherHeader ts) s" "fontSize (curFont s) \<noteq> 13" for cs X Y s
    unfolding forEachIndexed_def
    by (rule conjunct1, rule fold_inv
          [where P = "\<lambda>s. drawnAll (otherHeader ts) s \<and> fontSize (curFont s) \<noteq> 13"])
       (use that in auto)
  then show ?thesis
    using assms by (simp add: embedJobDescription_def onlyIf_def)
qed

lemma otherHeader_header:
  "drawnAll (otherHeader ts) st \<Longrightarrow> drawnAll (otherHeader ts) (headerSection h cl cfg r st)"
  by (simp add: headerSection_def Let_def onlyIf_def)

lemma otherHeader_addText:
  assumes "drawnAll (otherHeader ts) st" and "fSize \<noteq> 13"
  shows "drawnAll (otherHeader ts) (addText h cl cfg txt fSize fStyle indent st)"
proof (cases "txt = []")
  case True
  with assms show ?thesis by (simp add: addText_def)
next
  case False
  let ?s = "setFont fStyle (setFontSize fSize st)"
  have "drawnAll (otherHeader ts) (forEach ls
          (\<lambda>line. steps [pageBreak cfg (fSize * 0.5), textHere line (margin cfg + indent),
                          advance (fSize * 0.5)]) ?s)" for ls
    using assms by (intro conjunct1 [OF loop_fixed_size [where z = fSize]]) simp_all
  with False show ?thesis
    by (simp add: addText_def)
qed

lemma upper_titles:
  "toUpperCase h (js ''Executive Summary'') = js ''EXECUTIVE SUMMARY''"
  "toUpperCase h (js ''Professional Experience'') = js ''PROFESSIONAL EXPERIENCE''"
  "toUpperCase h (js ''Education'') = js ''EDUCATION''"
  "toUpperCase h (js ''Core Competencies & Technical Skills'') = js ''CORE COMPETENCIES & TECHNICAL SKILLS''"
  by (simp_all add: toUpperCase_def js_def upperUnit_def isLower_def)

lemma otherHeader_summary:
  assumes "drawnAll (otherHeader otherTitles) st"
  shows "drawnAll (otherHeader otherTitles) (summarySection h cl cfg r st)"
proof -
  have "js ''EXECUTIVE SUMMARY'' \<notin> set otherTitles"
    by (simp add: otherTitles_def js_def)
  then have "otherHeader otherTitles (DText f (js ''EXECUTIVE SUMMARY'') x y)" for f x y
    by (rule otherHeader_text)
  then have "drawnAll (otherHeader otherTitles) (addSectionHeader h cfg (js ''Executive Summary'') st)"
    using assms by (simp add: addSectionHeader_def upper_titles)
  then show ?thesis
    using assms by (simp add: summarySection_def onlyIf_def Let_def otherHeader_addText)
qed

lemma hasSectionHeader_iff:
  "drawnAll (otherHeader ts) st \<Longrightarrow> toUpperCase h title \<in> set ts
     \<Longrightarrow> \<not> hasSectionHeader h title (Inr st)"
  by (auto simp: hasSectionHeader_def drawnAll_def otherHeader_def list_all_iff list_ex_iff)

text \<open>
  The exporter with reference validation, on a document whose section arrays are all
  empty: the export returns, its last operation is the save, and no header of the
  experience, education or skills section has been drawn. (This does not even need a name.)
\<close>

lemma generateTextPDF_empty_sections:
  assumes "experiences r = []" "educations r = []" "skills r = []" "projects r = []"
    "certifications r = []" "languages r = []" "interests r = []" "references r = []"
  shows "\<exists>st. generateTextPDF h (Some r) filename jobDescription = Inr st
           \<and> saved (Inr st) \<and> last (drawn st) = DSave filename
           \<and> \<not> hasSectionHeader h (js ''Professional Experience'') (Inr st)
           \<and> \<not> hasSectionHeader h (js ''Education'') (Inr st)
           \<and> \<not> hasSectionHeader h (js ''Core Competencies & Technical Skills'') (Inr st)"
proof -
  define cfg where "cfg = mkConfig (pageSizeWidth h) (pageSizeHeight h)"
  let ?s = "summarySection h (cleanText h) cfg r
              (headerSection h (cleanText h) cfg r
                (embedJobDescription (cleanText h) cfg jobDescription (initState cfg)))"
  have e: "generateTextPDF h (Some r) filename jobDescription = Inr (draw (DSave filename) ?s)"
    using assms
    by (simp add: generateTextPDF_def Let_def cfg_def languagesSection_def experienceSection_def
        educationSection_def skillsSection_def projectsSection_def certificationsSection_def
        interestsSection_def referencesSection_def onlyIf_def)
  have "drawnAll (otherHeader otherTitles) (initState cfg)"
    by (simp add: drawnAll_def initState_def)
  then have "drawnAll (otherHeader otherTitles) ?s"
    by (intro otherHeader_summary otherHeader_header otherHeader_embed)
  then have d: "drawnAll (otherHeader otherTitles) (draw (DSave filename) ?s)"
    by simp
  have "saved (Inr (draw (DSave filename) ?s))"
    by (simp add: saved_def)
  moreover have "last (drawn (draw (DSave filename) ?s)) = DSave filename"
    by simp
  moreover have "\<not> hasSectionHeader h (js ''Professional Experience'') (Inr (draw (DSave filename) ?s))"
    using d by (rule hasSectionHeader_iff) (simp add: upper_titles otherTitles_def)
  moreover have "\<not> hasSectionHeader h (js ''Education'') (Inr (draw (DSave filename) ?s))"
    using d by (rule hasSectionHeader_iff) (simp add: upper_titles otherTitles_def)
  moreover have "\<not> hasSectionHeader h (js ''Core Competencies & Technical Skills'')
                    (Inr (draw (DSave filename) ?s))"
    using d by (rule hasSectionHeader_iff) (simp add: upper_titles otherTitles_def)
  ultimately show ?thesis using e by blast
qed

text \<open>
  C1 at its failing input. On the document with nothing but the name "Jane Doe" the plain
  exporter returns without an error at the skills section and never reaches the final
  save; the exporter with reference validation saves the same document.
\<close>

theorem plain_export_name_only_not_saved:
  "(\<exists>st. generateTextPDF2 utcHost (Some janeDoe) (js ''resume.pdf'') None = Inr st)
   \<and> \<not> saved (generateTextPDF2 utcHost (Some janeDoe) (js ''resume.pdf'') None)
   \<and> saved (generateTextPDF utcHost (Some janeDoe) (js ''resume.pdf'') None)"
proof -
  have e: "skills janeDoe = []" "experiences janeDoe = []" "educations janeDoe = []"
    "projects janeDoe = []" "certifications janeDoe = []" "languages janeDoe = []"
    "interests janeDoe = []" "references janeDoe = []"
    by (simp_all add: janeDoe_def emptyResume_def)
  from generateTextPDF2_no_skills [OF e(1), of utcHost "js ''resume.pdf''" None]
  have "(\<exists>st. generateTextPDF2 utcHost (Some janeDoe) (js ''resume.pdf'') None = Inr st)
    \<and> \<not> saved (generateTextPDF2 utcHost (Some janeDoe) (js ''resume.pdf'') None)"
    by auto
  moreover from generateTextPDF_empty_sections
    [OF e(2) e(3) e(1) e(4) e(5) e(6) e(7) e(8), of utcHost "js ''resume.pdf''" None]
  have "saved (generateTextPDF utcHost (Some janeDoe) (js ''resume.pdf'') None)"
    by auto
  ultimately show ?thesis by blast
qed

section \<open>Where the cursor moves back\<close>

text \<open>
  C6, as the code has it. Within a page the cursor moves back only at the assignments that
  \<open>backLog\<close> records; every other assignment leaves it where it is, moves it forward or
  starts a page. In the exporter with reference validation the one such assignment is
  \<open>yPosition = startY\<close> between the two columns of skills: it is run once when 4 or more
  skills pass the filter and not at all otherwise, so the cursor of an export with fewer
  than 4 such skills is monotone within each page. In the plain exporter it is
  \<open>yPosition -= 1\<close> after the description of an education entry: it is run once for each
  entry with a description, so the cursor of an export with no such entry is monotone
  within each page.
\<close>

theorem cursor_moves_back_only_where_logged:
  "(generateTextPDF h (Some r) filename jobDescription = Inr st \<longrightarrow>
      set (backward 0 (cursorLog st)) \<subseteq> set (backLog st)
      \<and> length (backLog st) = (if 4 \<le> length (skillsArray h (skills r)) then 1 else 0)
      \<and> (length (skillsArray h (skills r)) < 4 \<longrightarrow> monoLog (cursorLog st)))
   \<and> (generateTextPDF2 h (Some r) filename jobDescription = Inr st2 \<longrightarrow>
      set (backward 0 (cursorLog st2)) \<subseteq> set (backLog st2)
      \<and> length (backLog st2)
          = length (filter (\<lambda>edu. truthyS (edu_description edu)) (educations r))
      \<and> (filter (\<lambda>edu. truthyS (edu_description edu)) (educations r) = []
           \<longrightarrow> monoLog (cursorLog st2)))"
proof (intro conjI impI)
  assume "generateTextPDF h (Some r) filename jobDescription = Inr st"
  then obtain M where M: "linv M (mkConfig (pageSizeWidth h) (pageSizeHeight h)) st"
    and len: "length M = (if 4 \<le> length (skillsArray h (skills r)) then 1 else 0)"
    using export_inv by blast
  from M show sub: "set (backward 0 (cursorLog st)) \<subseteq> set (backLog st)"
    by (simp add: linv_def)
  from M len show "length (backLog st) = (if 4 \<le> length (skillsArray h (skills r)) then 1 else 0)"
    by (simp add: linv_def)
  assume "length (skillsArray h (skills r)) < 4"
  with M len have "backLog st = []" by (simp add: linv_def)
  with sub show "monoLog (cursorLog st)"
    by (simp add: monoLog_backward [of _ 0])
next
  assume "generateTextPDF2 h (Some r) filename jobDescription = Inr st2"
  then obtain M where M: "linv M (mkConfig (pageSizeWidth h) (pageSizeHeight h)) st2"
    and len: "length M = length (filter (\<lambda>edu. truthyS (edu_description edu)) (educations r))"
    using export2_inv by blast
  from M show sub: "set (backward 0 (cursorLog st2)) \<subseteq> set (backLog st2)"
    by (simp add: linv_def)
  from M len show "length (backLog st2)
      = length (filter (\<lambda>edu. truthyS (edu_description edu)) (educations r))"
    by (simp add: linv_def)
  assume "filter (\<lambda>edu. truthyS (edu_description edu)) (educations r) = []"
  with M len have "backLog st2 = []" by (simp add: linv_def)
  with sub show "monoLog (cursorLog st2)"
    by (simp add: monoLog_backward [of _ 0])
qed

text \<open>
  Three exports: a resume with all sections and two skills, whose cursor is monotone
  within its page; a resume with five skills, and a plain export with a described education
  entry, where the cursor moves back once, at the recorded position.
\<close>

theorem cursor_moves_back_only_where_logged_witness:
  "(\<exists>st. generateTextPDF utcHost (Some sampleResume) (js ''resume.pdf'') None = Inr st
        \<and> backLog st = [] \<and> monoLog (cursorLog st))
   \<and> (\<exists>st. generateTextPDF utcHost (Some (janeDoe \<lparr> skills := fiveSkills \<rparr>)) (js ''resume.pdf'') None
          = Inr st
        \<and> length (backLog st) = 1 \<and> set (backward 0 (cursorLog st)) \<subseteq> set (backLog st))
   \<and> (\<exists>st. generateTextPDF2 utcHost (Some describedResume) (js ''resume.pdf'') None = Inr st
        \<and> length (backLog st) = 1 \<and> set (backward 0 (cursorLog st)) \<subseteq> set (backLog st))"
proof (intro conjI)
  have a: "length (skillsArray utcHost (skills sampleResume)) < 4"
    by (simp add: sampleResume_def skillsArray_twoSkills)
  have "length (languages sampleResume) \<le> 3"
    by (simp add: sampleResume_def)
  then obtain st where st: "generateTextPDF utcHost (Some sampleResume) (js ''resume.pdf'') None = Inr st"
    using generateTextPDF_returns [of sampleResume utcHost "js ''resume.pdf''" None] by blast
  from cursor_moves_back_only_where_logged
    [where h = utcHost and r = sampleResume and filename = "js ''resume.pdf''"
       and jobDescription = None and st = st] st a
  have "backLog st = [] \<and> monoLog (cursorLog st)" by simp
  with st show "\<exists>st. generateTextPDF utcHost (Some sampleResume) (js ''resume.pdf'') None = Inr st
        \<and> backLog st = [] \<and> monoLog (cursorLog st)"
    by blast
next
  let ?r = "janeDoe \<lparr> skills := fiveSkills \<rparr>"
  have a: "length (skillsArray utcHost (skills ?r)) = 5"
    by (simp add: skillsArray_fiveSkills)
  obtain st where st: "generateTextPDF utcHost (Some ?r) (js ''resume.pdf'') None = Inr st"
    using five_skills_log by blast
  from cursor_moves_back_only_where_logged
    [where h = utcHost and r = ?r and filename = "js ''resume.pdf''"
       and jobDescription = None and st = st] st a
  have "length (backLog st) = 1 \<and> set (backward 0 (cursorLog st)) \<subseteq> set (backLog st)"
    by simp
  with st show "\<exists>st. generateTextPDF utcHost (Some ?r) (js ''resume.pdf'') None = Inr st
        \<and> length (backLog st) = 1 \<and> set (backward 0 (cursorLog st)) \<subseteq> set (backLog st)"
    by blast
next
  have a: "filter (\<lambda>edu. truthyS (edu_description edu)) (educations describedResume)
      = [describedEducation]"
    by (simp add: describedResume_def describedEducation_def truthyS_def js_def)
  obtain st where st: "generateTextPDF2 utcHost (Some describedResume) (js ''resume.pdf'') None = Inr st"
    using described_log by blast
  from cursor_moves_back_only_where_logged
    [where h = utcHost and r = describedResume and filename = "js ''resume.pdf''"
       and jobDescription = None and ?st2.0 = st] st a
  have "length (backLog st) = 1 \<and> set (backward 0 (cursorLog st)) \<subseteq> set (backLog st)"
    by simp
  with st show "\<exists>st. generateTextPDF2 utcHost (Some describedResume) (js ''resume.pdf'') None = Inr st
        \<and> length (backLog st) = 1 \<and> set (backward 0 (cursorLog st)) \<subseteq> set (backLog st)"
    by blast
qed

text \<open>
  C6 as stated fails in both exporters. With five skills the two-column renderer draws the
  left column down to 57.5 and then takes the cursor back to 44 on the same page. In the
  plain exporter a described education entry takes the cursor from 56 back to 55. In both
  exports the step back is the one that \<open>backLog\<close> records.
\<close>

theorem cursor_moves_back_in_both_exporters:
  "(\<exists>st. generateTextPDF utcHost (Some (janeDoe \<lparr> skills := fiveSkills \<rparr>)) (js ''resume.pdf'') None
          = Inr st
        \<and> cursorLog st = [(1, 15), (1, 25), (1, 31), (1, 36), (1, 39), (1, 44), (1, 48.5), (1, 53),
                          (1, 57.5), (1, 44), (1, 48.5), (1, 53), (1, 57.5), (1, 61.5)]
        \<and> backward 0 (cursorLog st) = [9] \<and> backLog st = [9]
        \<and> \<not> monoLog (cursorLog st))
   \<and> (\<exists>st. generateTextPDF2 utcHost (Some describedResume) (js ''resume.pdf'') None = Inr st
        \<and> cursorLog st = [(1, 15), (1, 25), (1, 31), (1, 36), (1, 39), (1, 44), (1, 48), (1, 51),
                          (1, 52), (1, 56), (1, 55), (1, 60), (1, 63), (1, 68), (1, 72), (1, 75)]
        \<and> backward 0 (cursorLog st) = [10] \<and> backLog st = [10]
        \<and> \<not> monoLog (cursorLog st))"
proof (intro conjI)
  from five_skills_log obtain st
    where "generateTextPDF utcHost (Some (janeDoe \<lparr> skills := fiveSkills \<rparr>)) (js ''resume.pdf'') None
          = Inr st"
      and "cursorLog st = [(1, 15), (1, 25), (1, 31), (1, 36), (1, 39), (1, 44), (1, 48.5), (1, 53),
                          (1, 57.5), (1, 44), (1, 48.5), (1, 53), (1, 57.5), (1, 61.5)]"
      and "backLog st = [9]"
    by blast
  then show "\<exists>st. generateTextPDF utcHost (Some (janeDoe \<lparr> skills := fiveSkills \<rparr>)) (js ''resume.pdf'') None
          = Inr st
        \<and> cursorLog st = [(1, 15), (1, 25), (1, 31), (1, 36), (1, 39), (1, 44), (1, 48.5), (1, 53),
                          (1, 57.5), (1, 44), (1, 48.5), (1, 53), (1, 57.5), (1, 61.5)]
        \<and> backward 0 (cursorLog st) = [9] \<and> backLog st = [9]
        \<and> \<not> monoLog (cursorLog st)"
    by (intro exI [of _ st]) simp
next
  from described_log obtain st
    where "generateTextPDF2 utcHost (Some describedResume) (js ''resume.pdf'') None = Inr st"
      and "cursorLog st = [(1, 15), (1, 25), (1, 31), (1, 36), (1, 39), (1, 44), (1, 48), (1, 51),
                          (1, 52), (1, 56), (1, 55), (1, 60), (1, 63), (1, 68), (1, 72), (1, 75)]"
      and "backLog st = [10]"
    by blast
  then show "\<exists>st. generateTextPDF2 utcHost (Some describedResume) (js ''resume.pdf'') None = Inr st
        \<and> cursorLog st = [(1, 15), (1, 25), (1, 31), (1, 36), (1, 39), (1, 44), (1, 48), (1, 51),
                          (1, 52), (1, 56), (1, 55), (1, 60), (1, 63), (1, 68), (1, 72), (1, 75)]
        \<and> backward 0 (cursorLog st) = [10] \<and> backLog st = [10]
        \<and> \<not> monoLog (cursorLog st)"
    by (intro exI [of _ st]) simp
qed

end
